theory Spec2Isabelle
  imports Complex_Main "HOL-Library.AList"
begin

section \<open>Python values: exceptions and dictionaries\<close>

text \<open>
  The simulator is Python. An exception that leaves a method is a value of \<open>error\<close>
  on the left of a sum. A \<open>dict\<close> is an association list with distinct keys in
  insertion order: assigning to a key that is present replaces the value in place,
  assigning to a new key appends, which is what \<open>AList.update\<close> does. Python floats
  are read as real numbers, Python ints as \<open>int\<close>.
\<close>

datatype error = KeyError | AssertionError | ZeroDivisionError | AttributeError | IndexError

definition bind_err :: "error + 'a \<Rightarrow> ('a \<Rightarrow> error + 'b) \<Rightarrow> error + 'b" where
  "bind_err m f = (case m of Inl e \<Rightarrow> Inl e | Inr x \<Rightarrow> f x)"

text \<open>\<open>d[k]\<close> on a plain dict (and on a \<open>defaultdict()\<close> without a factory).\<close>

definition getitem :: "('k \<times> 'v) list \<Rightarrow> 'k \<Rightarrow> error + 'v" where
  "getitem d k = (case map_of d k of None \<Rightarrow> Inl KeyError | Some v \<Rightarrow> Inr v)"

text \<open>\<open>d[k]\<close> on a \<open>defaultdict(factory)\<close>: a missing key is first stored with the default.\<close>

definition dd_getitem :: "'v \<Rightarrow> ('k \<times> 'v) list \<Rightarrow> 'k \<Rightarrow> 'v \<times> ('k \<times> 'v) list" where
  "dd_getitem dflt d k =
     (case map_of d k of None \<Rightarrow> (dflt, d @ [(k, dflt)]) | Some v \<Rightarrow> (v, d))"

text \<open>\<open>d[r][s]\<close> on a \<open>defaultdict(lambda: defaultdict(factory))\<close>.\<close>

definition dd2_getitem ::
  "'v \<Rightarrow> ('r \<times> ('s \<times> 'v) list) list \<Rightarrow> 'r \<Rightarrow> 's \<Rightarrow> 'v \<times> ('r \<times> ('s \<times> 'v) list) list" where
  "dd2_getitem dflt d r s =
     (let (inner, d1) = dd_getitem [] d r;
          (v, inner1) = dd_getitem dflt inner s
      in (v, AList.update r inner1 d1))"

text \<open>\<open>d[r][s] = v\<close> on the same nested defaultdict.\<close>

definition dd2_setitem ::
  "('r \<times> ('s \<times> 'v) list) list \<Rightarrow> 'r \<Rightarrow> 's \<Rightarrow> 'v \<Rightarrow> ('r \<times> ('s \<times> 'v) list) list" where
  "dd2_setitem d r s v =
     (let (inner, d1) = dd_getitem [] d r
      in AList.update r (AList.update s v inner) d1)"

section \<open>Passengers, trajectory points, the running log and the bus\<close>

datatype bus_status = running_on_link | queueing_at_stop | dwelling_at_stop | holding | finished

datatype board_state = boarding | idle

datatype alight_state = alighting | alight_idle

record pax =
  pax_id :: string
  origin :: string
  destination :: string
  routes :: "string list"
  arrival_time :: int
  board_rate :: real
  alight_rate :: "real option"
  board_time :: "int option"
  alight_time :: "int option"
  out_vehicle_delay :: int
  in_vehicle_delay :: int

record trajectory_point =
  spot_type :: string
  spot_id :: string
  distance_from_terminal :: real
  point_status :: bus_status

record route_details =
  route_id :: string
  terminal_id :: string
  visit_seq_stops :: "string list"
  end_terminal_id :: string
  od_rate_table :: "(string \<times> (string \<times> real) list) list"
  schedule_headway :: real
  schedule_headway_std :: real
  boarding_rate :: "(string \<times> real) list"
  bus_capacity :: int
  hold_stops :: "string list"

text \<open>
  The three properties of \<open>VirtualBus\<close> return \<open>dict(...)\<close> of the outer
  defaultdict, so a missing route is a \<open>KeyError\<close>.
\<close>

record virtual_bus =
  route_stop_arrival_time :: "(string \<times> (string \<times> real) list) list"
  route_stop_rtd_time :: "(string \<times> (string \<times> real) list) list"
  route_stop_departure_time :: "(string \<times> (string \<times> real) list) list"

record bus_running_log =
  virtual_bus_stop_arrival_time :: "(string \<times> real) list"
  virtual_bus_stop_rtd_time :: "(string \<times> real) list"
  virtual_bus_stop_departure_time :: "(string \<times> real) list"
  schedule_headway :: real
  dispatch_time :: "int option"
  end_time :: "int option"
  link_tt_deviation :: "(string \<times> real) list"
  stop_dwell_time :: "(string \<times> int) list"
  visited_stops :: "string list"
  stop_epsilon_arrival :: "(string \<times> real) list"
  stop_epsilon_rtd :: "(string \<times> real) list"
  stop_epsilon_departure :: "(string \<times> real) list"
  stop_arrival_time :: "(string \<times> int) list"
  stop_rtd_time :: "(string \<times> int) list"
  stop_departure_time :: "(string \<times> int) list"
  stop_queueing_delay :: "(string \<times> int) list"

record bus =
  bus_id :: string
  route_id :: string
  capacity :: int
  node_distance :: "(string \<times> real) list"
  status :: bus_status
  board_status :: board_state
  alight_status :: alight_state
  paxs :: "pax list"
  board_fraction :: real
  pax_board_rate :: "real option"
  alight_fraction :: real
  pax_alight_rate :: "real option"
  trajectory :: "(int \<times> trajectory_point) list"
  is_need_to_hold :: bool
  hold_stops :: "string list"
  bus_log :: bus_running_log
  speed :: real
  loc_relative_to_terminal :: real

text \<open>\<open>Bus.set_status\<close>.\<close>

definition set_status :: "bus_status \<Rightarrow> bus \<Rightarrow> bus" where
  "set_status st b = b\<lparr>status := st\<rparr>"

text \<open>\<open>Bus.update_location\<close>: the distance of the node is looked up in a plain dict.\<close>

definition update_location ::
  "int \<Rightarrow> string \<Rightarrow> string \<Rightarrow> string \<Rightarrow> real \<Rightarrow> bus_status \<Rightarrow> bus \<Rightarrow> error + bus" where
  "update_location t sty sid node offset st b =
     bind_err (getitem (node_distance b) node) (\<lambda>d.
       Inr (b\<lparr>loc_relative_to_terminal := d + offset,
              trajectory := AList.update t
                \<lparr>spot_type = sty, spot_id = sid, distance_from_terminal = d + offset,
                 point_status = st\<rparr> (trajectory b)\<rparr>))"

text \<open>\<open>BusRunningLog.record_when_queue\<close> and \<open>record_when_dwell\<close>: \<open>defaultdict(int)\<close> counters.\<close>

definition record_when_queue :: "string \<Rightarrow> bus_running_log \<Rightarrow> bus_running_log" where
  "record_when_queue sid l =
     (let (n, d) = dd_getitem 0 (stop_queueing_delay l) sid
      in l\<lparr>stop_queueing_delay := AList.update sid (n + 1) d\<rparr>)"

definition record_when_dwell :: "string \<Rightarrow> bus_running_log \<Rightarrow> bus_running_log" where
  "record_when_dwell sid l =
     (let (n, d) = dd_getitem 0 (stop_dwell_time l) sid
      in l\<lparr>stop_dwell_time := AList.update sid (n + 1) d\<rparr>)"

text \<open>\<open>BusRunningLog.__init__\<close> and \<open>Bus.__init__\<close>.\<close>

definition new_bus_running_log ::
  "real \<Rightarrow> (string \<times> real) list \<Rightarrow> (string \<times> real) list \<Rightarrow> (string \<times> real) list
     \<Rightarrow> bus_running_log" where
  "new_bus_running_log h va vr vd =
     \<lparr>virtual_bus_stop_arrival_time = va, virtual_bus_stop_rtd_time = vr,
      virtual_bus_stop_departure_time = vd, schedule_headway = h,
      dispatch_time = None, end_time = None, link_tt_deviation = [], stop_dwell_time = [],
      visited_stops = [], stop_epsilon_arrival = [], stop_epsilon_rtd = [],
      stop_epsilon_departure = [], stop_arrival_time = [], stop_rtd_time = [],
      stop_departure_time = [], stop_queueing_delay = []\<rparr>"


section \<open>The stop: berths and the queue rule\<close>

record stop_log =
  route_arrival_time_seq :: "(string \<times> real list) list"
  route_arrival_bus_id_seq :: "(string \<times> string list) list"
  route_rtd_time_seq :: "(string \<times> real list) list"
  route_rtd_bus_id_seq :: "(string \<times> string list) list"
  route_bus_epsilon_arrival :: "(string \<times> (string \<times> real) list) list"
  route_bus_epsilon_rtd :: "(string \<times> (string \<times> real) list) list"

record pax_queue =
  route_group_paxs :: "(string list \<times> pax list) list"
  queue_stop_id :: string
  queue_board_truncation :: string

record stop =
  stop_id :: string
  berth_num :: nat
  has_schedule :: bool
  queue_rule :: string
  entry_queue :: "bus list"
  buses_in_berth :: "bus option list"
  leave_queue :: "bus list"
  stop_log :: stop_log
  board_truncation :: string
  board_pax_queue :: pax_queue

text \<open>
  \<open>StopLog.__init__\<close>: for every route of the virtual bus that visits the stop, the
  virtual bus is the first entry of the arrival and of the ready-to-depart sequences, with
  bus id \<open>'0'\<close> and, when a schedule is kept, schedule deviation 0.
\<close>

definition seed_arrival :: "string \<Rightarrow> bool \<Rightarrow> string \<times> (string \<times> real) list \<Rightarrow> stop_log \<Rightarrow> stop_log" where
  "seed_arrival sid sched rt lg =
     (case map_of (snd rt) sid of
        None \<Rightarrow> lg
      | Some a \<Rightarrow>
          lg\<lparr>route_arrival_time_seq := AList.update (fst rt) [a] (route_arrival_time_seq lg),
             route_arrival_bus_id_seq := AList.update (fst rt) [''0''] (route_arrival_bus_id_seq lg),
             route_bus_epsilon_arrival :=
               (if sched then dd2_setitem (route_bus_epsilon_arrival lg) (fst rt) ''0'' 0
                else route_bus_epsilon_arrival lg)\<rparr>)"

definition seed_rtd :: "string \<Rightarrow> bool \<Rightarrow> string \<times> (string \<times> real) list \<Rightarrow> stop_log \<Rightarrow> stop_log" where
  "seed_rtd sid sched rt lg =
     (case map_of (snd rt) sid of
        None \<Rightarrow> lg
      | Some a \<Rightarrow>
          lg\<lparr>route_rtd_time_seq := AList.update (fst rt) [a] (route_rtd_time_seq lg),
             route_rtd_bus_id_seq := AList.update (fst rt) [''0''] (route_rtd_bus_id_seq lg),
             route_bus_epsilon_rtd :=
               (if sched then dd2_setitem (route_bus_epsilon_rtd lg) (fst rt) ''0'' 0
                else route_bus_epsilon_rtd lg)\<rparr>)"

definition new_stop_log :: "string \<Rightarrow> virtual_bus \<Rightarrow> bool \<Rightarrow> stop_log" where
  "new_stop_log sid vb sched =
     fold (seed_rtd sid sched) (route_stop_rtd_time vb)
       (fold (seed_arrival sid sched) (route_stop_arrival_time vb)
          \<lparr>route_arrival_time_seq = [], route_arrival_bus_id_seq = [],
           route_rtd_time_seq = [], route_rtd_bus_id_seq = [],
           route_bus_epsilon_arrival = [], route_bus_epsilon_rtd = []\<rparr>)"

text \<open>
  \<open>Stop_Board.__init__\<close> (with \<open>Stop.__init__\<close> and \<open>PaxQueue.__init__\<close>), from the
  berth number of the node geometry and the queue rule and boarding truncation of the
  node operation.
\<close>

definition new_stop_board :: "string \<Rightarrow> nat \<Rightarrow> string \<Rightarrow> string \<Rightarrow> virtual_bus \<Rightarrow> bool \<Rightarrow> stop" where
  "new_stop_board sid n rule trunc vb sched =
     \<lparr>stop_id = sid, berth_num = n, has_schedule = sched, queue_rule = rule,
      entry_queue = [], buses_in_berth = replicate n None, leave_queue = [],
      stop_log = new_stop_log sid vb sched, board_truncation = trunc,
      board_pax_queue = \<lparr>route_group_paxs = [], queue_stop_id = sid,
                           queue_board_truncation = trunc\<rparr>\<rparr>"

text \<open>
  The two loops of \<open>Stop._queue_rule_check_in\<close> differ only in the order of the berth
  indices: every free berth met overwrites the target, the first occupied berth ends
  the loop.
\<close>

fun check_in_scan :: "bus option list \<Rightarrow> nat list \<Rightarrow> nat option \<Rightarrow> nat option" where
  "check_in_scan berths [] target = target"
| "check_in_scan berths (b # bs) target =
     (if berths ! b = None then check_in_scan berths bs (Some b) else target)"

definition queue_rule_check_in :: "stop \<Rightarrow> nat option" where
  "queue_rule_check_in s =
     (if queue_rule s = ''FO''
      then check_in_scan (buses_in_berth s) (rev [0..<length (buses_in_berth s)]) None
      else if queue_rule s = ''FIFO''
      then check_in_scan (buses_in_berth s) [0..<length (buses_in_berth s)] None
      else None)"

text \<open>
  The loop of \<open>Stop._queue_rule_check_out\<close> over \<open>range(berth_idx+1, berth_num)\<close>: an
  occupied berth ends it, and the flag is set when the last berth is reached.
\<close>

fun check_out_scan :: "bus option list \<Rightarrow> nat \<Rightarrow> nat list \<Rightarrow> bool \<Rightarrow> error + bool" where
  "check_out_scan berths n [] can_go = Inr can_go"
| "check_out_scan berths n (b # bs) can_go =
     (if length berths \<le> b then Inl IndexError
      else if berths ! b \<noteq> None then Inr can_go
      else if int b = int n - 1 then check_out_scan berths n bs True
      else check_out_scan berths n bs can_go)"

definition queue_rule_check_out :: "stop \<Rightarrow> nat \<Rightarrow> error + bool" where
  "queue_rule_check_out s berth_idx =
     (if queue_rule s = ''FO'' then Inr True
      else if queue_rule s = ''FIFO''
      then (if int berth_idx = int (berth_num s) - 1 then Inr True
            else check_out_scan (buses_in_berth s) (berth_num s)
                   [berth_idx + 1 ..< berth_num s] False)
      else Inr False)"

text \<open>A \<open>for\<close> loop whose body may raise: the first exception ends it.\<close>

fun map_err :: "('a \<Rightarrow> error + 'b) \<Rightarrow> 'a list \<Rightarrow> error + 'b list" where
  "map_err f [] = Inr []"
| "map_err f (x # xs) =
     (case f x of
        Inl e \<Rightarrow> Inl e
      | Inr y \<Rightarrow> (case map_err f xs of Inl e \<Rightarrow> Inl e | Inr ys \<Rightarrow> Inr (y # ys)))"

text \<open>
  \<open>Stop_Board._enter_berth\<close>: only the head of the entry queue is offered a berth; every
  bus still queueing afterwards is charged one second of queueing delay and has its
  location updated.
\<close>

definition queue_tick :: "int \<Rightarrow> string \<Rightarrow> bus \<Rightarrow> error + bus" where
  "queue_tick t sid b =
     update_location t ''stop'' sid sid 0 queueing_at_stop
       (b\<lparr>bus_log := record_when_queue sid (bus_log b)\<rparr>)"

definition enter_berth :: "int \<Rightarrow> stop \<Rightarrow> error + stop" where
  "enter_berth t s =
     (case entry_queue s of
        [] \<Rightarrow> Inr s
      | head_bus # rest \<Rightarrow>
          (let s1 = (case queue_rule_check_in s of
                       None \<Rightarrow> s
                     | Some target_berth \<Rightarrow>
                         s\<lparr>buses_in_berth :=
                              (buses_in_berth s)[target_berth :=
                                 Some (set_status dwelling_at_stop head_bus)],
                           entry_queue := rest\<rparr>)
           in bind_err (map_err (queue_tick t (stop_id s)) (entry_queue s1))
                (\<lambda>q. Inr (s1\<lparr>entry_queue := q\<rparr>))))"

text \<open>
  The admission rule in the words of the specification, for comparison: the
  most-downstream free berth is the free berth of greatest index, the most-upstream free
  berth the free berth of least index.
\<close>

definition spec_most_downstream_free :: "bus option list \<Rightarrow> nat option" where
  "spec_most_downstream_free berths =
     (case filter (\<lambda>b. berths ! b = None) (rev [0..<length berths]) of
        [] \<Rightarrow> None | b # bs \<Rightarrow> Some b)"

definition spec_most_upstream_free :: "bus option list \<Rightarrow> nat option" where
  "spec_most_upstream_free berths =
     (case filter (\<lambda>b. berths ! b = None) [0..<length berths] of
        [] \<Rightarrow> None | b # bs \<Rightarrow> Some b)"

text \<open>The identity of a bus, and the number of occupied berths.\<close>

definition bus_ident :: "bus \<Rightarrow> string \<times> string" where
  "bus_ident b = (route_id b, bus_id b)"

definition occupied :: "bus option list \<Rightarrow> nat" where
  "occupied berths = length (filter (\<lambda>x. x \<noteq> None) berths)"

section \<open>The holder\<close>

text \<open>
  \<open>HolderLog\<close>: per route and stop the departure times and departing bus ids, and per
  route, stop and bus the departure deviation. All three are nested defaultdicts.
\<close>

record holder_log =
  route_stop_departure_time_seq :: "(string \<times> (string \<times> real list) list) list"
  route_stop_departure_bus_id_seq :: "(string \<times> (string \<times> string list) list) list"
  route_stop_bus_epsilon_departure :: "(string \<times> (string \<times> (string \<times> real) list) list) list"

text \<open>
  \<open>Holder\<close>: both dictionaries are keyed by (stop id, route id, bus id); they are
  \<open>defaultdict()\<close> without a factory, so a missing key raises.
\<close>

type_synonym hold_key = "string \<times> string \<times> string"

record holder =
  identifier_bus :: "(hold_key \<times> bus) list"
  identifier_time :: "(hold_key \<times> real option) list"
  holder_log :: holder_log
  holder_has_schedule :: bool

text \<open>\<open>d[r][s].append(x)\<close> and \<open>d[r][s][b] = v\<close> on the nested defaultdicts.\<close>

definition dd2_append ::
  "('r \<times> ('s \<times> 'v list) list) list \<Rightarrow> 'r \<Rightarrow> 's \<Rightarrow> 'v \<Rightarrow> ('r \<times> ('s \<times> 'v list) list) list" where
  "dd2_append d r s x = (let (xs, d1) = dd2_getitem [] d r s in dd2_setitem d1 r s (xs @ [x]))"

definition dd3_setitem ::
  "('r \<times> ('s \<times> ('b \<times> 'v) list) list) list \<Rightarrow> 'r \<Rightarrow> 's \<Rightarrow> 'b \<Rightarrow> 'v
     \<Rightarrow> ('r \<times> ('s \<times> ('b \<times> 'v) list) list) list" where
  "dd3_setitem d r s b v =
     (let (m, d1) = dd2_getitem [] d r s in dd2_setitem d1 r s (AList.update b v m))"

text \<open>Reading without creating entries: \<open>d.get(r, {}).get(s, [])\<close>.\<close>

definition dd2_lookup :: "('r \<times> ('s \<times> 'v list) list) list \<Rightarrow> 'r \<Rightarrow> 's \<Rightarrow> 'v list" where
  "dd2_lookup d r s =
     (case map_of d r of
        None \<Rightarrow> []
      | Some inner \<Rightarrow> (case map_of inner s of None \<Rightarrow> [] | Some v \<Rightarrow> v))"

text \<open>\<open>HolderLog.__init__\<close>: the virtual bus departs first from every stop of every route.\<close>

definition seed_departure :: "bool \<Rightarrow> string \<Rightarrow> string \<times> real \<Rightarrow> holder_log \<Rightarrow> holder_log" where
  "seed_departure sched r st lg =
     lg\<lparr>route_stop_departure_time_seq :=
          dd2_setitem (route_stop_departure_time_seq lg) r (fst st) [snd st],
        route_stop_departure_bus_id_seq :=
          dd2_setitem (route_stop_departure_bus_id_seq lg) r (fst st) [''0''],
        route_stop_bus_epsilon_departure :=
          (if sched then dd3_setitem (route_stop_bus_epsilon_departure lg) r (fst st) ''0'' 0
           else route_stop_bus_epsilon_departure lg)\<rparr>"

definition new_holder_log :: "virtual_bus \<Rightarrow> bool \<Rightarrow> holder_log" where
  "new_holder_log vb sched =
     fold (\<lambda>rt lg. fold (seed_departure sched (fst rt)) (snd rt) lg)
       (route_stop_departure_time vb)
       \<lparr>route_stop_departure_time_seq = [], route_stop_departure_bus_id_seq = [],
        route_stop_bus_epsilon_departure = []\<rparr>"

text \<open>\<open>HolderLog.record_when_bus_departure\<close>, with the optional keyword argument.\<close>

definition record_when_bus_departure ::
  "string \<Rightarrow> string \<Rightarrow> string \<Rightarrow> int \<Rightarrow> real option \<Rightarrow> holder_log \<Rightarrow> holder_log" where
  "record_when_bus_departure sid r bid t eps lg =
     lg\<lparr>route_stop_departure_time_seq :=
          dd2_append (route_stop_departure_time_seq lg) r sid (of_int t),
        route_stop_departure_bus_id_seq :=
          dd2_append (route_stop_departure_bus_id_seq lg) r sid bid,
        route_stop_bus_epsilon_departure :=
          (case eps of
             None \<Rightarrow> route_stop_bus_epsilon_departure lg
           | Some e \<Rightarrow> dd3_setitem (route_stop_bus_epsilon_departure lg) r sid bid e)\<rparr>"

text \<open>
  \<open>BusRunningLog.record_when_departure\<close>: the count of earlier departures is the optional
  keyword argument; with it the deviation from the shifted virtual departure is stored
  and returned.
\<close>

definition record_when_departure ::
  "string \<Rightarrow> int \<Rightarrow> nat option \<Rightarrow> bus_running_log \<Rightarrow> error + (real option \<times> bus_running_log)" where
  "record_when_departure sid t cnt l =
     (let l1 = l\<lparr>stop_departure_time := AList.update sid t (stop_departure_time l)\<rparr>
      in case cnt of
           None \<Rightarrow> Inr (None, l1)
         | Some last_departure_idx_count \<Rightarrow>
             bind_err (getitem (virtual_bus_stop_departure_time l1) sid) (\<lambda>vt.
               (let shift = schedule_headway l1 * of_nat last_departure_idx_count;
                    schedule_departure = vt + shift;
                    epsilon_departure = of_int t - schedule_departure
                in Inr (Some epsilon_departure,
                        l1\<lparr>stop_epsilon_departure :=
                             AList.update sid epsilon_departure (stop_epsilon_departure l1)\<rparr>))))"

text \<open>\<open>Holder.__init__\<close> and \<open>Holder.add_bus\<close>.\<close>

definition new_holder :: "virtual_bus \<Rightarrow> bool \<Rightarrow> holder" where
  "new_holder vb sched =
     \<lparr>identifier_bus = [], identifier_time = [], holder_log = new_holder_log vb sched,
      holder_has_schedule = sched\<rparr>"

definition add_bus :: "string \<Rightarrow> bus \<Rightarrow> int \<Rightarrow> holder \<Rightarrow> error + holder" where
  "add_bus sid b t h =
     bind_err (update_location t ''holder'' sid sid 0 holding (set_status holding b)) (\<lambda>b1.
       Inr (h\<lparr>identifier_bus := AList.update (sid, route_id b, bus_id b) b1 (identifier_bus h),
              identifier_time := AList.update (sid, route_id b, bus_id b) None (identifier_time h)\<rparr>))"

text \<open>
  \<open>Holder.set_hold_action\<close>. The holder is mutated key by key, so an exception leaves the
  assignments made before it: the result is the exception raised, if any, and the holder
  after the call.
\<close>

fun set_hold_action :: "(hold_key \<times> real) list \<Rightarrow> holder \<Rightarrow> error option \<times> holder" where
  "set_hold_action [] h = (None, h)"
| "set_hold_action ((k, hold_time) # rest) h =
     (case map_of (identifier_time h) k of
        None \<Rightarrow> (Some KeyError, h)
      | Some cur \<Rightarrow>
          (if cur \<noteq> None then (Some AssertionError, h)
           else set_hold_action rest
                  (h\<lparr>identifier_time := AList.update k (Some hold_time) (identifier_time h)\<rparr>)))"

text \<open>A \<open>for\<close> loop over a list that threads a state and may raise.\<close>

fun fold_err :: "('a \<Rightarrow> 's \<Rightarrow> error + 's) \<Rightarrow> 'a list \<Rightarrow> 's \<Rightarrow> error + 's" where
  "fold_err f [] s = Inr s"
| "fold_err f (x # xs) s = (case f x s of Inl e \<Rightarrow> Inl e | Inr s1 \<Rightarrow> fold_err f xs s1)"

text \<open>
  The body of \<open>if hold_time <= 0\<close> in \<open>Holder.operation\<close> without the two list appends:
  the departure is recorded in the log of the bus and in the log of the holder. With a
  schedule the number of departures already logged for the route at the stop is read
  first (which creates the entry) and passed on.
\<close>

definition holder_release ::
  "bool \<Rightarrow> int \<Rightarrow> hold_key \<Rightarrow> bus \<Rightarrow> holder_log \<Rightarrow> error + (bus \<times> holder_log)" where
  "holder_release sched t key held_bus lg =
     (case key of (sid, r, bid) \<Rightarrow>
       (if sched then
          (let (bus_id_seq, seqs) = dd2_getitem [] (route_stop_departure_bus_id_seq lg) r sid;
               lg1 = lg\<lparr>route_stop_departure_bus_id_seq := seqs\<rparr>;
               departure_idx_count = length bus_id_seq
           in bind_err (record_when_departure sid t (Some departure_idx_count) (bus_log held_bus))
                (\<lambda>(epsilon_departure, l).
                   Inr (held_bus\<lparr>bus_log := l\<rparr>,
                        record_when_bus_departure sid r bid t epsilon_departure lg1)))
        else
          bind_err (record_when_departure sid t None (bus_log held_bus))
            (\<lambda>(epsilon_departure, l).
               if epsilon_departure \<noteq> None then Inl AssertionError
               else Inr (held_bus\<lparr>bus_log := l\<rparr>,
                         record_when_bus_departure sid r bid t None lg))))"

text \<open>
  One iteration of the loop of \<open>Holder.operation\<close> over the items of the hold times. The
  state is the holder, the dictionary of released buses by stop and the keys to remove.
  The bus is one object, so the released list holds it as it is after the last update.
\<close>

definition hold_step ::
  "int \<Rightarrow> hold_key \<times> real option
     \<Rightarrow> holder \<times> (string \<times> bus list) list \<times> hold_key list
     \<Rightarrow> error + (holder \<times> (string \<times> bus list) list \<times> hold_key list)" where
  "hold_step t item st =
     (case (item, st) of ((key, hold_time), (h, stop_held_buses, remove_buses)) \<Rightarrow>
       (case hold_time of
          None \<Rightarrow> Inr st
        | Some ht \<Rightarrow>
            (let ht1 = ht - 1;
                 times = AList.update key (Some ht1) (identifier_time h)
             in bind_err (getitem (identifier_bus h) key) (\<lambda>held_bus.
                bind_err (if ht1 \<le> 0
                          then holder_release (holder_has_schedule h) t key held_bus (holder_log h)
                          else Inr (held_bus, holder_log h)) (\<lambda>(b1, lg1).
                bind_err (update_location t ''holder'' (fst key) (fst key) 0 holding b1) (\<lambda>b2.
                  Inr (h\<lparr>identifier_time := times,
                         identifier_bus := AList.update key b2 (identifier_bus h),
                         holder_log := lg1\<rparr>,
                       (if ht1 \<le> 0
                        then (let (bs, d) = dd_getitem [] stop_held_buses (fst key)
                              in AList.update (fst key) (bs @ [b2]) d)
                        else stop_held_buses),
                       (if ht1 \<le> 0 then remove_buses @ [key] else remove_buses))))))))"

text \<open>\<open>d.pop(k)\<close>, and the removal loop at the end of \<open>Holder.operation\<close>.\<close>

definition pop_item :: "('k \<times> 'v) list \<Rightarrow> 'k \<Rightarrow> error + ('k \<times> 'v) list" where
  "pop_item d k = (case map_of d k of None \<Rightarrow> Inl KeyError | Some v \<Rightarrow> Inr (AList.delete k d))"

definition remove_bus :: "hold_key \<Rightarrow> holder \<Rightarrow> error + holder" where
  "remove_bus k h =
     bind_err (pop_item (identifier_bus h) k) (\<lambda>bs.
     bind_err (pop_item (identifier_time h) k) (\<lambda>ts.
       Inr (h\<lparr>identifier_bus := bs, identifier_time := ts\<rparr>)))"

text \<open>\<open>Holder.operation\<close>: the released buses by stop, and the holder after the tick.\<close>

definition operation :: "int \<Rightarrow> holder \<Rightarrow> error + ((string \<times> bus list) list \<times> holder)" where
  "operation t h =
     bind_err (fold_err (hold_step t) (identifier_time h) (h, [], [])) (\<lambda>(h1, stop_held_buses, remove_buses).
     bind_err (fold_err remove_bus remove_buses h1) (\<lambda>h2.
       Inr (stop_held_buses, h2)))"

text \<open>The buses released at a stop: \<open>stop_held_buses.get(stop_id, [])\<close>.\<close>

definition released_at :: "(string \<times> bus list) list \<Rightarrow> string \<Rightarrow> bus list" where
  "released_at stop_held_buses sid = (case map_of stop_held_buses sid of None \<Rightarrow> [] | Some bs \<Rightarrow> bs)"

text \<open>
  An item of the hold times after the decrement of \<open>Holder.operation\<close>, and whether the
  hold of an item is finished by it (\<open>hold_time - 1.0 <= 0\<close>); an undecided item is neither
  decremented nor finished.
\<close>

definition decremented :: "hold_key \<times> real option \<Rightarrow> hold_key \<times> real option" where
  "decremented item = (fst item, map_option (\<lambda>x. x - 1) (snd item))"

definition hold_finished :: "hold_key \<times> real option \<Rightarrow> bool" where
  "hold_finished item = (case snd item of None \<Rightarrow> False | Some ht \<Rightarrow> ht - 1 \<le> 0)"

text \<open>
  The finished entries of the same route and stop that the loop of \<open>Holder.operation\<close>
  meets before the entry of a key: their departures are logged before its own.
\<close>

definition finished_before ::
  "(hold_key \<times> real option) list \<Rightarrow> hold_key \<Rightarrow> (hold_key \<times> real option) list" where
  "finished_before items key =
     filter (\<lambda>i. hold_finished i \<and> fst (snd (fst i)) = fst (snd key) \<and> fst (fst i) = fst key)
       (takeWhile (\<lambda>i. fst i \<noteq> key) items)"

text \<open>
  A released bus \<open>b'\<close> is the registered bus \<open>b0\<close> after its departure from the stop
  at \<open>t\<close> was recorded in its running log.
\<close>

definition departed :: "int \<Rightarrow> string \<Rightarrow> bus \<Rightarrow> bus \<Rightarrow> bool" where
  "departed t sid b0 b' \<longleftrightarrow>
     bus_id b' = bus_id b0 \<and> route_id b' = route_id b0 \<and> status b' = status b0
     \<and> paxs b' = paxs b0
     \<and> map_of (stop_departure_time (bus_log b')) sid = Some t"

text \<open>Consecutive ticks of the holder with no hold action in between.\<close>

fun operations :: "int list \<Rightarrow> holder \<Rightarrow> error + holder" where
  "operations [] h = Inr h"
| "operations (t # ts) h =
     (case operation t h of Inl e \<Rightarrow> Inl e | Inr (released, h1) \<Rightarrow> operations ts h1)"

section \<open>The link\<close>

text \<open>
  \<open>DistributionLink\<close>. The travel-time distribution exists only when the type is
  \<open>'normal'\<close>; the value drawn from it by \<open>rvs\<close> is an argument of the model.
\<close>

record link =
  link_id :: string
  head_node :: string
  tail_node :: string
  link_length :: real
  link_buses :: "bus list"
  bus_link_loc :: "((string \<times> string) \<times> real) list"
  tt_mean :: real
  tt_cv :: real
  tt_type :: string

text \<open>\<open>sampled_tt = max(10, sampled_tt)\<close>.\<close>

definition clamp_tt :: "real \<Rightarrow> real" where
  "clamp_tt sampled_tt = max 10 sampled_tt"

text \<open>\<open>BusRunningLog.record_when_enter_link\<close>.\<close>

definition record_when_enter_link :: "string \<Rightarrow> real \<Rightarrow> bus_running_log \<Rightarrow> bus_running_log" where
  "record_when_enter_link lid tt_deviation l =
     l\<lparr>link_tt_deviation := AList.update lid tt_deviation (link_tt_deviation l)\<rparr>"

text \<open>
  \<open>DistributionLink.enter_bus\<close>: the bus as it is afterwards and the link holding it.
  Python's float division raises on a zero divisor.
\<close>

definition enter_bus :: "real \<Rightarrow> bus \<Rightarrow> int \<Rightarrow> link \<Rightarrow> error + (bus \<times> link)" where
  "enter_bus sample b t l =
     (if tt_type l \<noteq> ''normal'' then Inl AttributeError
      else
        (let sampled_tt = clamp_tt sample;
             b1 = b\<lparr>bus_log := record_when_enter_link (link_id l) (sampled_tt - tt_mean l) (bus_log b)\<rparr>
         in if sampled_tt = 0 then Inl ZeroDivisionError
            else
              bind_err (update_location t ''link'' (link_id l) (head_node l) 0 running_on_link
                          (b1\<lparr>speed := link_length l / sampled_tt\<rparr>)) (\<lambda>b2.
                (let b3 = set_status running_on_link b2
                 in Inr (b3, l\<lparr>link_buses := link_buses l @ [b3],
                                bus_link_loc := AList.update (route_id b, bus_id b) 0 (bus_link_loc l)\<rparr>)))))"

section \<open>The passenger queue of a stop\<close>

text \<open>\<open>Bus.accumate_board_fraction\<close>, with its two assertions, and \<open>Bus.board\<close>.\<close>

definition accumate_board_fraction :: "bus \<Rightarrow> error + bus" where
  "accumate_board_fraction b =
     (if board_status b \<noteq> boarding then Inl AssertionError
      else case pax_board_rate b of
             None \<Rightarrow> Inl AssertionError
           | Some rate \<Rightarrow>
               (let f = board_fraction b + rate
                in if 1 \<le> f
                   then Inr (b\<lparr>board_fraction := f - 1, board_status := idle,
                                pax_board_rate := None\<rparr>)
                   else Inr (b\<lparr>board_fraction := f\<rparr>)))"

definition bus_board :: "pax \<Rightarrow> int \<Rightarrow> bus \<Rightarrow> bus" where
  "bus_board p t b =
     b\<lparr>board_status := boarding, pax_board_rate := Some (board_rate p),
       paxs := paxs b @ [p\<lparr>board_time := Some t\<rparr>]\<rparr>"

text \<open>\<open>PaxQueue.add_pax\<close>: the group of a passenger is the tuple of their routes.\<close>

definition add_pax :: "pax \<Rightarrow> pax_queue \<Rightarrow> pax_queue" where
  "add_pax p q =
     (let (ps, d) = dd_getitem [] (route_group_paxs q) (routes p)
      in q\<lparr>route_group_paxs := AList.update (routes p) (ps @ [p]) d\<rparr>)"

text \<open>\<open>PaxQueue._get_served_groups\<close>.\<close>

definition get_served_groups :: "pax_queue \<Rightarrow> string \<Rightarrow> string list list" where
  "get_served_groups q bus_route_id =
     filter (\<lambda>route_group. bus_route_id \<in> set route_group) (map fst (route_group_paxs q))"

text \<open>
  \<open>PaxQueue._filter_pax_arrival_after_bus_arrival\<close>. The comprehension looks the arrival
  time of the bus at this stop up once per passenger, so the lookup fails only when there
  is a passenger.
\<close>

definition filter_pax_arrival_after_bus_arrival :: "pax_queue \<Rightarrow> bus \<Rightarrow> pax list \<Rightarrow> error + pax list" where
  "filter_pax_arrival_after_bus_arrival q b ps =
     (if ps = [] then Inr []
      else bind_err (getitem (stop_arrival_time (bus_log b)) (queue_stop_id q)) (\<lambda>bus_arrival.
             Inr (filter (\<lambda>p. arrival_time p < bus_arrival) ps)))"

text \<open>
  The passengers of a group that may board, as \<open>board\<close> and \<open>check_remaining_pax_num\<close>
  both compute them: filtered under \<open>'arrival'\<close>, all of them otherwise.
\<close>

definition board_paxs :: "pax_queue \<Rightarrow> bus \<Rightarrow> pax list \<Rightarrow> error + pax list" where
  "board_paxs q b ps =
     (if queue_board_truncation q = ''arrival''
      then filter_pax_arrival_after_bus_arrival q b ps
      else Inr ps)"

text \<open>
  \<open>PaxQueue.board\<close>. A boarding bus only advances its boarding fraction. An idle bus
  takes the head of the passengers that may board from the first group serving its
  route; \<open>paxs.remove(head_pax)\<close> removes the first passenger equal to the head, which is
  the head itself, no earlier passenger of the queue being equal to it.
\<close>

definition board :: "pax_queue \<Rightarrow> bus \<Rightarrow> int \<Rightarrow> error + (bus \<times> pax_queue)" where
  "board q b t =
     (case board_status b of
        boarding \<Rightarrow> bind_err (accumate_board_fraction b) (\<lambda>b1. Inr (b1, q))
      | idle \<Rightarrow>
          (case get_served_groups q (route_id b) of
             [] \<Rightarrow> Inr (b, q)
           | exclusive_group # others \<Rightarrow>
               (if length exclusive_group \<noteq> 1 then Inl AssertionError
                else
                  (let (ps, groups) = dd_getitem [] (route_group_paxs q) exclusive_group
                   in bind_err (board_paxs q b ps) (\<lambda>eligible.
                        (case eligible of
                           [] \<Rightarrow> Inr (b, q\<lparr>route_group_paxs := groups\<rparr>)
                         | head_pax # rest \<Rightarrow>
                             bind_err (accumate_board_fraction (bus_board head_pax t b)) (\<lambda>b2.
                               Inr (b2, q\<lparr>route_group_paxs :=
                                             AList.update exclusive_group (remove1 head_pax ps)
                                               groups\<rparr>))))))))"

text \<open>\<open>PaxQueue.check_remaining_pax_num\<close>: the loop over the served groups.\<close>

fun remaining_in_groups :: "pax_queue \<Rightarrow> bus \<Rightarrow> string list list \<Rightarrow> nat \<Rightarrow> error + nat" where
  "remaining_in_groups q b [] remaining_pax_num = Inr remaining_pax_num"
| "remaining_in_groups q b (g # gs) remaining_pax_num =
     (case board_paxs q b (fst (dd_getitem [] (route_group_paxs q) g)) of
        Inl e \<Rightarrow> Inl e
      | Inr eligible \<Rightarrow> remaining_in_groups q b gs (remaining_pax_num + length eligible))"

definition check_remaining_pax_num :: "pax_queue \<Rightarrow> bus \<Rightarrow> error + nat" where
  "check_remaining_pax_num q b = remaining_in_groups q b (get_served_groups q (route_id b)) 0"

text \<open>The passengers waiting in a group: \<open>self._route_group_paxs.get(group, [])\<close>.\<close>

definition group_paxs :: "pax_queue \<Rightarrow> string list \<Rightarrow> pax list" where
  "group_paxs q g = (case map_of (route_group_paxs q) g of None \<Rightarrow> [] | Some ps \<Rightarrow> ps)"

section \<open>The terminal: dispatching\<close>





text \<open>
  \<open>Terminal\<close>: its routes, the per-route dispatch counter, the node distances of the
  blueprint, the virtual bus and the hold period.
\<close>

record terminal =
  term_id :: string
  term_routes :: "route_details list"
  route_round_count :: "(string \<times> int) list"
  route_node_distance :: "(string \<times> (string \<times> real) list) list"
  term_virtual_bus :: virtual_bus
  hold_start_time :: real
  hold_end_time :: real












section \<open>Arrival and ready-to-depart events at a stop\<close>

text \<open>
  \<open>BusRunningLog.record_when_arrival\<close> and \<open>record_when_rtd\<close>: the count of earlier events
  is the optional keyword argument, as in \<open>record_when_departure\<close>.
\<close>

definition record_when_arrival ::
  "string \<Rightarrow> int \<Rightarrow> nat option \<Rightarrow> bus_running_log \<Rightarrow> error + (real option \<times> bus_running_log)" where
  "record_when_arrival sid t cnt l =
     (let l1 = l\<lparr>stop_arrival_time := AList.update sid t (stop_arrival_time l)\<rparr>
      in case cnt of
           None \<Rightarrow> Inr (None, l1)
         | Some last_arrival_idx_count \<Rightarrow>
             bind_err (getitem (virtual_bus_stop_arrival_time l1) sid) (\<lambda>virtual_bus_arrival_time.
               (let shift = schedule_headway l1 * of_nat last_arrival_idx_count;
                    schedule_arrival = virtual_bus_arrival_time + shift;
                    epsilon_arrival = of_int t - schedule_arrival
                in Inr (Some epsilon_arrival,
                        l1\<lparr>stop_epsilon_arrival :=
                             AList.update sid epsilon_arrival (stop_epsilon_arrival l1)\<rparr>))))"

definition record_when_rtd ::
  "string \<Rightarrow> int \<Rightarrow> nat option \<Rightarrow> bus_running_log \<Rightarrow> error + (real option \<times> bus_running_log)" where
  "record_when_rtd sid t cnt l =
     (let l1 = l\<lparr>stop_rtd_time := AList.update sid t (stop_rtd_time l),
                  visited_stops := visited_stops l @ [sid]\<rparr>
      in case cnt of
           None \<Rightarrow> Inr (None, l1)
         | Some last_rtd_idx_count \<Rightarrow>
             bind_err (getitem (virtual_bus_stop_rtd_time l1) sid) (\<lambda>virtual_bus_rtd_time.
               (let shift = schedule_headway l1 * of_nat last_rtd_idx_count;
                    schedule_rtd = virtual_bus_rtd_time + shift;
                    epsilon_rtd = of_int t - schedule_rtd
                in Inr (Some epsilon_rtd,
                        l1\<lparr>stop_epsilon_rtd :=
                             AList.update sid epsilon_rtd (stop_epsilon_rtd l1)\<rparr>))))"

text \<open>
  \<open>StopLog.record_when_bus_arrival\<close> and \<open>record_when_bus_rtd\<close>: the sequences are plain
  dicts, the deviations a \<open>defaultdict(dict)\<close>.
\<close>

definition record_when_bus_arrival ::
  "string \<Rightarrow> string \<Rightarrow> int \<Rightarrow> real option \<Rightarrow> stop_log \<Rightarrow> error + stop_log" where
  "record_when_bus_arrival r bid t eps lg =
     bind_err (getitem (route_arrival_time_seq lg) r) (\<lambda>times.
     bind_err (getitem (route_arrival_bus_id_seq lg) r) (\<lambda>ids.
       Inr (lg\<lparr>route_arrival_time_seq := AList.update r (times @ [of_int t]) (route_arrival_time_seq lg),
               route_arrival_bus_id_seq := AList.update r (ids @ [bid]) (route_arrival_bus_id_seq lg),
               route_bus_epsilon_arrival :=
                 (case eps of
                    None \<Rightarrow> route_bus_epsilon_arrival lg
                  | Some e \<Rightarrow> dd2_setitem (route_bus_epsilon_arrival lg) r bid e)\<rparr>)))"

definition record_when_bus_rtd ::
  "string \<Rightarrow> string \<Rightarrow> int \<Rightarrow> real option \<Rightarrow> stop_log \<Rightarrow> error + stop_log" where
  "record_when_bus_rtd r bid t eps lg =
     bind_err (getitem (route_rtd_time_seq lg) r) (\<lambda>times.
     bind_err (getitem (route_rtd_bus_id_seq lg) r) (\<lambda>ids.
       Inr (lg\<lparr>route_rtd_time_seq := AList.update r (times @ [of_int t]) (route_rtd_time_seq lg),
               route_rtd_bus_id_seq := AList.update r (ids @ [bid]) (route_rtd_bus_id_seq lg),
               route_bus_epsilon_rtd :=
                 (case eps of
                    None \<Rightarrow> route_bus_epsilon_rtd lg
                  | Some e \<Rightarrow> dd2_setitem (route_bus_epsilon_rtd lg) r bid e)\<rparr>)))"

text \<open>\<open>Stop.enter_stop\<close>.\<close>

definition enter_stop :: "bus \<Rightarrow> int \<Rightarrow> stop \<Rightarrow> error + stop" where
  "enter_stop b t s =
     bind_err
       (if has_schedule s then
          bind_err (getitem (route_arrival_time_seq (stop_log s)) (route_id b)) (\<lambda>seq.
            (let arrival_idx_count = length seq
             in bind_err (record_when_arrival (stop_id s) t (Some arrival_idx_count) (bus_log b))
                  (\<lambda>(epsilon_arrival, l).
                     bind_err (record_when_bus_arrival (route_id b) (bus_id b) t epsilon_arrival
                                 (stop_log s)) (\<lambda>lg. Inr (b\<lparr>bus_log := l\<rparr>, lg)))))
        else
          bind_err (record_when_arrival (stop_id s) t None (bus_log b))
            (\<lambda>(epsilon_arrival, l).
               if epsilon_arrival \<noteq> None then Inl AssertionError
               else bind_err (record_when_bus_arrival (route_id b) (bus_id b) t None (stop_log s))
                      (\<lambda>lg. Inr (b\<lparr>bus_log := l\<rparr>, lg))))
       (\<lambda>(b1, lg). Inr (s\<lparr>stop_log := lg,
                            entry_queue := entry_queue s @ [set_status queueing_at_stop b1]\<rparr>))"

text \<open>The body of the loop of \<open>Stop_Board._leave\<close> for one bus of the leave queue.\<close>

definition leave_bus :: "int \<Rightarrow> bus \<Rightarrow> stop \<Rightarrow> error + (bus \<times> stop_log)" where
  "leave_bus t b s =
     (if has_schedule s then
        bind_err (getitem (route_rtd_bus_id_seq (stop_log s)) (route_id b)) (\<lambda>seq.
          (let rtd_idx_count = length seq
           in bind_err (record_when_rtd (stop_id s) t (Some rtd_idx_count) (bus_log b))
                (\<lambda>(epsilon_rtd, l).
                   bind_err (record_when_bus_rtd (route_id b) (bus_id b) t epsilon_rtd (stop_log s))
                     (\<lambda>lg. Inr (b\<lparr>bus_log := l\<rparr>, lg)))))
      else
        bind_err (record_when_rtd (stop_id s) t None (bus_log b))
          (\<lambda>(epsilon_rtd, l).
             if epsilon_rtd \<noteq> None then Inl AssertionError
             else bind_err (record_when_bus_rtd (route_id b) (bus_id b) t None (stop_log s))
                    (\<lambda>lg. Inr (b\<lparr>bus_log := l\<rparr>, lg))))"

text \<open>
  \<open>Stop_Board._leave\<close>. The loop removes from the list it iterates over, so the iterator
  index \<open>i\<close> advances over a list that shrinks: the bus at position \<open>i\<close> is handled and
  removed, and the bus that slides into its place is skipped until the next tick.
\<close>

function leave_loop :: "int \<Rightarrow> nat \<Rightarrow> stop \<Rightarrow> bus list \<Rightarrow> error + (bus list \<times> stop)" where
  "leave_loop t i s leaving_buses =
     (if i < length (leave_queue s) then
        (case leave_bus t (leave_queue s ! i) s of
           Inl e \<Rightarrow> Inl e
         | Inr (b1, lg) \<Rightarrow>
             leave_loop t (Suc i)
               (s\<lparr>stop_log := lg, leave_queue := remove1 (leave_queue s ! i) (leave_queue s)\<rparr>)
               (leaving_buses @ [b1]))
      else Inr (leaving_buses, s))"
  by pat_completeness auto
termination
proof (relation "measure (\<lambda>(t, i, s, out). length (leave_queue s) - i)")
  show "wf (measure (\<lambda>(t, i, s, out). length (leave_queue s) - i))" by simp
next
  fix t :: int and i :: nat and s :: stop and leaving_buses :: "bus list"
    and x2 :: "bus \<times> stop_log" and x1 :: bus and x2a :: stop_log
  assume "i < length (leave_queue s)"
  then have "leave_queue s ! i \<in> set (leave_queue s)" by simp
  then have "length (remove1 (leave_queue s ! i) (leave_queue s)) = length (leave_queue s) - 1"
    by (simp add: length_remove1)
  with \<open>i < length (leave_queue s)\<close>
  show "((t, Suc i, s\<lparr>stop_log := x2a,
                       leave_queue := remove1 (leave_queue s ! i) (leave_queue s)\<rparr>,
          leaving_buses @ [x1]), t, i, s, leaving_buses)
        \<in> measure (\<lambda>(t, i, s, out). length (leave_queue s) - i)"
    by simp
qed

declare leave_loop.simps [simp del]

definition leave :: "int \<Rightarrow> stop \<Rightarrow> error + (bus list \<times> stop)" where
  "leave t s = leave_loop t 0 s []"

text \<open>Reading a dictionary of dictionaries without creating entries: \<open>d.get(r, {})\<close>.\<close>

definition dd_lookup :: "('r \<times> ('s \<times> 'v) list) list \<Rightarrow> 'r \<Rightarrow> ('s \<times> 'v) list" where
  "dd_lookup d r = (case map_of d r of None \<Rightarrow> [] | Some m \<Rightarrow> m)"

section \<open>The departure of a dispatched bus from its terminal\<close>

text \<open>
  What \<open>Mediator.transfer\<close> reads and changes when the spot is a terminal: the map of
  the blueprint from the nodes of a route to its links, the links and the holder.
\<close>

record mediator =
  route_node_to_link :: "(string \<times> (string \<times> string) list) list"
  links :: "(string \<times> link) list"
  med_holder :: holder

text \<open>\<open>Blueprint.get_next_link_id\<close>.\<close>

definition get_next_link_id :: "mediator \<Rightarrow> string \<Rightarrow> string \<Rightarrow> error + string" where
  "get_next_link_id m r curr_node_id =
     bind_err (getitem (route_node_to_link m) r) (\<lambda>node_to_link. getitem node_to_link curr_node_id)"

text \<open>
  One iteration of the loop of \<open>Mediator.transfer\<close> with the spot type \<open>'terminal'\<close>: the
  bus enters the next link, with the travel time that the link samples for it, and
  its departure is recorded in the holder log, with the deviation \<open>0\<close> when there is a
  schedule.
\<close>

definition transfer_terminal_bus ::
  "string \<Rightarrow> int \<Rightarrow> real \<times> bus \<Rightarrow> mediator \<Rightarrow> error + mediator" where
  "transfer_terminal_bus spot t sb m =
     (case sb of (sample, b) \<Rightarrow>
        bind_err (get_next_link_id m (route_id b) spot) (\<lambda>next_link_id.
        bind_err (getitem (links m) next_link_id) (\<lambda>l.
        bind_err (enter_bus sample b t l) (\<lambda>(b1, l1).
          Inr (m\<lparr>links := AList.update next_link_id l1 (links m),
                 med_holder := (med_holder m)
                   \<lparr>holder_log :=
                      record_when_bus_departure spot (route_id b) (bus_id b) t
                        (if holder_has_schedule (med_holder m) then Some 0 else None)
                        (holder_log (med_holder m))\<rparr>\<rparr>)))))"

definition transfer_terminal ::
  "(real \<times> bus) list \<Rightarrow> string \<Rightarrow> int \<Rightarrow> mediator \<Rightarrow> error + mediator" where
  "transfer_terminal buses spot t m = fold_err (transfer_terminal_bus spot t) buses m"

text \<open>The holder log of the mediator after a transfer, when it returns.\<close>

definition holder_log_after :: "error + mediator \<Rightarrow> holder_log option" where
  "holder_log_after res = (case res of Inl e \<Rightarrow> None | Inr m \<Rightarrow> Some (holder_log (med_holder m)))"

text \<open>
  The deviation as the specification words it: the time of the event minus the
  reference time of the virtual bus shifted by the headway times the count of earlier
  events.
\<close>

definition spec_epsilon :: "int \<Rightarrow> real \<Rightarrow> real \<Rightarrow> nat \<Rightarrow> real" where
  "spec_epsilon t virtual_time headway event_count =
     of_int t - (virtual_time + headway * of_nat event_count)"

section \<open>A scenario: route B21 of the Guangzhou corridor\<close>

text \<open>
  Concrete values for evaluating the model: route \<open>B21\<close>, whose schedule headway in
  the repository's data is 218.2 seconds, two stops between two terminals, and buses as
  \<open>Bus.__init__\<close> builds them.
\<close>

definition demo_node_distance :: "(string \<times> real) list" where
  "demo_node_distance = [(''T0'', 0), (''s1'', 1000), (''s2'', 2000), (''T1'', 3000)]"

definition demo_bus :: "string \<Rightarrow> bus" where
  "demo_bus bid =
     \<lparr>bus_id = bid, route_id = ''B21'', capacity = 100000000,
      node_distance = demo_node_distance, status = running_on_link,
      board_status = idle, alight_status = alight_idle, paxs = [],
      board_fraction = 0, pax_board_rate = None, alight_fraction = 0,
      pax_alight_rate = None, trajectory = [], is_need_to_hold = True,
      hold_stops = [''s1'', ''s2''],
      bus_log = new_bus_running_log (1091 / 5)
        [(''T0'', 0), (''s1'', 50), (''s2'', 120)]
        [(''T0'', 0), (''s1'', 60), (''s2'', 130)]
        [(''T0'', 0), (''s1'', 70), (''s2'', 140)],
      speed = 0, loc_relative_to_terminal = 0\<rparr>"

definition demo_virtual_bus :: virtual_bus where
  "demo_virtual_bus =
     \<lparr>route_stop_arrival_time = [(''B21'', [(''T0'', 0), (''s1'', 50), (''s2'', 120)])],
      route_stop_rtd_time = [(''B21'', [(''T0'', 0), (''s1'', 60), (''s2'', 130)])],
      route_stop_departure_time = [(''B21'', [(''T0'', 0), (''s1'', 70), (''s2'', 140)])]\<rparr>"

definition demo_stop :: "string \<Rightarrow> bus option list \<Rightarrow> stop" where
  "demo_stop rule berths =
     (new_stop_board ''s1'' (length berths) rule ''rtd'' demo_virtual_bus True)
       \<lparr>buses_in_berth := berths\<rparr>"

text \<open>
  A holder with three buses registered at two stops: the hold of the first ends at the
  next tick, the second is undecided, the third has two and a half seconds left.
\<close>

definition demo_holder :: holder where
  "demo_holder =
     \<lparr>identifier_bus =
        [((''s1'', ''B21'', ''1''), set_status holding (demo_bus ''1'')),
         ((''s1'', ''B21'', ''2''), set_status holding (demo_bus ''2'')),
         ((''s2'', ''B21'', ''3''), set_status holding (demo_bus ''3''))],
      identifier_time =
        [((''s1'', ''B21'', ''1''), Some 1),
         ((''s1'', ''B21'', ''2''), None),
         ((''s2'', ''B21'', ''3''), Some (5 / 2))],
      holder_log = new_holder_log demo_virtual_bus True,
      holder_has_schedule = True\<rparr>"

text \<open>The first link of the route: 1000 metres, mean travel time 50 seconds.\<close>

definition demo_link :: link where
  "demo_link =
     \<lparr>link_id = ''T0-s1'', head_node = ''T0'', tail_node = ''s1'', link_length = 1000,
      link_buses = [], bus_link_loc = [], tt_mean = 50, tt_cv = 1 / 10, tt_type = ''normal''\<rparr>"

text \<open>
  Three passengers for route \<open>B21\<close> wait at stop \<open>s1\<close>; they arrived at 90, 100 and 95,
  and the bus arrived at 100.
\<close>

definition demo_pax :: "string \<Rightarrow> int \<Rightarrow> pax" where
  "demo_pax pid t =
     \<lparr>pax_id = pid, origin = ''s1'', destination = ''s2'', routes = [''B21''],
      arrival_time = t, board_rate = 1 / 2, alight_rate = None, board_time = None,
      alight_time = None, out_vehicle_delay = 0, in_vehicle_delay = 0\<rparr>"

definition demo_queue :: "string \<Rightarrow> pax_queue" where
  "demo_queue trunc =
     \<lparr>route_group_paxs =
        [([''B21''], [demo_pax ''a'' 100, demo_pax ''b'' 90, demo_pax ''c'' 95])],
      queue_stop_id = ''s1'', queue_board_truncation = trunc\<rparr>"

definition demo_arrived_bus :: bus where
  "demo_arrived_bus =
     (demo_bus ''1'')\<lparr>bus_log := (bus_log (demo_bus ''1''))\<lparr>stop_arrival_time := [(''s1'', 100)]\<rparr>,
                      status := dwelling_at_stop\<rparr>"

text \<open>
  The mediator at the start of an episode: the first link of the route and a holder
  that holds no bus yet.
\<close>

definition demo_mediator :: mediator where
  "demo_mediator =
     \<lparr>route_node_to_link = [(''B21'', [(''T0'', ''T0-s1''), (''s1'', ''s1-s2''), (''s2'', ''s2-T1'')])],
      links = [(''T0-s1'', demo_link)],
      med_holder = new_holder demo_virtual_bus True\<rparr>"


section \<open>Scenario facts\<close>

lemma demo_stop_simps:
  "buses_in_berth (demo_stop rule berths) = berths"
  "berth_num (demo_stop rule berths) = length berths"
  "queue_rule (demo_stop rule berths) = rule"
  "entry_queue (demo_stop rule berths) = []"
  "stop_id (demo_stop rule berths) = ''s1''"
  by (simp_all add: demo_stop_def new_stop_board_def)

section \<open>Egress rule\<close>

lemma check_out_scan_clear:
  assumes "\<forall>j \<in> set bs. j < length berths \<and> berths ! j = None"
  shows "check_out_scan berths n bs c = Inr (c \<or> (n - 1 \<in> set bs \<and> 0 < n))"
  using assms
proof (induction bs arbitrary: c)
  case Nil
  then show ?case by simp
next
  case (Cons b bs)
  then show ?case by (cases n) auto
qed

lemma check_out_scan_blocked:
  assumes "j \<in> set bs" "j < length berths" "berths ! j \<noteq> None"
    and "sorted bs" "distinct bs" "\<forall>k \<in> set bs. k < n" "n \<le> length berths"
  shows "check_out_scan berths n bs False = Inr False"
  using assms
proof (induction bs)
  case Nil
  then show ?case by simp
next
  case (Cons b bs)
  show ?case
  proof (cases "berths ! b = None")
    case False
    with Cons.prems show ?thesis by simp
  next
    case True
    with Cons.prems have jin: "j \<in> set bs" by auto
    with Cons.prems have "b < j" by (auto simp: le_less)
    with Cons.prems have "int b \<noteq> int n - 1" by auto
    moreover have "check_out_scan berths n bs False = Inr False"
      using Cons.IH [OF jin] Cons.prems by simp
    ultimately show ?thesis using True Cons.prems by simp
  qed
qed

text \<open>
  C5. Under FIFO the egress check of a berth index \<open>i\<close> of the stop answers true exactly
  when every berth downstream of \<open>i\<close> (at a greater index) is empty; under FO it
  answers true for every berth.
\<close>

theorem queue_rule_check_out_spec:
  assumes "length (buses_in_berth s) = berth_num s" and "i < berth_num s"
  shows "(queue_rule s = ''FIFO'' \<longrightarrow>
            queue_rule_check_out s i =
              Inr (\<forall>j. i < j \<and> j < berth_num s \<longrightarrow> buses_in_berth s ! j = None))
       \<and> (queue_rule s = ''FO'' \<longrightarrow> queue_rule_check_out s i = Inr True)"
proof (intro conjI impI)
  assume fifo: "queue_rule s = ''FIFO''"
  let ?all = "\<forall>j. i < j \<and> j < berth_num s \<longrightarrow> buses_in_berth s ! j = None"
  show "queue_rule_check_out s i = Inr ?all"
  proof (cases "int i = int (berth_num s) - 1")
    case True
    then have "?all" by auto
    with True fifo show ?thesis by (simp add: queue_rule_check_out_def)
  next
    case False
    with assms have lt: "i + 1 < berth_num s" by linarith
    have unfold: "queue_rule_check_out s i =
        check_out_scan (buses_in_berth s) (berth_num s) [i + 1 ..< berth_num s] False"
      using False fifo by (simp add: queue_rule_check_out_def)
    show ?thesis
    proof (cases ?all)
      case True
      then have "\<forall>j \<in> set [i + 1 ..< berth_num s].
          j < length (buses_in_berth s) \<and> buses_in_berth s ! j = None"
        using assms by auto
      from check_out_scan_clear [OF this, of "berth_num s" False] lt True unfold
      show ?thesis by auto
    next
      case False
      then obtain j where j: "i < j" "j < berth_num s" "buses_in_berth s ! j \<noteq> None"
        by blast
      have "check_out_scan (buses_in_berth s) (berth_num s) [i + 1 ..< berth_num s] False
          = Inr False"
        by (rule check_out_scan_blocked [where j = j]) (use j assms in auto)
      with False unfold show ?thesis by simp
    qed
  qed
next
  assume "queue_rule s = ''FO''"
  then show "queue_rule_check_out s i = Inr True"
    by (simp add: queue_rule_check_out_def)
qed

theorem queue_rule_check_out_spec_witness:
  "length (buses_in_berth (demo_stop ''FIFO'' [Some (demo_bus ''1''), None, Some (demo_bus ''2'')])) =
     berth_num (demo_stop ''FIFO'' [Some (demo_bus ''1''), None, Some (demo_bus ''2'')])
   \<and> 2 < berth_num (demo_stop ''FIFO'' [Some (demo_bus ''1''), None, Some (demo_bus ''2'')])
   \<and> queue_rule_check_out
        (demo_stop ''FIFO'' [Some (demo_bus ''1''), None, Some (demo_bus ''2'')]) 0 = Inr False
   \<and> queue_rule_check_out
        (demo_stop ''FIFO'' [Some (demo_bus ''1''), None, Some (demo_bus ''2'')]) 2 = Inr True
   \<and> queue_rule_check_out
        (demo_stop ''FO'' [Some (demo_bus ''1''), None, Some (demo_bus ''2'')]) 0 = Inr True"
proof -
  let ?s = "demo_stop ''FIFO'' [Some (demo_bus ''1''), None, Some (demo_bus ''2'')]"
  let ?f = "demo_stop ''FO'' [Some (demo_bus ''1''), None, Some (demo_bus ''2'')]"
  have len: "length (buses_in_berth ?s) = berth_num ?s"
    and lenf: "length (buses_in_berth ?f) = berth_num ?f"
    and i0: "0 < berth_num ?s" and i2: "2 < berth_num ?s" and f0: "0 < berth_num ?f"
    and fifo: "queue_rule ?s = ''FIFO''" and fo: "queue_rule ?f = ''FO''"
    by (simp_all add: demo_stop_simps)
  have blocked: "\<not> (\<forall>j. 0 < j \<and> j < berth_num ?s \<longrightarrow> buses_in_berth ?s ! j = None)"
    by (auto simp: demo_stop_simps intro!: exI [of _ 2])
  have clear: "\<forall>j. 2 < j \<and> j < berth_num ?s \<longrightarrow> buses_in_berth ?s ! j = None"
    by (simp add: demo_stop_simps)
  from queue_rule_check_out_spec [OF len i0, THEN conjunct1, rule_format, OF fifo] blocked
  have r0: "queue_rule_check_out ?s 0 = Inr False" by simp
  from queue_rule_check_out_spec [OF len i2, THEN conjunct1, rule_format, OF fifo] clear
  have r2: "queue_rule_check_out ?s 2 = Inr True" by simp
  from queue_rule_check_out_spec [OF lenf f0, THEN conjunct2, rule_format, OF fo]
  have rf: "queue_rule_check_out ?f 0 = Inr True" .
  from len i2 r0 r2 rf show ?thesis by blast
qed

section \<open>Admission rule\<close>

lemma check_in_scan_takeWhile:
  "check_in_scan berths bs tgt =
     (let xs = takeWhile (\<lambda>b. berths ! b = None) bs
      in if xs = [] then tgt else Some (last xs))"
  by (induction bs arbitrary: tgt) (auto simp: Let_def)

lemma takeWhile_upt_eq:
  "takeWhile P [0..<n] = [0..<length (takeWhile P [0..<n])]"
proof -
  let ?k = "length (takeWhile P [0..<n])"
  have "takeWhile P [0..<n] = take ?k [0..<n]" by (rule takeWhile_eq_take)
  moreover have "?k \<le> n" using length_takeWhile_le [of P "[0..<n]"] by simp
  ultimately show ?thesis by (simp add: take_upt)
qed

lemma fifo_scan:
  fixes berths :: "bus option list"
  defines "k \<equiv> length (takeWhile (\<lambda>b. berths ! b = None) [0..<length berths])"
  shows "check_in_scan berths [0..<length berths] None = (if k = 0 then None else Some (k - 1))"
    and "k \<le> length berths"
    and "\<forall>j<k. berths ! j = None"
    and "k < length berths \<longrightarrow> berths ! k \<noteq> None"
proof -
  let ?P = "\<lambda>b. berths ! b = None"
  let ?n = "length berths"
  have eq: "takeWhile ?P [0..<?n] = [0..<k]" unfolding k_def by (rule takeWhile_upt_eq)
  show "k \<le> ?n" unfolding k_def using length_takeWhile_le [of ?P "[0..<?n]"] by simp
  show "check_in_scan berths [0..<?n] None = (if k = 0 then None else Some (k - 1))"
    by (cases k) (simp_all add: check_in_scan_takeWhile eq Let_def)
  show "\<forall>j<k. berths ! j = None"
  proof (intro allI impI)
    fix j assume "j < k"
    then have "j \<in> set (takeWhile ?P [0..<?n])" by (simp add: eq)
    then show "berths ! j = None" by (rule set_takeWhileD [THEN conjunct2])
  qed
  show "k < ?n \<longrightarrow> berths ! k \<noteq> None"
  proof
    assume "k < ?n"
    then have "length (takeWhile ?P [0..<?n]) < length [0..<?n]" by (simp add: k_def)
    from nth_length_takeWhile [OF this] \<open>k < ?n\<close> show "berths ! k \<noteq> None"
      by (simp add: k_def [symmetric])
  qed
qed

lemma takeWhile_rev_upt_eq:
  "takeWhile P (rev [0..<n]) = rev [n - length (takeWhile P (rev [0..<n])) ..< n]"
proof -
  let ?k = "length (takeWhile P (rev [0..<n]))"
  have "takeWhile P (rev [0..<n]) = take ?k (rev [0..<n])" by (rule takeWhile_eq_take)
  moreover have "?k \<le> n" using length_takeWhile_le [of P "rev [0..<n]"] by simp
  ultimately show ?thesis by (simp add: take_rev drop_upt)
qed

lemma fo_scan:
  fixes berths :: "bus option list"
  defines "k \<equiv> length (takeWhile (\<lambda>b. berths ! b = None) (rev [0..<length berths]))"
  shows "check_in_scan berths (rev [0..<length berths]) None
           = (if k = 0 then None else Some (length berths - k))"
    and "k \<le> length berths"
    and "\<forall>j. length berths - k \<le> j \<and> j < length berths \<longrightarrow> berths ! j = None"
    and "k < length berths \<longrightarrow> berths ! (length berths - k - 1) \<noteq> None"
proof -
  let ?P = "\<lambda>b. berths ! b = None"
  let ?n = "length berths"
  have eq: "takeWhile ?P (rev [0..<?n]) = rev [?n - k..<?n]"
    unfolding k_def by (rule takeWhile_rev_upt_eq)
  show kn: "k \<le> ?n" unfolding k_def using length_takeWhile_le [of ?P "rev [0..<?n]"] by simp
  show "check_in_scan berths (rev [0..<?n]) None = (if k = 0 then None else Some (?n - k))"
  proof (cases "k = 0")
    case True
    then show ?thesis by (simp add: check_in_scan_takeWhile eq Let_def)
  next
    case False
    with kn have "[?n - k..<?n] = (?n - k) # [Suc (?n - k)..<?n]"
      by (simp add: upt_conv_Cons)
    with False kn show ?thesis
      by (simp add: check_in_scan_takeWhile eq Let_def)
  qed
  show "\<forall>j. ?n - k \<le> j \<and> j < ?n \<longrightarrow> berths ! j = None"
  proof (intro allI impI)
    fix j assume "?n - k \<le> j \<and> j < ?n"
    then have "j \<in> set (takeWhile ?P (rev [0..<?n]))" by (simp add: eq)
    then show "berths ! j = None" by (rule set_takeWhileD [THEN conjunct2])
  qed
  show "k < ?n \<longrightarrow> berths ! (?n - k - 1) \<noteq> None"
  proof
    assume lt: "k < ?n"
    then have "length (takeWhile ?P (rev [0..<?n])) < length (rev [0..<?n])"
      by (simp add: k_def)
    from nth_length_takeWhile [OF this] lt show "berths ! (?n - k - 1) \<noteq> None"
      by (simp add: k_def [symmetric] rev_nth)
  qed
qed

lemma fifo_check_in_Some:
  "check_in_scan berths [0..<length berths] None = Some b \<longleftrightarrow>
     b < length berths \<and> (\<forall>j\<le>b. berths ! j = None)
     \<and> (Suc b = length berths \<or> berths ! Suc b \<noteq> None)"
proof -
  define k where "k = length (takeWhile (\<lambda>b. berths ! b = None) [0..<length berths])"
  note f = fifo_scan [of berths, folded k_def]
  show ?thesis
  proof
    assume "check_in_scan berths [0..<length berths] None = Some b"
    with f(1) have k: "k \<noteq> 0" "b = k - 1" by (auto split: if_splits)
    then have "Suc b = k" by simp
    have "b < length berths" using \<open>Suc b = k\<close> f(2) by linarith
    moreover have "\<forall>j\<le>b. berths ! j = None" using \<open>Suc b = k\<close> f(3) by auto
    moreover have "Suc b = length berths \<or> berths ! Suc b \<noteq> None"
      using \<open>Suc b = k\<close> f(2,4) by (cases "k < length berths") auto
    ultimately show "b < length berths \<and> (\<forall>j\<le>b. berths ! j = None)
        \<and> (Suc b = length berths \<or> berths ! Suc b \<noteq> None)" by blast
  next
    assume a: "b < length berths \<and> (\<forall>j\<le>b. berths ! j = None)
        \<and> (Suc b = length berths \<or> berths ! Suc b \<noteq> None)"
    have "\<not> k \<le> b"
    proof
      assume "k \<le> b"
      with a have "k < length berths" "berths ! k = None" by auto
      with f(4) show False by simp
    qed
    moreover have "\<not> Suc b < k"
    proof
      assume "Suc b < k"
      with f(2,3) have "berths ! Suc b = None" "Suc b \<noteq> length berths" by auto
      with a show False by simp
    qed
    ultimately have "k = Suc b" by linarith
    with f(1) show "check_in_scan berths [0..<length berths] None = Some b" by simp
  qed
qed

lemma fifo_check_in_None:
  "check_in_scan berths [0..<length berths] None = None \<longleftrightarrow>
     length berths = 0 \<or> berths ! 0 \<noteq> None"
proof -
  define k where "k = length (takeWhile (\<lambda>b. berths ! b = None) [0..<length berths])"
  note f = fifo_scan [of berths, folded k_def]
  have "check_in_scan berths [0..<length berths] None = None \<longleftrightarrow> k = 0"
    using f(1) by simp
  also have "\<dots> \<longleftrightarrow> length berths = 0 \<or> berths ! 0 \<noteq> None"
  proof
    assume "k = 0"
    with f(4) show "length berths = 0 \<or> berths ! 0 \<noteq> None"
      by (cases "length berths = 0") auto
  next
    assume a: "length berths = 0 \<or> berths ! 0 \<noteq> None"
    show "k = 0"
    proof (rule ccontr)
      assume "k \<noteq> 0"
      with f(2,3) have "length berths \<noteq> 0" "berths ! 0 = None" by auto
      with a show False by simp
    qed
  qed
  finally show ?thesis .
qed

lemma fo_check_in_Some:
  "check_in_scan berths (rev [0..<length berths]) None = Some b \<longleftrightarrow>
     b < length berths \<and> (\<forall>j. b \<le> j \<and> j < length berths \<longrightarrow> berths ! j = None)
     \<and> (b = 0 \<or> berths ! (b - 1) \<noteq> None)"
proof -
  define k where "k = length (takeWhile (\<lambda>b. berths ! b = None) (rev [0..<length berths]))"
  note f = fo_scan [of berths, folded k_def]
  let ?n = "length berths"
  show ?thesis
  proof
    assume "check_in_scan berths (rev [0..<?n]) None = Some b"
    with f(1) have k: "k \<noteq> 0" "b = ?n - k" by (auto split: if_splits)
    have "b < ?n" using k f(2) by linarith
    moreover have "\<forall>j. b \<le> j \<and> j < ?n \<longrightarrow> berths ! j = None"
      using f(3) unfolding k(2) .
    moreover have "b = 0 \<or> berths ! (b - 1) \<noteq> None"
    proof (cases "b = 0")
      case False
      with k f(2) have "k < ?n" by linarith
      with f(4) k show ?thesis by simp
    qed simp
    ultimately show "b < ?n \<and> (\<forall>j. b \<le> j \<and> j < ?n \<longrightarrow> berths ! j = None)
        \<and> (b = 0 \<or> berths ! (b - 1) \<noteq> None)" by blast
  next
    assume a: "b < ?n \<and> (\<forall>j. b \<le> j \<and> j < ?n \<longrightarrow> berths ! j = None)
        \<and> (b = 0 \<or> berths ! (b - 1) \<noteq> None)"
    have "\<not> ?n - k < b"
    proof
      assume lt: "?n - k < b"
      then have bb: "?n - k \<le> b - 1 \<and> b - 1 < ?n" "b \<noteq> 0" using a by linarith+
      from f(3) [rule_format, OF bb(1)] have "berths ! (b - 1) = None" .
      with a \<open>b \<noteq> 0\<close> show False by simp
    qed
    moreover have "\<not> b < ?n - k"
    proof
      assume lt: "b < ?n - k"
      then have "k < ?n" by linarith
      with f(4) have "berths ! (?n - k - 1) \<noteq> None" by simp
      moreover have "b \<le> ?n - k - 1 \<and> ?n - k - 1 < ?n" using lt by linarith
      moreover note a [THEN conjunct2, THEN conjunct1, rule_format, of "?n - k - 1"]
      ultimately show False by simp
    qed
    ultimately have "b = ?n - k" by linarith
    moreover have "k \<noteq> 0" using \<open>b = ?n - k\<close> a by linarith
    ultimately show "check_in_scan berths (rev [0..<?n]) None = Some b" using f(1) by simp
  qed
qed

lemma fo_check_in_None:
  "check_in_scan berths (rev [0..<length berths]) None = None \<longleftrightarrow>
     length berths = 0 \<or> berths ! (length berths - 1) \<noteq> None"
proof -
  define k where "k = length (takeWhile (\<lambda>b. berths ! b = None) (rev [0..<length berths]))"
  note f = fo_scan [of berths, folded k_def]
  let ?n = "length berths"
  have "check_in_scan berths (rev [0..<?n]) None = None \<longleftrightarrow> k = 0"
    using f(1) by simp
  also have "\<dots> \<longleftrightarrow> ?n = 0 \<or> berths ! (?n - 1) \<noteq> None"
  proof
    assume "k = 0"
    with f(4) show "?n = 0 \<or> berths ! (?n - 1) \<noteq> None" by (cases "?n = 0") auto
  next
    assume a: "?n = 0 \<or> berths ! (?n - 1) \<noteq> None"
    show "k = 0"
    proof (rule ccontr)
      assume "k \<noteq> 0"
      with f(2) have n: "?n \<noteq> 0" "?n - k \<le> ?n - 1 \<and> ?n - 1 < ?n" by linarith+
      from f(3) [rule_format, OF n(2)] have "berths ! (?n - 1) = None" .
      with a n(1) show False by simp
    qed
  qed
  finally show ?thesis .
qed

text \<open>
  C4 (as amended). Under FO the scan runs from the last berth backward, stops at the first
  occupied berth and admits into the last free berth it met: the most-upstream berth of
  the run of free berths at the downstream end, and no berth when the last berth is
  occupied. Under FIFO the scan runs from the first berth forward and admits into the
  most-downstream berth of the run of free berths at the upstream end, and no berth when
  the first berth is occupied. A stop without berths admits nowhere.
\<close>

theorem queue_rule_check_in_spec:
  "(queue_rule s = ''FO'' \<longrightarrow>
      (queue_rule_check_in s = Some b \<longleftrightarrow>
         b < length (buses_in_berth s)
         \<and> (\<forall>j. b \<le> j \<and> j < length (buses_in_berth s) \<longrightarrow> buses_in_berth s ! j = None)
         \<and> (b = 0 \<or> buses_in_berth s ! (b - 1) \<noteq> None))
    \<and> (queue_rule_check_in s = None \<longleftrightarrow>
         length (buses_in_berth s) = 0
         \<or> buses_in_berth s ! (length (buses_in_berth s) - 1) \<noteq> None))
 \<and> (queue_rule s = ''FIFO'' \<longrightarrow>
      (queue_rule_check_in s = Some b \<longleftrightarrow>
         b < length (buses_in_berth s)
         \<and> (\<forall>j\<le>b. buses_in_berth s ! j = None)
         \<and> (Suc b = length (buses_in_berth s) \<or> buses_in_berth s ! Suc b \<noteq> None))
    \<and> (queue_rule_check_in s = None \<longleftrightarrow>
         length (buses_in_berth s) = 0 \<or> buses_in_berth s ! 0 \<noteq> None))"
proof (intro conjI impI)
  assume fo: "queue_rule s = ''FO''"
  then have eq: "queue_rule_check_in s =
      check_in_scan (buses_in_berth s) (rev [0..<length (buses_in_berth s)]) None"
    by (simp add: queue_rule_check_in_def)
  show "queue_rule_check_in s = Some b \<longleftrightarrow>
         b < length (buses_in_berth s)
         \<and> (\<forall>j. b \<le> j \<and> j < length (buses_in_berth s) \<longrightarrow> buses_in_berth s ! j = None)
         \<and> (b = 0 \<or> buses_in_berth s ! (b - 1) \<noteq> None)"
    unfolding eq by (rule fo_check_in_Some)
  show "queue_rule_check_in s = None \<longleftrightarrow>
         length (buses_in_berth s) = 0
         \<or> buses_in_berth s ! (length (buses_in_berth s) - 1) \<noteq> None"
    unfolding eq by (rule fo_check_in_None)
next
  assume fifo: "queue_rule s = ''FIFO''"
  then have eq: "queue_rule_check_in s =
      check_in_scan (buses_in_berth s) [0..<length (buses_in_berth s)] None"
    by (simp add: queue_rule_check_in_def)
  show "queue_rule_check_in s = Some b \<longleftrightarrow>
         b < length (buses_in_berth s)
         \<and> (\<forall>j\<le>b. buses_in_berth s ! j = None)
         \<and> (Suc b = length (buses_in_berth s) \<or> buses_in_berth s ! Suc b \<noteq> None)"
    unfolding eq by (rule fifo_check_in_Some)
  show "queue_rule_check_in s = None \<longleftrightarrow>
         length (buses_in_berth s) = 0 \<or> buses_in_berth s ! 0 \<noteq> None"
    unfolding eq by (rule fifo_check_in_None)
qed

theorem queue_rule_check_in_spec_witness:
  "queue_rule_check_in (demo_stop ''FO'' [Some (demo_bus ''1''), None, None]) = Some 1
   \<and> queue_rule_check_in (demo_stop ''FO'' [None, None, Some (demo_bus ''1'')]) = None
   \<and> queue_rule_check_in (demo_stop ''FIFO'' [None, None, Some (demo_bus ''1'')]) = Some 1
   \<and> queue_rule_check_in (demo_stop ''FIFO'' [Some (demo_bus ''1''), None, None]) = None"
proof -
  let ?a = "[Some (demo_bus ''1''), None, None]"
  let ?b = "[None, None, Some (demo_bus ''1'')]"
  have fo: "queue_rule (demo_stop ''FO'' bs) = ''FO''"
    and fifo: "queue_rule (demo_stop ''FIFO'' bs) = ''FIFO''" for bs
    by (simp_all add: demo_stop_simps)
  have "\<forall>j. 1 \<le> j \<and> j < length ?a \<longrightarrow> ?a ! j = None"
    by (auto simp: nth_Cons split: nat.splits)
  with queue_rule_check_in_spec [of "demo_stop ''FO'' ?a" 1,
         THEN conjunct1, rule_format, OF fo, THEN conjunct1]
  have r1: "queue_rule_check_in (demo_stop ''FO'' ?a) = Some 1"
    by (simp add: demo_stop_simps)
  from queue_rule_check_in_spec [of "demo_stop ''FO'' ?b" 0,
         THEN conjunct1, rule_format, OF fo, THEN conjunct2]
  have r2: "queue_rule_check_in (demo_stop ''FO'' ?b) = None"
    by (simp add: demo_stop_simps)
  have "\<forall>j\<le>1. ?b ! j = None"
    by (auto simp: nth_Cons split: nat.splits)
  with queue_rule_check_in_spec [of "demo_stop ''FIFO'' ?b" 1,
         THEN conjunct2, rule_format, OF fifo, THEN conjunct1]
  have r3: "queue_rule_check_in (demo_stop ''FIFO'' ?b) = Some 1"
    by (simp add: demo_stop_simps)
  from queue_rule_check_in_spec [of "demo_stop ''FIFO'' ?a" 0,
         THEN conjunct2, rule_format, OF fifo, THEN conjunct2]
  have r4: "queue_rule_check_in (demo_stop ''FIFO'' ?a) = None"
    by (simp add: demo_stop_simps)
  from r1 r2 r3 r4 show ?thesis by blast
qed

theorem queue_rule_check_in_counterexample:
  "queue_rule_check_in (demo_stop ''FO'' [None, None]) = Some 0
   \<and> spec_most_downstream_free (buses_in_berth (demo_stop ''FO'' [None, None])) = Some 1
   \<and> queue_rule_check_in (demo_stop ''FIFO'' [None, None]) = Some 1
   \<and> spec_most_upstream_free (buses_in_berth (demo_stop ''FIFO'' [None, None])) = Some 0"
  by (simp add: demo_stop_simps queue_rule_check_in_def spec_most_downstream_free_def
      spec_most_upstream_free_def upt_rec)

section \<open>Admission of the head of the entry queue\<close>

lemma check_in_Some_free:
  assumes "queue_rule_check_in s = Some b"
  shows "b < length (buses_in_berth s) \<and> buses_in_berth s ! b = None"
proof -
  from assms have "queue_rule s = ''FO'' \<or> queue_rule s = ''FIFO''"
    by (auto simp: queue_rule_check_in_def split: if_splits)
  then show ?thesis
  proof
    assume "queue_rule s = ''FO''"
    with assms have "check_in_scan (buses_in_berth s) (rev [0..<length (buses_in_berth s)]) None
        = Some b"
      by (simp add: queue_rule_check_in_def)
    then show ?thesis unfolding fo_check_in_Some by simp
  next
    assume "queue_rule s = ''FIFO''"
    with assms have "check_in_scan (buses_in_berth s) [0..<length (buses_in_berth s)] None
        = Some b"
      by (auto simp: queue_rule_check_in_def split: if_splits)
    then show ?thesis unfolding fifo_check_in_Some by simp
  qed
qed

lemma occupied_update_free:
  "b < length xs \<Longrightarrow> xs ! b = None \<Longrightarrow> occupied (xs[b := Some x]) = occupied xs + 1"
proof (induction xs arbitrary: b)
  case Nil
  then show ?case by simp
next
  case (Cons y ys)
  then show ?case by (cases b) (auto simp: occupied_def)
qed

lemma map_err_preserves:
  assumes "map_err f xs = Inr ys" and "\<And>x y. f x = Inr y \<Longrightarrow> g y = g x"
  shows "map g ys = map g xs"
  using assms(1)
proof (induction xs arbitrary: ys)
  case Nil
  then show ?case by simp
next
  case (Cons x xs)
  then show ?case by (auto split: sum.splits dest: assms(2))
qed

lemma map_err_total:
  assumes "\<forall>x \<in> set xs. \<exists>y. f x = Inr y"
  shows "\<exists>ys. map_err f xs = Inr ys"
  using assms by (induction xs) (auto split: sum.splits)

lemma getitem_Inr_iff: "(\<exists>v. getitem d k = Inr v) \<longleftrightarrow> k \<in> fst ` set d"
  unfolding getitem_def using map_of_eq_None_iff [of d k] by (cases "map_of d k") auto

lemma queue_tick_ident: "queue_tick t sid b = Inr b' \<Longrightarrow> bus_ident b' = bus_ident b"
  by (auto simp: queue_tick_def update_location_def bind_err_def bus_ident_def
      split: sum.splits)

lemma queue_tick_total:
  "sid \<in> fst ` set (node_distance b) \<Longrightarrow> \<exists>b'. queue_tick t sid b = Inr b'"
  using getitem_Inr_iff [of "node_distance b" sid]
  by (auto simp: queue_tick_def update_location_def bind_err_def)

text \<open>
  C10. One call of \<open>Stop_Board._enter_berth\<close> that returns moves exactly the head of the
  entry queue into the berth the queue rule selected (a free one) when the queue is not
  empty and the rule selects a berth, and keeps the other buses queueing in their order;
  otherwise it leaves the berths as they were and keeps every queued bus in its place. So
  at most one more berth is occupied afterwards and at most one bus has left the queue,
  however many berths are free. The call returns whenever every queued bus knows the
  distance of this stop.
\<close>

theorem enter_berth_head_only:
  "((\<forall>b \<in> set (entry_queue s). stop_id s \<in> fst ` set (node_distance b)) \<longrightarrow>
      (\<exists>s'. enter_berth t s = Inr s'))
   \<and> (\<forall>s'. enter_berth t s = Inr s' \<longrightarrow>
         (case (entry_queue s, queue_rule_check_in s) of
            (head_bus # rest, Some target) \<Rightarrow>
               target < length (buses_in_berth s)
               \<and> buses_in_berth s ! target = None
               \<and> buses_in_berth s' =
                   (buses_in_berth s)[target := Some (set_status dwelling_at_stop head_bus)]
               \<and> map bus_ident (entry_queue s') = map bus_ident rest
          | _ \<Rightarrow>
               buses_in_berth s' = buses_in_berth s
               \<and> map bus_ident (entry_queue s') = map bus_ident (entry_queue s))
         \<and> occupied (buses_in_berth s') \<le> occupied (buses_in_berth s) + 1
         \<and> length (entry_queue s) \<le> length (entry_queue s') + 1)"
proof (intro conjI impI allI)
  assume wf: "\<forall>b \<in> set (entry_queue s). stop_id s \<in> fst ` set (node_distance b)"
  show "\<exists>s'. enter_berth t s = Inr s'"
  proof (cases "entry_queue s")
    case Nil
    then show ?thesis by (simp add: enter_berth_def)
  next
    case (Cons head_bus rest)
    show ?thesis
    proof (cases "queue_rule_check_in s")
      case None
      from wf have "\<forall>x \<in> set (entry_queue s). \<exists>y. queue_tick t (stop_id s) x = Inr y"
        by (blast intro: queue_tick_total)
      from map_err_total [OF this] Cons None show ?thesis
        by (auto simp: enter_berth_def bind_err_def)
    next
      case (Some target)
      from wf Cons have "\<forall>x \<in> set rest. \<exists>y. queue_tick t (stop_id s) x = Inr y"
        by (auto intro: queue_tick_total)
      from map_err_total [OF this] Cons Some show ?thesis
        by (auto simp: enter_berth_def bind_err_def)
    qed
  qed
next
  fix s' assume res: "enter_berth t s = Inr s'"
  let ?main = "case (entry_queue s, queue_rule_check_in s) of
            (head_bus # rest, Some target) \<Rightarrow>
               target < length (buses_in_berth s)
               \<and> buses_in_berth s ! target = None
               \<and> buses_in_berth s' =
                   (buses_in_berth s)[target := Some (set_status dwelling_at_stop head_bus)]
               \<and> map bus_ident (entry_queue s') = map bus_ident rest
          | _ \<Rightarrow>
               buses_in_berth s' = buses_in_berth s
               \<and> map bus_ident (entry_queue s') = map bus_ident (entry_queue s)"
  have main: ?main
  proof (cases "entry_queue s")
    case Nil
    with res show ?thesis by (simp add: enter_berth_def)
  next
    case (Cons head_bus rest)
    show ?thesis
    proof (cases "queue_rule_check_in s")
      case None
      with res Cons obtain q where q: "map_err (queue_tick t (stop_id s)) (entry_queue s) = Inr q"
        and s': "s' = s\<lparr>entry_queue := q\<rparr>"
        by (auto simp: enter_berth_def bind_err_def split: sum.splits)
      from map_err_preserves [OF q, of bus_ident] have "map bus_ident q = map bus_ident (entry_queue s)"
        by (blast intro: queue_tick_ident)
      with s' Cons None show ?thesis by simp
    next
      case (Some target)
      with res Cons obtain q where q: "map_err (queue_tick t (stop_id s)) rest = Inr q"
        and s': "s' = s\<lparr>buses_in_berth :=
                        (buses_in_berth s)[target := Some (set_status dwelling_at_stop head_bus)],
                      entry_queue := q\<rparr>"
        by (auto simp: enter_berth_def bind_err_def split: sum.splits)
      from map_err_preserves [OF q, of bus_ident] have "map bus_ident q = map bus_ident rest"
        by (blast intro: queue_tick_ident)
      with s' Cons Some check_in_Some_free [OF Some] show ?thesis by simp
    qed
  qed
  then show ?main .
  from main show "occupied (buses_in_berth s') \<le> occupied (buses_in_berth s) + 1"
    by (auto simp: occupied_update_free split: list.splits option.splits)
  from main have "length (map bus_ident (entry_queue s)) \<le> length (map bus_ident (entry_queue s')) + 1"
    by (auto simp del: length_map split: list.splits option.splits)
  then show "length (entry_queue s) \<le> length (entry_queue s') + 1" by simp
qed

theorem enter_berth_head_only_witness:
  "\<exists>s'. enter_berth 5
           ((demo_stop ''FIFO'' [None, None, None])
              \<lparr>entry_queue := [demo_bus ''1'', demo_bus ''2'']\<rparr>) = Inr s'
        \<and> buses_in_berth s' = [None, None, Some (set_status dwelling_at_stop (demo_bus ''1''))]
        \<and> map bus_ident (entry_queue s') = [(''B21'', ''2'')]"
proof -
  let ?s = "(demo_stop ''FIFO'' [None, None, None])\<lparr>entry_queue := [demo_bus ''1'', demo_bus ''2'']\<rparr>"
  have wf: "\<forall>b \<in> set (entry_queue ?s). stop_id ?s \<in> fst ` set (node_distance b)"
    by (simp add: demo_stop_simps demo_bus_def demo_node_distance_def)
  have ci: "queue_rule_check_in ?s = Some 2"
    by (simp add: queue_rule_check_in_def demo_stop_simps upt_rec)
  have eq: "entry_queue ?s = [demo_bus ''1'', demo_bus ''2'']"
    and bs: "buses_in_berth ?s = [None, None, None]"
    by (simp_all add: demo_stop_simps)
  have id2: "bus_ident (demo_bus ''2'') = (''B21'', ''2'')"
    by (simp add: bus_ident_def demo_bus_def)
  from enter_berth_head_only [of ?s 5, THEN conjunct1, THEN mp, OF wf]
  obtain s' where s': "enter_berth 5 ?s = Inr s'" ..
  from enter_berth_head_only [of ?s 5, THEN conjunct2, rule_format, OF s', THEN conjunct1]
  have "buses_in_berth s' = [None, None, Some (set_status dwelling_at_stop (demo_bus ''1''))]
        \<and> map bus_ident (entry_queue s') = [(''B21'', ''2'')]"
    unfolding ci eq bs by (simp add: id2)
  with s' show ?thesis by (intro exI [of _ s']) simp
qed

section \<open>Hold actions\<close>

lemma set_hold_action_keys:
  "map fst (identifier_time (snd (set_hold_action acts h))) = map fst (identifier_time h)"
proof (induction acts arbitrary: h)
  case Nil
  then show ?case by simp
next
  case (Cons a acts)
  obtain k v where a: "a = (k, v)" by (cases a)
  show ?case
  proof (cases "map_of (identifier_time h) k")
    case None
    with a show ?thesis by simp
  next
    case (Some cur)
    then have "k \<in> set (map fst (identifier_time h))"
      using map_of_eq_None_iff [of "identifier_time h" k] by auto
    with a Some Cons.IH show ?thesis by (simp add: AList.update_keys)
  qed
qed

lemma set_hold_action_others:
  "identifier_bus (snd (set_hold_action acts h)) = identifier_bus h
   \<and> holder_log (snd (set_hold_action acts h)) = holder_log h
   \<and> holder_has_schedule (snd (set_hold_action acts h)) = holder_has_schedule h"
proof (induction acts arbitrary: h)
  case Nil
  then show ?case by simp
next
  case (Cons a acts)
  obtain k v where a: "a = (k, v)" by (cases a)
  show ?case
  proof (cases "map_of (identifier_time h) k")
    case None
    with a show ?thesis by simp
  next
    case (Some cur)
    show ?thesis
    proof (cases cur)
      case None
      with Some a Cons.IH [of "h\<lparr>identifier_time := AList.update k (Some v) (identifier_time h)\<rparr>"]
      show ?thesis by simp
    next
      case (Some x)
      with \<open>map_of (identifier_time h) k = Some cur\<close> a show ?thesis by simp
    qed
  qed
qed

lemma set_hold_action_unassigned:
  assumes "map_of (identifier_time h) k \<noteq> Some None" and "k \<in> fst ` set acts"
  shows "fst (set_hold_action acts h) \<noteq> None"
  using assms
proof (induction acts arbitrary: h)
  case Nil
  then show ?case by simp
next
  case (Cons a acts)
  obtain k' v where a: "a = (k', v)" by (cases a)
  show ?case
  proof (cases "map_of (identifier_time h) k' = Some None")
    case False
    with a show ?thesis by (auto split: option.splits)
  next
    case True
    with Cons.prems a have ne: "k \<noteq> k'" and kin: "k \<in> fst ` set acts" by auto
    let ?h = "h\<lparr>identifier_time := AList.update k' (Some v) (identifier_time h)\<rparr>"
    from ne Cons.prems have "map_of (identifier_time ?h) k \<noteq> Some None"
      by (simp add: AList.update_conv')
    from Cons.IH [OF this kin] a True show ?thesis by simp
  qed
qed

lemma set_hold_action_error_kind:
  assumes "\<forall>k \<in> fst ` set acts. \<forall>x. map_of (identifier_time h) k \<noteq> Some (Some x)"
    and "distinct (map fst acts)"
  shows "fst (set_hold_action acts h) \<noteq> Some AssertionError"
  using assms
proof (induction acts arbitrary: h)
  case Nil
  then show ?case by simp
next
  case (Cons a acts)
  obtain k' v where a: "a = (k', v)" by (cases a)
  show ?case
  proof (cases "map_of (identifier_time h) k'")
    case None
    with a show ?thesis by simp
  next
    case (Some cur)
    moreover have "k' \<in> fst ` set (a # acts)" using a by simp
    with Cons.prems(1) have "\<forall>x. map_of (identifier_time h) k' \<noteq> Some (Some x)" by blast
    ultimately have cur: "cur = None" by (cases cur) auto
    let ?h = "h\<lparr>identifier_time := AList.update k' (Some v) (identifier_time h)\<rparr>"
    have "\<forall>k \<in> fst ` set acts. \<forall>x. map_of (identifier_time ?h) k \<noteq> Some (Some x)"
    proof (intro ballI allI)
      fix k x assume k: "k \<in> fst ` set acts"
      with Cons.prems(2) a have "k \<noteq> k'" by auto
      moreover from k have "k \<in> fst ` set (a # acts)" by simp
      with Cons.prems(1) have "map_of (identifier_time h) k \<noteq> Some (Some x)" by blast
      ultimately show "map_of (identifier_time ?h) k \<noteq> Some (Some x)"
        by (simp add: AList.update_conv')
    qed
    moreover from Cons.prems(2) have "distinct (map fst acts)" by simp
    ultimately have "fst (set_hold_action acts ?h) \<noteq> Some AssertionError" by (rule Cons.IH)
    with a Some cur show ?thesis by simp
  qed
qed

lemma set_hold_action_errors:
  "fst (set_hold_action acts h) = None \<or> fst (set_hold_action acts h) = Some KeyError
   \<or> fst (set_hold_action acts h) = Some AssertionError"
proof (induction acts arbitrary: h)
  case Nil
  then show ?case by simp
next
  case (Cons a acts)
  obtain k v where a: "a = (k, v)" by (cases a)
  show ?case
  proof (cases "map_of (identifier_time h) k")
    case None
    with a show ?thesis by simp
  next
    case (Some cur)
    show ?thesis
    proof (cases cur)
      case None
      with Some a Cons.IH [of "h\<lparr>identifier_time := AList.update k (Some v) (identifier_time h)\<rparr>"]
      show ?thesis by simp
    next
      case (Some x)
      with \<open>map_of (identifier_time h) k = Some cur\<close> a show ?thesis by simp
    qed
  qed
qed

text \<open>
  C9. When the map given to \<open>Holder.set_hold_action\<close> has a key that is not registered
  (never added, or already released), the call raises and, whatever it assigned before
  raising, the holder has exactly the keys it had: no entry is created. When no key of
  the map (a dict, so its keys are distinct) has a hold time assigned already, the
  exception is the \<open>KeyError\<close> of the lookup, and a map of that one key leaves the holder
  as it was.
\<close>

theorem set_hold_action_unregistered:
  assumes "map_of (identifier_time h) k = None" and "k \<in> fst ` set acts"
  shows "fst (set_hold_action acts h) \<noteq> None
       \<and> map fst (identifier_time (snd (set_hold_action acts h))) = map fst (identifier_time h)
       \<and> identifier_bus (snd (set_hold_action acts h)) = identifier_bus h
       \<and> map_of (identifier_time (snd (set_hold_action acts h))) k = None
       \<and> (distinct (map fst acts)
            \<and> (\<forall>k' \<in> fst ` set acts. \<forall>x. map_of (identifier_time h) k' \<noteq> Some (Some x))
          \<longrightarrow> fst (set_hold_action acts h) = Some KeyError)
       \<and> set_hold_action [(k, hold_time)] h = (Some KeyError, h)"
proof (intro conjI impI)
  from assms show raised: "fst (set_hold_action acts h) \<noteq> None"
    by (intro set_hold_action_unassigned [of h k]) simp_all
  show keys: "map fst (identifier_time (snd (set_hold_action acts h))) = map fst (identifier_time h)"
    by (rule set_hold_action_keys)
  show "identifier_bus (snd (set_hold_action acts h)) = identifier_bus h"
    by (simp add: set_hold_action_others)
  from assms(1) have "k \<notin> set (map fst (identifier_time h))"
    by (simp add: map_of_eq_None_iff)
  with keys have "k \<notin> set (map fst (identifier_time (snd (set_hold_action acts h))))"
    by simp
  then have "k \<notin> fst ` set (identifier_time (snd (set_hold_action acts h)))" by simp
  then show "map_of (identifier_time (snd (set_hold_action acts h))) k = None"
    by (simp add: map_of_eq_None_iff)
  from assms(1) show "set_hold_action [(k, hold_time)] h = (Some KeyError, h)" by simp
next
  assume a: "distinct (map fst acts)
     \<and> (\<forall>k' \<in> fst ` set acts. \<forall>x. map_of (identifier_time h) k' \<noteq> Some (Some x))"
  then have "fst (set_hold_action acts h) \<noteq> Some AssertionError"
    by (intro set_hold_action_error_kind) simp_all
  moreover have "fst (set_hold_action acts h) \<noteq> None"
    using assms by (intro set_hold_action_unassigned [of h k]) simp_all
  moreover note set_hold_action_errors [of acts h]
  ultimately show "fst (set_hold_action acts h) = Some KeyError" by auto
qed

section \<open>One tick of the holder\<close>

lemma update_mid:
  "k \<notin> fst ` set xs \<Longrightarrow> AList.update k v (xs @ (k, w) # ys) = xs @ (k, v) # ys"
  by (induction xs) auto

lemma map_of_dd_getitem:
  "map_of (snd (dd_getitem dflt d k)) k' =
     (if k' = k \<and> map_of d k = None then Some dflt else map_of d k')"
  by (auto simp: dd_getitem_def map_of_append map_add_def split: option.splits)

lemma fst_dd_getitem:
  "fst (dd_getitem dflt d k) = (case map_of d k of None \<Rightarrow> dflt | Some v \<Rightarrow> v)"
  by (simp add: dd_getitem_def split: option.splits)

lemma fst_dd2_getitem: "fst (dd2_getitem [] d r s) = dd2_lookup d r s"
  by (simp add: dd2_getitem_def dd2_lookup_def dd_getitem_def split: option.splits prod.splits)

lemma dd2_lookup_getitem: "dd2_lookup (snd (dd2_getitem [] d r s)) r' s' = dd2_lookup d r' s'"
proof -
  obtain inner d1 where g1: "dd_getitem [] d r = (inner, d1)" by (cases "dd_getitem [] d r")
  obtain v inner1 where g2: "dd_getitem [] inner s = (v, inner1)"
    by (cases "dd_getitem [] inner s")
  have d1: "map_of d1 k = (if k = r \<and> map_of d r = None then Some [] else map_of d k)" for k
    using map_of_dd_getitem [of "[]" d r k] g1 by simp
  have inner: "inner = (case map_of d r of None \<Rightarrow> [] | Some x \<Rightarrow> x)"
    using fst_dd_getitem [of "[]" d r] g1 by simp
  have i1: "map_of inner1 k = (if k = s \<and> map_of inner s = None then Some [] else map_of inner k)"
    for k
    using map_of_dd_getitem [of "[]" inner s k] g2 by simp
  have "snd (dd2_getitem [] d r s) = AList.update r inner1 d1"
    by (simp add: dd2_getitem_def g1 g2)
  then show ?thesis
    by (auto simp: dd2_lookup_def AList.update_conv' d1 i1 inner split: option.splits)
qed

lemma dd2_lookup_setitem:
  "dd2_lookup (dd2_setitem d r s v) r' s' = (if r' = r \<and> s' = s then v else dd2_lookup d r' s')"
proof -
  obtain inner d1 where g1: "dd_getitem [] d r = (inner, d1)" by (cases "dd_getitem [] d r")
  have d1: "map_of d1 k = (if k = r \<and> map_of d r = None then Some [] else map_of d k)" for k
    using map_of_dd_getitem [of "[]" d r k] g1 by simp
  have inner: "inner = (case map_of d r of None \<Rightarrow> [] | Some x \<Rightarrow> x)"
    using fst_dd_getitem [of "[]" d r] g1 by simp
  have "dd2_setitem d r s v = AList.update r (AList.update s v inner) d1"
    by (simp add: dd2_setitem_def g1)
  then show ?thesis
    by (auto simp: dd2_lookup_def AList.update_conv' d1 inner split: option.splits)
qed

lemma dd2_lookup_append:
  "dd2_lookup (dd2_append d r s x) r' s' =
     (if r' = r \<and> s' = s then dd2_lookup d r s @ [x] else dd2_lookup d r' s')"
proof -
  obtain xs d1 where g: "dd2_getitem [] d r s = (xs, d1)" by (cases "dd2_getitem [] d r s")
  with fst_dd2_getitem [of d r s] dd2_lookup_getitem [of d r s]
  have "xs = dd2_lookup d r s" "\<And>r' s'. dd2_lookup d1 r' s' = dd2_lookup d r' s'" by simp_all
  with g show ?thesis by (simp add: dd2_append_def dd2_lookup_setitem)
qed

lemma dd2_lookup_dd3_setitem:
  "dd2_lookup (dd3_setitem d r s b v) r' s' =
     (if r' = r \<and> s' = s then AList.update b v (dd2_lookup d r s) else dd2_lookup d r' s')"
proof -
  obtain m d1 where g: "dd2_getitem [] d r s = (m, d1)" by (cases "dd2_getitem [] d r s")
  with fst_dd2_getitem [of d r s] dd2_lookup_getitem [of d r s]
  have "m = dd2_lookup d r s" "\<And>r' s'. dd2_lookup d1 r' s' = dd2_lookup d r' s'" by simp_all
  with g show ?thesis by (simp add: dd3_setitem_def dd2_lookup_setitem)
qed

lemma released_at_append:
  "released_at (AList.update sid (fst (dd_getitem [] out sid) @ [b])
                  (snd (dd_getitem [] out sid))) sid' =
     (if sid' = sid then released_at out sid @ [b] else released_at out sid')"
  by (auto simp: released_at_def AList.update_conv' map_of_dd_getitem fst_dd_getitem
      split: option.splits)

lemma update_location_eq:
  assumes "update_location t sty sid node offset st b = Inr b'"
  shows "\<exists>d tr. b' = b\<lparr>loc_relative_to_terminal := d, trajectory := tr\<rparr>"
  using assms
  by (auto simp: update_location_def bind_err_def split: sum.splits)

lemma record_when_departure_props:
  assumes "record_when_departure sid t cnt l = Inr (eps, l1)"
  shows "map_of (stop_departure_time l1) sid = Some t"
    and "virtual_bus_stop_departure_time l1 = virtual_bus_stop_departure_time l"
    and "schedule_headway l1 = schedule_headway l"
    and "cnt = None \<Longrightarrow> eps = None \<and> stop_epsilon_departure l1 = stop_epsilon_departure l"
    and "cnt = Some c \<Longrightarrow>
           \<exists>vt. map_of (virtual_bus_stop_departure_time l) sid = Some vt
             \<and> eps = Some (of_int t - (vt + schedule_headway l * of_nat c))
             \<and> map_of (stop_epsilon_departure l1) sid = eps"
  using assms
  by (auto simp: record_when_departure_def bind_err_def getitem_def Let_def
      AList.update_conv' split: option.splits sum.splits)

lemma holder_release_props:
  assumes "holder_release sched t (sid, r, bid) b0 lg = Inr (b1, lg1)"
  shows "b1 = b0\<lparr>bus_log := bus_log b1\<rparr>"
    and "map_of (stop_departure_time (bus_log b1)) sid = Some t"
    and "dd2_lookup (route_stop_departure_bus_id_seq lg1) r' s' =
           (if r' = r \<and> s' = sid
            then dd2_lookup (route_stop_departure_bus_id_seq lg) r sid @ [bid]
            else dd2_lookup (route_stop_departure_bus_id_seq lg) r' s')"
    and "dd2_lookup (route_stop_departure_time_seq lg1) r' s' =
           (if r' = r \<and> s' = sid
            then dd2_lookup (route_stop_departure_time_seq lg) r sid @ [of_int t]
            else dd2_lookup (route_stop_departure_time_seq lg) r' s')"
    and "sched \<Longrightarrow>
           \<exists>vt. map_of (virtual_bus_stop_departure_time (bus_log b0)) sid = Some vt
             \<and> map_of (stop_epsilon_departure (bus_log b1)) sid =
                 Some (of_int t - (vt + schedule_headway (bus_log b0)
                    * of_nat (length (dd2_lookup (route_stop_departure_bus_id_seq lg) r sid))))
             \<and> map_of (dd2_lookup (route_stop_bus_epsilon_departure lg1) r sid) bid =
                 map_of (stop_epsilon_departure (bus_log b1)) sid"
    and "\<not> sched \<Longrightarrow>
           stop_epsilon_departure (bus_log b1) = stop_epsilon_departure (bus_log b0)
           \<and> route_stop_bus_epsilon_departure lg1 = route_stop_bus_epsilon_departure lg"
proof -
  let ?cnt = "length (dd2_lookup (route_stop_departure_bus_id_seq lg) r sid)"
  let ?lg0 = "lg\<lparr>route_stop_departure_bus_id_seq :=
                   snd (dd2_getitem [] (route_stop_departure_bus_id_seq lg) r sid)\<rparr>"
  obtain eps l where rec:
    "record_when_departure sid t (if sched then Some ?cnt else None) (bus_log b0) = Inr (eps, l)"
    and b1: "b1 = b0\<lparr>bus_log := l\<rparr>"
    and lg1: "lg1 = record_when_bus_departure sid r bid t eps (if sched then ?lg0 else lg)"
    using assms
    by (auto simp: holder_release_def bind_err_def Let_def fst_dd2_getitem [symmetric]
        split: sum.splits prod.splits if_splits)
  note p = record_when_departure_props [OF rec]
  from b1 show "b1 = b0\<lparr>bus_log := bus_log b1\<rparr>" by simp
  from b1 p(1) show "map_of (stop_departure_time (bus_log b1)) sid = Some t" by simp
  from lg1 show "dd2_lookup (route_stop_departure_bus_id_seq lg1) r' s' =
           (if r' = r \<and> s' = sid
            then dd2_lookup (route_stop_departure_bus_id_seq lg) r sid @ [bid]
            else dd2_lookup (route_stop_departure_bus_id_seq lg) r' s')"
    by (simp add: record_when_bus_departure_def dd2_lookup_append dd2_lookup_getitem)
  from lg1 show "dd2_lookup (route_stop_departure_time_seq lg1) r' s' =
           (if r' = r \<and> s' = sid
            then dd2_lookup (route_stop_departure_time_seq lg) r sid @ [of_int t]
            else dd2_lookup (route_stop_departure_time_seq lg) r' s')"
    by (simp add: record_when_bus_departure_def dd2_lookup_append)
  show "\<exists>vt. map_of (virtual_bus_stop_departure_time (bus_log b0)) sid = Some vt
             \<and> map_of (stop_epsilon_departure (bus_log b1)) sid =
                 Some (of_int t - (vt + schedule_headway (bus_log b0) * of_nat ?cnt))
             \<and> map_of (dd2_lookup (route_stop_bus_epsilon_departure lg1) r sid) bid =
                 map_of (stop_epsilon_departure (bus_log b1)) sid" if sched
  proof -
    from p(5) [of ?cnt] that obtain vt where
      vt: "map_of (virtual_bus_stop_departure_time (bus_log b0)) sid = Some vt"
      and eps: "eps = Some (of_int t - (vt + schedule_headway (bus_log b0) * of_nat ?cnt))"
      and st: "map_of (stop_epsilon_departure l) sid = eps"
      by auto
    from lg1 eps that
    have "map_of (dd2_lookup (route_stop_bus_epsilon_departure lg1) r sid) bid = eps"
      by (simp add: record_when_bus_departure_def dd2_lookup_dd3_setitem AList.update_conv')
    with vt eps st b1 show ?thesis by simp
  qed
  show "stop_epsilon_departure (bus_log b1) = stop_epsilon_departure (bus_log b0)
         \<and> route_stop_bus_epsilon_departure lg1 = route_stop_bus_epsilon_departure lg"
    if "\<not> sched"
    using that p(4) b1 lg1 by (simp add: record_when_bus_departure_def)
qed

lemma hold_step_None: "hold_step t (k, None) st = Inr st"
  by (cases st) (simp add: hold_step_def)

lemma hold_step_SomeE:
  assumes "hold_step t (k, Some ht) (h, out, rm) = Inr (h', out', rm')"
  obtains b0 b1 lg1 b2 where
    "map_of (identifier_bus h) k = Some b0"
    "(if ht - 1 \<le> 0 then holder_release (holder_has_schedule h) t k b0 (holder_log h)
      else Inr (b0, holder_log h)) = Inr (b1, lg1)"
    "update_location t ''holder'' (fst k) (fst k) 0 holding b1 = Inr b2"
    "h' = h\<lparr>identifier_time := AList.update k (Some (ht - 1)) (identifier_time h),
            identifier_bus := AList.update k b2 (identifier_bus h),
            holder_log := lg1\<rparr>"
    "out' = (if ht - 1 \<le> 0
             then AList.update (fst k) (fst (dd_getitem [] out (fst k)) @ [b2])
                    (snd (dd_getitem [] out (fst k)))
             else out)"
    "rm' = (if ht - 1 \<le> 0 then rm @ [k] else rm)"
proof -
  from assms obtain b0 where b0: "map_of (identifier_bus h) k = Some b0"
    by (auto simp: hold_step_def bind_err_def getitem_def Let_def split: option.splits)
  let ?rel = "if ht - 1 \<le> 0 then holder_release (holder_has_schedule h) t k b0 (holder_log h)
      else Inr (b0, holder_log h)"
  from assms b0 obtain b1 lg1 where rel: "?rel = Inr (b1, lg1)"
    by (cases ?rel) (auto simp: hold_step_def bind_err_def getitem_def Let_def)
  from assms b0 rel obtain b2 where
    loc: "update_location t ''holder'' (fst k) (fst k) 0 holding b1 = Inr b2"
    by (cases "update_location t ''holder'' (fst k) (fst k) 0 holding b1")
       (auto simp: hold_step_def bind_err_def getitem_def Let_def)
  from assms b0 rel loc have
    "h' = h\<lparr>identifier_time := AList.update k (Some (ht - 1)) (identifier_time h),
            identifier_bus := AList.update k b2 (identifier_bus h),
            holder_log := lg1\<rparr>"
    "out' = (if ht - 1 \<le> 0
             then AList.update (fst k) (fst (dd_getitem [] out (fst k)) @ [b2])
                    (snd (dd_getitem [] out (fst k)))
             else out)"
    "rm' = (if ht - 1 \<le> 0 then rm @ [k] else rm)"
    by (auto simp: hold_step_def bind_err_def getitem_def Let_def split: prod.splits)
  with b0 rel loc that show thesis by blast
qed

text \<open>The hold times and the keys to remove after the loop, in closed form.\<close>

lemma fold_hold_times:
  assumes "fold_err (hold_step t) todo (h, out, rm) = Inr (h1, out1, rm1)"
    and "identifier_time h = before @ todo"
    and "distinct (map fst (before @ todo))"
  shows "identifier_time h1 = before @ map decremented todo
       \<and> rm1 = rm @ map fst (filter hold_finished todo)
       \<and> map fst (identifier_bus h1) = map fst (identifier_bus h)
       \<and> holder_has_schedule h1 = holder_has_schedule h"
  using assms
proof (induction todo arbitrary: h out rm before)
  case Nil
  then show ?case by simp
next
  case (Cons item todo)
  obtain k v where item: "item = (k, v)" by (cases item)
  show ?case
  proof (cases v)
    case None
    with Cons.prems(1) item have f: "fold_err (hold_step t) todo (h, out, rm) = Inr (h1, out1, rm1)"
      by (simp add: hold_step_None)
    from Cons.prems(2,3) item None
    have "identifier_time h = (before @ [(k, None)]) @ todo"
      "distinct (map fst ((before @ [(k, None)]) @ todo))" by simp_all
    from Cons.IH [OF f this] item None show ?thesis
      by (simp add: decremented_def hold_finished_def)
  next
    case (Some ht)
    from Cons.prems(1) item Some obtain h' out' rm' where
      step: "hold_step t (k, Some ht) (h, out, rm) = Inr (h', out', rm')"
      and f: "fold_err (hold_step t) todo (h', out', rm') = Inr (h1, out1, rm1)"
      by (auto split: sum.splits)
    from step obtain b0 lg1 b2 where
      b0: "map_of (identifier_bus h) k = Some b0"
      and h': "h' = h\<lparr>identifier_time := AList.update k (Some (ht - 1)) (identifier_time h),
            identifier_bus := AList.update k b2 (identifier_bus h),
            holder_log := lg1\<rparr>"
      and rm': "rm' = (if ht - 1 \<le> 0 then rm @ [k] else rm)"
      by (rule hold_step_SomeE)
    from Cons.prems(3) item have "k \<notin> fst ` set before" by auto
    with h' Cons.prems(2) item Some
    have t': "identifier_time h' = (before @ [(k, Some (ht - 1))]) @ todo"
      by (simp add: update_mid)
    from Cons.prems(3) item have d': "distinct (map fst ((before @ [(k, Some (ht - 1))]) @ todo))"
      by simp
    from b0 have "k \<in> set (map fst (identifier_bus h))"
      using map_of_eq_None_iff [of "identifier_bus h" k] by auto
    with h' have keys: "map fst (identifier_bus h') = map fst (identifier_bus h)"
      by (simp add: AList.update_keys)
    from Cons.IH [OF f t' d'] item Some rm' keys h' show ?thesis
      by (simp add: decremented_def hold_finished_def)
  qed
qed

text \<open>The removal loop deletes exactly the listed keys from both dictionaries.\<close>

lemma fold_remove_bus:
  assumes "fold_err remove_bus rm h = Inr h2"
  shows "identifier_time h2 = filter (\<lambda>i. fst i \<notin> set rm) (identifier_time h)
       \<and> identifier_bus h2 = filter (\<lambda>i. fst i \<notin> set rm) (identifier_bus h)
       \<and> holder_log h2 = holder_log h
       \<and> holder_has_schedule h2 = holder_has_schedule h"
  using assms
proof (induction rm arbitrary: h)
  case Nil
  then show ?case by simp
next
  case (Cons k rm)
  from Cons.prems obtain h' where r: "remove_bus k h = Inr h'"
    and f: "fold_err remove_bus rm h' = Inr h2"
    by (auto split: sum.splits)
  from r have h': "h' = h\<lparr>identifier_bus := AList.delete k (identifier_bus h),
                         identifier_time := AList.delete k (identifier_time h)\<rparr>"
    by (auto simp: remove_bus_def pop_item_def bind_err_def split: option.splits)
  have del: "AList.delete k xs = filter (\<lambda>i. fst i \<noteq> k) xs" for xs :: "(hold_key \<times> 'x) list"
    by (induction xs) auto
  from Cons.IH [OF f] h' show ?case
    by (simp add: del conj_commute)
qed

text \<open>What one iteration on a decided item does to the buses, the released lists and the log.\<close>

lemma hold_step_summary:
  assumes "hold_step t (k, Some ht) (h, out, rm) = Inr (h', out', rm')"
  shows "\<exists>b0 b2.
      map_of (identifier_bus h) k = Some b0
    \<and> identifier_bus h' = AList.update k b2 (identifier_bus h)
    \<and> (\<forall>sid. released_at out' sid =
          (if ht - 1 \<le> 0 \<and> sid = fst k then released_at out sid @ [b2] else released_at out sid))
    \<and> (ht - 1 \<le> 0 \<longrightarrow> departed t (fst k) b0 b2)
    \<and> (\<forall>r s. dd2_lookup (route_stop_departure_bus_id_seq (holder_log h')) r s =
          (if ht - 1 \<le> 0 \<and> r = fst (snd k) \<and> s = fst k
           then dd2_lookup (route_stop_departure_bus_id_seq (holder_log h)) r s @ [snd (snd k)]
           else dd2_lookup (route_stop_departure_bus_id_seq (holder_log h)) r s))
    \<and> (\<forall>r s. dd2_lookup (route_stop_departure_time_seq (holder_log h')) r s =
          (if ht - 1 \<le> 0 \<and> r = fst (snd k) \<and> s = fst k
           then dd2_lookup (route_stop_departure_time_seq (holder_log h)) r s @ [of_int t]
           else dd2_lookup (route_stop_departure_time_seq (holder_log h)) r s))"
proof -
  obtain sid r bid where k: "k = (sid, r, bid)" by (cases k)
  from assms obtain b0 b1 lg1 b2 where
    b0: "map_of (identifier_bus h) k = Some b0"
    and rel: "(if ht - 1 \<le> 0 then holder_release (holder_has_schedule h) t k b0 (holder_log h)
      else Inr (b0, holder_log h)) = Inr (b1, lg1)"
    and loc: "update_location t ''holder'' (fst k) (fst k) 0 holding b1 = Inr b2"
    and h': "h' = h\<lparr>identifier_time := AList.update k (Some (ht - 1)) (identifier_time h),
            identifier_bus := AList.update k b2 (identifier_bus h),
            holder_log := lg1\<rparr>"
    and out': "out' = (if ht - 1 \<le> 0
             then AList.update (fst k) (fst (dd_getitem [] out (fst k)) @ [b2])
                    (snd (dd_getitem [] out (fst k)))
             else out)"
    by (rule hold_step_SomeE)
  from update_location_eq [OF loc] obtain d tr where
    b2: "b2 = b1\<lparr>loc_relative_to_terminal := d, trajectory := tr\<rparr>" by blast
  have bus: "identifier_bus h' = AList.update k b2 (identifier_bus h)" using h' by simp
  have rel_at: "\<forall>sid. released_at out' sid =
          (if ht - 1 \<le> 0 \<and> sid = fst k then released_at out sid @ [b2] else released_at out sid)"
    using out' by (simp add: released_at_append)
  show ?thesis
  proof (cases "ht - 1 \<le> 0")
    case True
    with rel k have r: "holder_release (holder_has_schedule h) t (sid, r, bid) b0 (holder_log h)
        = Inr (b1, lg1)" by simp
    note p = holder_release_props [OF r]
    from p(1) have "bus_id b1 = bus_id b0 \<and> route_id b1 = route_id b0 \<and> status b1 = status b0
        \<and> paxs b1 = paxs b0"
      by (metis bus.select_convs(1,2,5,8) bus.surjective bus.update_convs(16))
    with p(2) b2 k have dep: "departed t (fst k) b0 b2" by (simp add: departed_def)
    from b0 bus rel_at dep True p(3,4) h' k show ?thesis
      by (intro exI [of _ b0] exI [of _ b2]) simp
  next
    case False
    with rel have "lg1 = holder_log h" by simp
    with b0 bus rel_at False h' show ?thesis
      by (intro exI [of _ b0] exI [of _ b2]) simp
  qed
qed

text \<open>The released lists and the holder log after the loop, stop by stop.\<close>

lemma fold_hold_released:
  assumes "fold_err (hold_step t) todo (h, out, rm) = Inr (h1, out1, rm1)"
    and "distinct (map fst todo)"
  shows "\<exists>new. released_at out1 sid = released_at out sid @ new
       \<and> list_all2 (\<lambda>item b'. \<exists>b0. map_of (identifier_bus h) (fst item) = Some b0
                                \<and> departed t sid b0 b')
            (filter (\<lambda>i. hold_finished i \<and> fst (fst i) = sid) todo) new"
  using assms
proof (induction todo arbitrary: h out rm)
  case Nil
  then show ?case by simp
next
  case (Cons item todo)
  obtain k v where item: "item = (k, v)" by (cases item)
  from Cons.prems(2) have dist: "distinct (map fst todo)" by simp
  show ?case
  proof (cases v)
    case None
    with Cons.prems(1) item have f: "fold_err (hold_step t) todo (h, out, rm) = Inr (h1, out1, rm1)"
      by (simp add: hold_step_None)
    from Cons.IH [OF f dist] item None show ?thesis by (simp add: hold_finished_def)
  next
    case (Some ht)
    from Cons.prems(1) item Some obtain h' out' rm' where
      step: "hold_step t (k, Some ht) (h, out, rm) = Inr (h', out', rm')"
      and f: "fold_err (hold_step t) todo (h', out', rm') = Inr (h1, out1, rm1)"
      by (auto split: sum.splits)
    from hold_step_summary [OF step] obtain b0 b2 where
      b0: "map_of (identifier_bus h) k = Some b0"
      and bus: "identifier_bus h' = AList.update k b2 (identifier_bus h)"
      and out': "released_at out' sid =
          (if ht - 1 \<le> 0 \<and> sid = fst k then released_at out sid @ [b2] else released_at out sid)"
      and dep: "ht - 1 \<le> 0 \<longrightarrow> departed t (fst k) b0 b2"
      by blast
    let ?R' = "\<lambda>item b'. \<exists>b0. map_of (identifier_bus h') (fst item) = Some b0 \<and> departed t sid b0 b'"
    let ?R = "\<lambda>item b'. \<exists>b0. map_of (identifier_bus h) (fst item) = Some b0 \<and> departed t sid b0 b'"
    let ?P = "\<lambda>i. hold_finished i \<and> fst (fst i) = sid"
    from Cons.IH [OF f dist] obtain new where
      n1: "released_at out1 sid = released_at out' sid @ new"
      and n2: "list_all2 ?R' (filter ?P todo) new" by blast
    have "list_all2 ?R (filter ?P todo) new"
    proof (rule list.rel_mono_strong [OF n2])
      fix i b' assume i: "i \<in> set (filter ?P todo)" and r: "?R' i b'"
      from i Cons.prems(2) item have "fst i \<noteq> k" by auto
      with r bus show "?R i b'" by (simp add: AList.update_conv')
    qed
    with n1 out' b0 dep item Some show ?thesis
      by (auto simp: hold_finished_def)
  qed
qed

lemma fold_hold_log:
  assumes "fold_err (hold_step t) todo (h, out, rm) = Inr (h1, out1, rm1)"
  shows "dd2_lookup (route_stop_departure_bus_id_seq (holder_log h1)) r s =
           dd2_lookup (route_stop_departure_bus_id_seq (holder_log h)) r s
           @ map (\<lambda>i. snd (snd (fst i)))
               (filter (\<lambda>i. hold_finished i \<and> fst (snd (fst i)) = r \<and> fst (fst i) = s) todo)
       \<and> dd2_lookup (route_stop_departure_time_seq (holder_log h1)) r s =
           dd2_lookup (route_stop_departure_time_seq (holder_log h)) r s
           @ map (\<lambda>i. of_int t)
               (filter (\<lambda>i. hold_finished i \<and> fst (snd (fst i)) = r \<and> fst (fst i) = s) todo)"
  using assms
proof (induction todo arbitrary: h out rm)
  case Nil
  then show ?case by simp
next
  case (Cons item todo)
  obtain k v where item: "item = (k, v)" by (cases item)
  show ?case
  proof (cases v)
    case None
    with Cons.prems(1) item have f: "fold_err (hold_step t) todo (h, out, rm) = Inr (h1, out1, rm1)"
      by (simp add: hold_step_None)
    from Cons.IH [OF f] item None show ?thesis by (simp add: hold_finished_def)
  next
    case (Some ht)
    from Cons.prems(1) item Some obtain h' out' rm' where
      step: "hold_step t (k, Some ht) (h, out, rm) = Inr (h', out', rm')"
      and f: "fold_err (hold_step t) todo (h', out', rm') = Inr (h1, out1, rm1)"
      by (auto split: sum.splits)
    from hold_step_summary [OF step] have
      l1: "dd2_lookup (route_stop_departure_bus_id_seq (holder_log h')) r s =
          (if ht - 1 \<le> 0 \<and> r = fst (snd k) \<and> s = fst k
           then dd2_lookup (route_stop_departure_bus_id_seq (holder_log h)) r s @ [snd (snd k)]
           else dd2_lookup (route_stop_departure_bus_id_seq (holder_log h)) r s)"
      and l2: "dd2_lookup (route_stop_departure_time_seq (holder_log h')) r s =
          (if ht - 1 \<le> 0 \<and> r = fst (snd k) \<and> s = fst k
           then dd2_lookup (route_stop_departure_time_seq (holder_log h)) r s @ [of_int t]
           else dd2_lookup (route_stop_departure_time_seq (holder_log h)) r s)"
      by blast+
    from Cons.IH [OF f] l1 l2 item Some show ?thesis
      by (auto simp: hold_finished_def)
  qed
qed

lemma fold_hold_undecided:
  assumes "fold_err (hold_step t) todo (h, out, rm) = Inr (h1, out1, rm1)"
    and "k \<notin> fst ` set (filter (\<lambda>i. snd i \<noteq> None) todo)"
  shows "map_of (identifier_bus h1) k = map_of (identifier_bus h) k"
  using assms
proof (induction todo arbitrary: h out rm)
  case Nil
  then show ?case by simp
next
  case (Cons item todo)
  obtain k' v where item: "item = (k', v)" by (cases item)
  from Cons.prems(2) have rest: "k \<notin> fst ` set (filter (\<lambda>i. snd i \<noteq> None) todo)" by auto
  show ?case
  proof (cases v)
    case None
    with Cons.prems(1) item have f: "fold_err (hold_step t) todo (h, out, rm) = Inr (h1, out1, rm1)"
      by (simp add: hold_step_None)
    from Cons.IH [OF f rest] show ?thesis .
  next
    case (Some ht)
    from Cons.prems(1) item Some obtain h' out' rm' where
      step: "hold_step t (k', Some ht) (h, out, rm) = Inr (h', out', rm')"
      and f: "fold_err (hold_step t) todo (h', out', rm') = Inr (h1, out1, rm1)"
      by (auto split: sum.splits)
    from hold_step_summary [OF step] obtain b2 where
      bus: "identifier_bus h' = AList.update k' b2 (identifier_bus h)" by blast
    from Cons.prems(2) item Some have "k \<noteq> k'" by auto
    with Cons.IH [OF f rest] bus show ?thesis by (simp add: AList.update_conv')
  qed
qed

lemma decremented_pair: "decremented (k, v) = (k, map_option (\<lambda>x. x - 1) v)"
  by (simp add: decremented_def)

lemma hold_finished_pair:
  "hold_finished (k, None) = False" "hold_finished (k, Some ht) = (ht - 1 \<le> 0)"
  by (simp_all add: hold_finished_def)

lemma map_of_decremented_unfinished:
  assumes "distinct (map fst xs)" and "map_of xs k = Some v"
  shows "map_of (map decremented (filter (\<lambda>i. \<not> hold_finished i) xs)) k =
           (if hold_finished (k, v) then None else Some (map_option (\<lambda>x. x - 1) v))"
  using assms
proof (induction xs)
  case Nil
  then show ?case by simp
next
  case (Cons x xs)
  obtain k' v' where x: "x = (k', v')" by (cases x)
  show ?case
  proof (cases "k' = k")
    case True
    with Cons.prems x have v: "v' = v" and notin: "k \<notin> fst ` set xs" by auto
    have "fst ` set (map decremented (filter (\<lambda>i. \<not> hold_finished i) xs)) \<subseteq> fst ` set xs"
      by (auto simp: decremented_def intro: rev_image_eqI)
    with notin have "k \<notin> fst ` set (map decremented (filter (\<lambda>i. \<not> hold_finished i) xs))"
      by blast
    then have "map_of (map decremented (filter (\<lambda>i. \<not> hold_finished i) xs)) k = None"
      by (simp add: map_of_eq_None_iff)
    with True v x show ?thesis by (simp add: decremented_pair)
  next
    case False
    with Cons.prems x have "map_of xs k = Some v" "distinct (map fst xs)" by auto
    with Cons.IH False x show ?thesis by (simp add: decremented_pair)
  qed
qed

lemma map_of_filter_keep:
  "k \<notin> S \<Longrightarrow> map_of (filter (\<lambda>i. fst i \<notin> S) xs) k = map_of xs k"
  by (induction xs) auto

text \<open>The deviation recorded for a finished entry, and what the other iterations leave of it.\<close>

lemma holder_release_eps_frame:
  assumes "holder_release sched t (sid', r', bid') b0 lg = Inr (b1, lg1)"
    and "(sid', r', bid') \<noteq> (sid, r, bid)"
  shows "map_of (dd2_lookup (route_stop_bus_epsilon_departure lg1) r sid) bid =
         map_of (dd2_lookup (route_stop_bus_epsilon_departure lg) r sid) bid"
proof -
  let ?lg0 = "lg\<lparr>route_stop_departure_bus_id_seq :=
                   snd (dd2_getitem [] (route_stop_departure_bus_id_seq lg) r' sid')\<rparr>"
  from assms(1) obtain eps where
    lg1: "lg1 = record_when_bus_departure sid' r' bid' t eps (if sched then ?lg0 else lg)"
    by (auto simp: holder_release_def bind_err_def Let_def
        split: sum.splits prod.splits if_splits)
  show ?thesis
  proof (cases eps)
    case None
    with lg1 show ?thesis by (simp add: record_when_bus_departure_def)
  next
    case (Some e)
    with lg1 assms(2) show ?thesis
      by (auto simp: record_when_bus_departure_def dd2_lookup_dd3_setitem AList.update_conv')
  qed
qed

lemma hold_step_eps_frame:
  assumes "hold_step t (k, v) (h, out, rm) = Inr (h', out', rm')"
    and "k \<noteq> (sid, r, bid)"
  shows "map_of (dd2_lookup (route_stop_bus_epsilon_departure (holder_log h')) r sid) bid =
         map_of (dd2_lookup (route_stop_bus_epsilon_departure (holder_log h)) r sid) bid"
proof (cases v)
  case None
  with assms(1) show ?thesis by (simp add: hold_step_None)
next
  case (Some ht)
  obtain sid' r' bid' where k: "k = (sid', r', bid')" by (cases k)
  from assms(1) Some obtain b0 b1 lg1 where
    rel: "(if ht - 1 \<le> 0 then holder_release (holder_has_schedule h) t k b0 (holder_log h)
      else Inr (b0, holder_log h)) = Inr (b1, lg1)"
    and h': "holder_log h' = lg1"
    by (auto elim!: hold_step_SomeE)
  show ?thesis
  proof (cases "ht - 1 \<le> 0")
    case True
    with rel k have "holder_release (holder_has_schedule h) t (sid', r', bid') b0 (holder_log h)
        = Inr (b1, lg1)" by simp
    from holder_release_eps_frame [OF this] assms(2) k h' show ?thesis by simp
  next
    case False
    with rel h' show ?thesis by simp
  qed
qed

lemma fold_hold_eps_frame:
  assumes "fold_err (hold_step t) todo (h, out, rm) = Inr (h1, out1, rm1)"
    and "(sid, r, bid) \<notin> fst ` set todo"
  shows "map_of (dd2_lookup (route_stop_bus_epsilon_departure (holder_log h1)) r sid) bid =
         map_of (dd2_lookup (route_stop_bus_epsilon_departure (holder_log h)) r sid) bid"
  using assms
proof (induction todo arbitrary: h out rm)
  case Nil
  then show ?case by simp
next
  case (Cons item todo)
  obtain k v where item: "item = (k, v)" by (cases item)
  from Cons.prems(1) item obtain h' out' rm' where
    step: "hold_step t (k, v) (h, out, rm) = Inr (h', out', rm')"
    and f: "fold_err (hold_step t) todo (h', out', rm') = Inr (h1, out1, rm1)"
    by (auto split: sum.splits)
  from Cons.prems(2) item have ne: "k \<noteq> (sid, r, bid)"
    and rest: "(sid, r, bid) \<notin> fst ` set todo" by auto
  from Cons.IH [OF f rest] hold_step_eps_frame [OF step ne] show ?case by simp
qed

lemma hold_step_epsilon:
  assumes "hold_step t ((sid, r, bid), Some ht) (h, out, rm) = Inr (h', out', rm')"
    and "ht - 1 \<le> 0" and "holder_has_schedule h"
  shows "\<exists>b0 b2 vt.
      map_of (identifier_bus h) (sid, r, bid) = Some b0
    \<and> map_of (identifier_bus h') (sid, r, bid) = Some b2
    \<and> map_of (virtual_bus_stop_departure_time (bus_log b0)) sid = Some vt
    \<and> map_of (stop_epsilon_departure (bus_log b2)) sid =
        Some (of_int t - (vt + schedule_headway (bus_log b0)
          * of_nat (length (dd2_lookup (route_stop_departure_bus_id_seq (holder_log h)) r sid))))
    \<and> map_of (dd2_lookup (route_stop_bus_epsilon_departure (holder_log h')) r sid) bid =
        Some (of_int t - (vt + schedule_headway (bus_log b0)
          * of_nat (length (dd2_lookup (route_stop_departure_bus_id_seq (holder_log h)) r sid))))"
proof -
  let ?k = "(sid, r, bid)"
  from assms(1) obtain b0 b1 lg1 b2 where
    b0: "map_of (identifier_bus h) ?k = Some b0"
    and rel: "(if ht - 1 \<le> 0 then holder_release (holder_has_schedule h) t ?k b0 (holder_log h)
      else Inr (b0, holder_log h)) = Inr (b1, lg1)"
    and loc: "update_location t ''holder'' (fst ?k) (fst ?k) 0 holding b1 = Inr b2"
    and h': "h' = h\<lparr>identifier_time := AList.update ?k (Some (ht - 1)) (identifier_time h),
            identifier_bus := AList.update ?k b2 (identifier_bus h),
            holder_log := lg1\<rparr>"
    by (rule hold_step_SomeE)
  from rel assms(2,3) have r: "holder_release True t (sid, r, bid) b0 (holder_log h) = Inr (b1, lg1)"
    by simp
  from holder_release_props(5) [OF r] obtain vt where
    vt: "map_of (virtual_bus_stop_departure_time (bus_log b0)) sid = Some vt"
    and e1: "map_of (stop_epsilon_departure (bus_log b1)) sid =
               Some (of_int t - (vt + schedule_headway (bus_log b0)
                  * of_nat (length (dd2_lookup (route_stop_departure_bus_id_seq (holder_log h)) r sid))))"
    and e2: "map_of (dd2_lookup (route_stop_bus_epsilon_departure lg1) r sid) bid =
               map_of (stop_epsilon_departure (bus_log b1)) sid"
    by auto
  from update_location_eq [OF loc] obtain d tr where
    b2: "b2 = b1\<lparr>loc_relative_to_terminal := d, trajectory := tr\<rparr>" by blast
  from h' have hb: "map_of (identifier_bus h') ?k = Some b2" by (simp add: AList.update_conv')
  from h' have hl: "holder_log h' = lg1" by simp
  show ?thesis
    by (intro exI [of _ b0] exI [of _ b2] exI [of _ vt]) (simp add: b0 hb vt hl e2 e1 b2)
qed

lemma finished_before_Cons:
  "finished_before ((k, v) # todo) key =
     (if k = key then []
      else (if hold_finished (k, v) \<and> fst (snd k) = fst (snd key) \<and> fst k = fst key
            then [(k, v)] else []) @ finished_before todo key)"
  by (simp add: finished_before_def)

lemma fold_hold_epsilon:
  assumes "fold_err (hold_step t) todo (h, out, rm) = Inr (h1, out1, rm1)"
    and "distinct (map fst todo)" and "holder_has_schedule h"
    and "((sid, r, bid), Some ht) \<in> set todo" and "ht - 1 \<le> 0"
  shows "\<exists>b0 b1 vt.
      map_of (identifier_bus h) (sid, r, bid) = Some b0
    \<and> map_of (identifier_bus h1) (sid, r, bid) = Some b1
    \<and> map_of (virtual_bus_stop_departure_time (bus_log b0)) sid = Some vt
    \<and> map_of (stop_epsilon_departure (bus_log b1)) sid =
        Some (of_int t - (vt + schedule_headway (bus_log b0)
          * of_nat (length (dd2_lookup (route_stop_departure_bus_id_seq (holder_log h)) r sid)
                    + length (finished_before todo (sid, r, bid)))))
    \<and> map_of (dd2_lookup (route_stop_bus_epsilon_departure (holder_log h1)) r sid) bid =
        Some (of_int t - (vt + schedule_headway (bus_log b0)
          * of_nat (length (dd2_lookup (route_stop_departure_bus_id_seq (holder_log h)) r sid)
                    + length (finished_before todo (sid, r, bid)))))"
  using assms(1-4)
proof (induction todo arbitrary: h out rm)
  case Nil
  then show ?case by simp
next
  case (Cons item todo)
  let ?key = "(sid, r, bid)"
  obtain k v where item: "item = (k, v)" by (cases item)
  from Cons.prems(1) item obtain h' out' rm' where
    step: "hold_step t (k, v) (h, out, rm) = Inr (h', out', rm')"
    and f: "fold_err (hold_step t) todo (h', out', rm') = Inr (h1, out1, rm1)"
    by (auto split: sum.splits)
  from Cons.prems(2) item have dist: "distinct (map fst todo)" and knot: "k \<notin> fst ` set todo"
    by auto
  show ?case
  proof (cases "k = ?key")
    case True
    with Cons.prems(4) item knot have v: "v = Some ht" by force
    from step True v have st: "hold_step t (?key, Some ht) (h, out, rm) = Inr (h', out', rm')"
      by simp
    from hold_step_epsilon [OF st assms(5) Cons.prems(3)] obtain b0 b2 vt where
      b0: "map_of (identifier_bus h) ?key = Some b0"
      and b2: "map_of (identifier_bus h') ?key = Some b2"
      and vt: "map_of (virtual_bus_stop_departure_time (bus_log b0)) sid = Some vt"
      and e1: "map_of (stop_epsilon_departure (bus_log b2)) sid =
        Some (of_int t - (vt + schedule_headway (bus_log b0)
          * of_nat (length (dd2_lookup (route_stop_departure_bus_id_seq (holder_log h)) r sid))))"
      and e2: "map_of (dd2_lookup (route_stop_bus_epsilon_departure (holder_log h')) r sid) bid =
        Some (of_int t - (vt + schedule_headway (bus_log b0)
          * of_nat (length (dd2_lookup (route_stop_departure_bus_id_seq (holder_log h)) r sid))))"
      by blast
    from knot True have n1: "?key \<notin> fst ` set (filter (\<lambda>i. snd i \<noteq> None) todo)"
      and n2: "?key \<notin> fst ` set todo" by auto
    from fold_hold_undecided [OF f n1] b2
    have b1: "map_of (identifier_bus h1) ?key = Some b2" by simp
    from fold_hold_eps_frame [OF f n2] e2
    have e3: "map_of (dd2_lookup (route_stop_bus_epsilon_departure (holder_log h1)) r sid) bid =
        Some (of_int t - (vt + schedule_headway (bus_log b0)
          * of_nat (length (dd2_lookup (route_stop_departure_bus_id_seq (holder_log h)) r sid))))"
      by simp
    have fb: "finished_before (item # todo) ?key = []"
      by (simp add: item True finished_before_Cons)
    show ?thesis
      by (intro exI [of _ b0] exI [of _ b2] exI [of _ vt]) (simp add: b0 b1 vt e1 e3 fb)
  next
    case False
    with Cons.prems(4) item have mem: "(?key, Some ht) \<in> set todo" by auto
    have frame: "holder_has_schedule h' \<and> map_of (identifier_bus h') ?key = map_of (identifier_bus h) ?key
      \<and> dd2_lookup (route_stop_departure_bus_id_seq (holder_log h')) r sid =
          dd2_lookup (route_stop_departure_bus_id_seq (holder_log h)) r sid
          @ map (\<lambda>i. snd (snd (fst i)))
              (if hold_finished (k, v) \<and> fst (snd k) = r \<and> fst k = sid then [(k, v)] else [])"
    proof (cases v)
      case None
      with step have "h' = h" by (simp add: hold_step_None)
      with Cons.prems(3) None show ?thesis by (simp add: hold_finished_pair)
    next
      case (Some x)
      from step [unfolded Some] obtain b2 lg1 where
        h': "h' = h\<lparr>identifier_time := AList.update k (Some (x - 1)) (identifier_time h),
            identifier_bus := AList.update k b2 (identifier_bus h),
            holder_log := lg1\<rparr>"
        by (rule hold_step_SomeE)
      from hold_step_summary [OF step [unfolded Some]] have
        l1: "dd2_lookup (route_stop_departure_bus_id_seq (holder_log h')) r sid =
          (if x - 1 \<le> 0 \<and> r = fst (snd k) \<and> sid = fst k
           then dd2_lookup (route_stop_departure_bus_id_seq (holder_log h)) r sid @ [snd (snd k)]
           else dd2_lookup (route_stop_departure_bus_id_seq (holder_log h)) r sid)"
        by blast
      from h' Cons.prems(3) False l1 Some show ?thesis
        by (auto simp: AList.update_conv' hold_finished_pair)
    qed
    from frame have s': "holder_has_schedule h'" by simp
    from Cons.IH [OF f dist s' mem] obtain b0 b1 vt where
      b0: "map_of (identifier_bus h') ?key = Some b0"
      and b1: "map_of (identifier_bus h1) ?key = Some b1"
      and vt: "map_of (virtual_bus_stop_departure_time (bus_log b0)) sid = Some vt"
      and e1: "map_of (stop_epsilon_departure (bus_log b1)) sid =
        Some (of_int t - (vt + schedule_headway (bus_log b0)
          * of_nat (length (dd2_lookup (route_stop_departure_bus_id_seq (holder_log h')) r sid)
                    + length (finished_before todo ?key))))"
      and e2: "map_of (dd2_lookup (route_stop_bus_epsilon_departure (holder_log h1)) r sid) bid =
        Some (of_int t - (vt + schedule_headway (bus_log b0)
          * of_nat (length (dd2_lookup (route_stop_departure_bus_id_seq (holder_log h')) r sid)
                    + length (finished_before todo ?key))))"
      by blast
    have cnt: "length (dd2_lookup (route_stop_departure_bus_id_seq (holder_log h')) r sid)
                 + length (finished_before todo ?key)
             = length (dd2_lookup (route_stop_departure_bus_id_seq (holder_log h)) r sid)
                 + length (finished_before (item # todo) ?key)"
      using frame False by (simp add: item finished_before_Cons)
    from frame b0 have b0': "map_of (identifier_bus h) ?key = Some b0" by simp
    show ?thesis
      by (intro exI [of _ b0] exI [of _ b1] exI [of _ vt])
         (simp only: b0' b1 vt e1 e2 cnt simp_thms)
  qed
qed

text \<open>A released list holds the buses as the holder has them after the loop.\<close>

lemma fold_hold_same_bus:
  assumes "fold_err (hold_step t) todo (h, out, rm) = Inr (h1, out1, rm1)"
    and "distinct (map fst todo)"
  shows "\<exists>new. released_at out1 sid = released_at out sid @ new
       \<and> list_all2 (\<lambda>item b'. map_of (identifier_bus h1) (fst item) = Some b')
            (filter (\<lambda>i. hold_finished i \<and> fst (fst i) = sid) todo) new"
  using assms
proof (induction todo arbitrary: h out rm)
  case Nil
  then show ?case by simp
next
  case (Cons item todo)
  obtain k v where item: "item = (k, v)" by (cases item)
  from Cons.prems(2) item have dist: "distinct (map fst todo)" and knot: "k \<notin> fst ` set todo"
    by auto
  show ?case
  proof (cases v)
    case None
    with Cons.prems(1) item have f: "fold_err (hold_step t) todo (h, out, rm) = Inr (h1, out1, rm1)"
      by (simp add: hold_step_None)
    from Cons.IH [OF f dist] item None show ?thesis by (simp add: hold_finished_def)
  next
    case (Some ht)
    from Cons.prems(1) item Some obtain h' out' rm' where
      step: "hold_step t (k, Some ht) (h, out, rm) = Inr (h', out', rm')"
      and f: "fold_err (hold_step t) todo (h', out', rm') = Inr (h1, out1, rm1)"
      by (auto split: sum.splits)
    from hold_step_summary [OF step] obtain b2 where
      bus: "identifier_bus h' = AList.update k b2 (identifier_bus h)"
      and out': "released_at out' sid =
          (if ht - 1 \<le> 0 \<and> sid = fst k then released_at out sid @ [b2] else released_at out sid)"
      by blast
    from knot have "k \<notin> fst ` set (filter (\<lambda>i. snd i \<noteq> None) todo)" by auto
    from fold_hold_undecided [OF f this] bus
    have b2: "map_of (identifier_bus h1) k = Some b2" by (simp add: AList.update_conv')
    from Cons.IH [OF f dist] obtain new where
      n1: "released_at out1 sid = released_at out' sid @ new"
      and n2: "list_all2 (\<lambda>item b'. map_of (identifier_bus h1) (fst item) = Some b')
                 (filter (\<lambda>i. hold_finished i \<and> fst (fst i) = sid) todo) new" by blast
    show ?thesis
    proof (cases "ht - 1 \<le> 0 \<and> sid = fst k")
      case True
      with n1 n2 out' b2 item Some show ?thesis
        by (intro exI [of _ "b2 # new"]) (simp add: hold_finished_pair)
    next
      case False
      with n1 n2 out' item Some show ?thesis
        by (intro exI [of _ new]) (auto simp: hold_finished_pair)
    qed
  qed
qed

text \<open>
  The deviations of a tick with a schedule: every bus released at a stop carries, and
  the holder log stores under its key, the deviation of \<open>t\<close> from the virtual departure
  shifted by the headway times the number of departures logged before its own.
\<close>

lemma operation_epsilon:
  assumes "operation t h = Inr (released, h')"
    and "distinct (map fst (identifier_time h))"
    and "holder_has_schedule h"
  shows "list_all2
          (\<lambda>item b'. \<exists>b0 vt.
               map_of (identifier_bus h) (fst item) = Some b0
             \<and> map_of (virtual_bus_stop_departure_time (bus_log b0)) sid = Some vt
             \<and> map_of (stop_epsilon_departure (bus_log b')) sid =
                 Some (of_int t - (vt + schedule_headway (bus_log b0)
                   * of_nat (length (dd2_lookup (route_stop_departure_bus_id_seq (holder_log h))
                                       (fst (snd (fst item))) sid)
                             + length (finished_before (identifier_time h) (fst item)))))
             \<and> map_of (dd2_lookup (route_stop_bus_epsilon_departure (holder_log h'))
                         (fst (snd (fst item))) sid) (snd (snd (fst item))) =
                 map_of (stop_epsilon_departure (bus_log b')) sid)
          (filter (\<lambda>i. hold_finished i \<and> fst (fst i) = sid) (identifier_time h))
          (released_at released sid)"
proof -
  let ?items = "identifier_time h"
  from assms(1) obtain h1 rm where
    f: "fold_err (hold_step t) ?items (h, [], []) = Inr (h1, released, rm)"
    and g: "fold_err remove_bus rm h1 = Inr h'"
    by (auto simp: operation_def bind_err_def split: sum.splits prod.splits)
  from fold_remove_bus [OF g] have lg: "holder_log h' = holder_log h1" by simp
  from fold_hold_same_bus [OF f assms(2), of sid]
  have same: "list_all2 (\<lambda>item b'. map_of (identifier_bus h1) (fst item) = Some b')
            (filter (\<lambda>i. hold_finished i \<and> fst (fst i) = sid) ?items)
            (released_at released sid)"
    by (auto simp: released_at_def)
  show ?thesis
  proof (rule list.rel_mono_strong [OF same])
    fix item b'
    assume mem: "item \<in> set (filter (\<lambda>i. hold_finished i \<and> fst (fst i) = sid) ?items)"
      and b': "map_of (identifier_bus h1) (fst item) = Some b'"
    obtain s r bid v where item: "item = ((s, r, bid), v)" by (cases item) auto
    from mem item obtain ht where v: "v = Some ht" and fin: "ht - 1 \<le> 0" and s: "s = sid"
      and inn: "((sid, r, bid), Some ht) \<in> set ?items"
      by (cases v) (auto simp: hold_finished_pair)
    from fold_hold_epsilon [OF f assms(2,3) inn fin] b' item s obtain b0 vt where
      "map_of (identifier_bus h) (sid, r, bid) = Some b0"
      "map_of (virtual_bus_stop_departure_time (bus_log b0)) sid = Some vt"
      "map_of (stop_epsilon_departure (bus_log b')) sid =
        Some (of_int t - (vt + schedule_headway (bus_log b0)
          * of_nat (length (dd2_lookup (route_stop_departure_bus_id_seq (holder_log h)) r sid)
                    + length (finished_before ?items (sid, r, bid)))))"
      "map_of (dd2_lookup (route_stop_bus_epsilon_departure (holder_log h1)) r sid) bid =
        Some (of_int t - (vt + schedule_headway (bus_log b0)
          * of_nat (length (dd2_lookup (route_stop_departure_bus_id_seq (holder_log h)) r sid)
                    + length (finished_before ?items (sid, r, bid)))))"
      by auto
    then show "\<exists>b0 vt.
               map_of (identifier_bus h) (fst item) = Some b0
             \<and> map_of (virtual_bus_stop_departure_time (bus_log b0)) sid = Some vt
             \<and> map_of (stop_epsilon_departure (bus_log b')) sid =
                 Some (of_int t - (vt + schedule_headway (bus_log b0)
                   * of_nat (length (dd2_lookup (route_stop_departure_bus_id_seq (holder_log h))
                                       (fst (snd (fst item))) sid)
                             + length (finished_before (identifier_time h) (fst item)))))
             \<and> map_of (dd2_lookup (route_stop_bus_epsilon_departure (holder_log h'))
                         (fst (snd (fst item))) sid) (snd (snd (fst item))) =
                 map_of (stop_epsilon_departure (bus_log b')) sid"
      by (intro exI [of _ b0] exI [of _ vt]) (simp add: item s lg)
  qed
qed

text \<open>The hold times after a tick, in closed form.\<close>

lemma operation_times:
  assumes "operation t h = Inr (released, h')"
    and "distinct (map fst (identifier_time h))"
  shows "identifier_time h' =
           map decremented (filter (\<lambda>i. \<not> hold_finished i) (identifier_time h))"
proof -
  let ?items = "identifier_time h"
  from assms(1) obtain h1 rm where
    f: "fold_err (hold_step t) ?items (h, [], []) = Inr (h1, released, rm)"
    and g: "fold_err remove_bus rm h1 = Inr h'"
    by (auto simp: operation_def bind_err_def split: sum.splits prod.splits)
  from fold_hold_times [OF f, of "[]"] assms(2)
  have t1: "identifier_time h1 = map decremented ?items"
    and rm: "rm = map fst (filter hold_finished ?items)"
    by simp_all
  note r = fold_remove_bus [OF g]
  have inrm: "fst i \<in> set rm \<longleftrightarrow> hold_finished i" if "i \<in> set ?items" for i
  proof
    assume "fst i \<in> set rm"
    then obtain j where j: "j \<in> set ?items" "hold_finished j" "fst j = fst i"
      unfolding rm by auto
    with that assms(2) have "j = i"
      by (metis eq_key_imp_eq_value prod.collapse)
    with j show "hold_finished i" by simp
  next
    assume "hold_finished i"
    with that show "fst i \<in> set rm" unfolding rm by auto
  qed
  have "filter (\<lambda>i. fst i \<notin> set rm) (map decremented ?items)
      = map decremented (filter (\<lambda>i. fst i \<notin> set rm) ?items)"
    by (simp add: filter_map comp_def decremented_def)
  also have "filter (\<lambda>i. fst i \<notin> set rm) ?items = filter (\<lambda>i. \<not> hold_finished i) ?items"
    by (rule filter_cong) (simp_all add: inrm)
  finally show ?thesis using r t1 by simp
qed

text \<open>
  C2. A tick of \<open>Holder.operation\<close> that returns, on a holder whose two dictionaries have
  the same distinct keys: every assigned hold time is decremented by exactly one, and
  the entries whose decremented time is zero or below are removed from both
  dictionaries; the undecided entries keep their \<open>None\<close> and their bus untouched. The
  buses released at a stop are, in the order of registration, exactly the buses of the
  finished entries of that stop, each with its departure at \<open>t\<close> recorded in its running
  log; the holder log gains, per route and stop, the ids of those buses and the time
  \<open>t\<close> for each. With a schedule the departure deviation of every released bus is
  recorded, in its running log and under its key in the holder log: \<open>t\<close> minus the
  virtual departure of the bus at the stop shifted by the headway times the number of
  departures logged for its route at the stop before its own.
\<close>

theorem operation_spec:
  assumes "operation t h = Inr (released, h')"
    and "distinct (map fst (identifier_time h))"
    and "map fst (identifier_bus h) = map fst (identifier_time h)"
  shows "identifier_time h' =
           map decremented (filter (\<lambda>i. \<not> hold_finished i) (identifier_time h))
    \<and> map fst (identifier_bus h') = map fst (identifier_time h')
    \<and> (\<forall>k ht. map_of (identifier_time h) k = Some (Some ht) \<longrightarrow>
          map_of (identifier_time h') k = (if ht - 1 \<le> 0 then None else Some (Some (ht - 1))))
    \<and> (\<forall>k. map_of (identifier_time h) k = Some None \<longrightarrow>
          map_of (identifier_time h') k = Some None
          \<and> map_of (identifier_bus h') k = map_of (identifier_bus h) k)
    \<and> (\<forall>sid. list_all2
          (\<lambda>item b'. \<exists>b0. map_of (identifier_bus h) (fst item) = Some b0 \<and> departed t sid b0 b')
          (filter (\<lambda>i. hold_finished i \<and> fst (fst i) = sid) (identifier_time h))
          (released_at released sid))
    \<and> (\<forall>r s.
          dd2_lookup (route_stop_departure_bus_id_seq (holder_log h')) r s =
            dd2_lookup (route_stop_departure_bus_id_seq (holder_log h)) r s
            @ map (\<lambda>i. snd (snd (fst i)))
                (filter (\<lambda>i. hold_finished i \<and> fst (snd (fst i)) = r \<and> fst (fst i) = s)
                   (identifier_time h))
          \<and> dd2_lookup (route_stop_departure_time_seq (holder_log h')) r s =
            dd2_lookup (route_stop_departure_time_seq (holder_log h)) r s
            @ map (\<lambda>i. of_int t)
                (filter (\<lambda>i. hold_finished i \<and> fst (snd (fst i)) = r \<and> fst (fst i) = s)
                   (identifier_time h)))
    \<and> (holder_has_schedule h \<longrightarrow> (\<forall>sid. list_all2
          (\<lambda>item b'. \<exists>b0 vt.
               map_of (identifier_bus h) (fst item) = Some b0
             \<and> map_of (virtual_bus_stop_departure_time (bus_log b0)) sid = Some vt
             \<and> map_of (stop_epsilon_departure (bus_log b')) sid =
                 Some (of_int t - (vt + schedule_headway (bus_log b0)
                   * of_nat (length (dd2_lookup (route_stop_departure_bus_id_seq (holder_log h))
                                       (fst (snd (fst item))) sid)
                             + length (finished_before (identifier_time h) (fst item)))))
             \<and> map_of (dd2_lookup (route_stop_bus_epsilon_departure (holder_log h'))
                         (fst (snd (fst item))) sid) (snd (snd (fst item))) =
                 map_of (stop_epsilon_departure (bus_log b')) sid)
          (filter (\<lambda>i. hold_finished i \<and> fst (fst i) = sid) (identifier_time h))
          (released_at released sid)))"
proof -
  let ?items = "identifier_time h"
  from assms(1) obtain h1 rm where
    f: "fold_err (hold_step t) ?items (h, [], []) = Inr (h1, released, rm)"
    and g: "fold_err remove_bus rm h1 = Inr h'"
    by (auto simp: operation_def bind_err_def split: sum.splits prod.splits)
  from fold_hold_times [OF f, of "[]"] assms(2)
  have t1: "identifier_time h1 = map decremented ?items"
    and rm: "rm = map fst (filter hold_finished ?items)"
    and k1: "map fst (identifier_bus h1) = map fst (identifier_bus h)"
    by simp_all
  note r = fold_remove_bus [OF g]
  have inrm: "fst i \<in> set rm \<longleftrightarrow> hold_finished i" if "i \<in> set ?items" for i
  proof
    assume "fst i \<in> set rm"
    then obtain j where j: "j \<in> set ?items" "hold_finished j" "fst j = fst i"
      unfolding rm by auto
    with that assms(2) have "j = i"
      by (metis eq_key_imp_eq_value prod.collapse)
    with j show "hold_finished i" by simp
  next
    assume "hold_finished i"
    with that show "fst i \<in> set rm" unfolding rm by auto
  qed
  have times: "identifier_time h' = map decremented (filter (\<lambda>i. \<not> hold_finished i) ?items)"
    by (rule operation_times [OF assms(1,2)])
  have fstdec: "map fst (map decremented xs) = map fst xs" for xs
    by (induction xs) (simp_all add: decremented_def)
  have "map fst (identifier_bus h') = filter (\<lambda>k. k \<notin> set rm) (map fst (identifier_bus h1))"
    using r by (simp add: filter_map comp_def)
  also have "\<dots> = filter (\<lambda>k. k \<notin> set rm) (map fst (identifier_time h1))"
    unfolding k1 assms(3) t1 fstdec ..
  also have "\<dots> = map fst (identifier_time h')"
    using r by (simp add: filter_map comp_def)
  finally have keys: "map fst (identifier_bus h') = map fst (identifier_time h')" .
  have decided: "\<forall>k ht. map_of ?items k = Some (Some ht) \<longrightarrow>
      map_of (identifier_time h') k = (if ht - 1 \<le> 0 then None else Some (Some (ht - 1)))"
    unfolding times
    by (simp add: map_of_decremented_unfinished [OF assms(2)] hold_finished_pair)
  have undecided: "\<forall>k. map_of ?items k = Some None \<longrightarrow>
          map_of (identifier_time h') k = Some None
          \<and> map_of (identifier_bus h') k = map_of (identifier_bus h) k"
  proof (intro allI impI conjI)
    fix k assume k: "map_of ?items k = Some None"
    then show "map_of (identifier_time h') k = Some None"
      unfolding times
      by (simp add: map_of_decremented_unfinished [OF assms(2)] hold_finished_pair)
    have nd: "k \<notin> fst ` set (filter (\<lambda>i. snd i \<noteq> None) ?items)"
    proof
      assume "k \<in> fst ` set (filter (\<lambda>i. snd i \<noteq> None) ?items)"
      then obtain v where "(k, v) \<in> set ?items" "v \<noteq> None" by auto
      with assms(2) k show False by simp
    qed
    from k have kin: "(k, None) \<in> set ?items" by (rule map_of_SomeD)
    from inrm [OF kin] have "k \<notin> set rm" by (simp add: hold_finished_def)
    then have "map_of (filter (\<lambda>i. fst i \<notin> set rm) (identifier_bus h1)) k
        = map_of (identifier_bus h1) k"
      by (rule map_of_filter_keep)
    with r fold_hold_undecided [OF f nd]
    show "map_of (identifier_bus h') k = map_of (identifier_bus h) k" by simp
  qed
  have rel: "\<forall>sid. list_all2
          (\<lambda>item b'. \<exists>b0. map_of (identifier_bus h) (fst item) = Some b0 \<and> departed t sid b0 b')
          (filter (\<lambda>i. hold_finished i \<and> fst (fst i) = sid) ?items)
          (released_at released sid)"
  proof
    fix sid
    from fold_hold_released [OF f assms(2), of sid]
    show "list_all2
          (\<lambda>item b'. \<exists>b0. map_of (identifier_bus h) (fst item) = Some b0 \<and> departed t sid b0 b')
          (filter (\<lambda>i. hold_finished i \<and> fst (fst i) = sid) ?items)
          (released_at released sid)"
      by (auto simp: released_at_def)
  qed
  have "holder_log h' = holder_log h1" using r by simp
  with fold_hold_log [OF f] have log: "\<forall>r s.
          dd2_lookup (route_stop_departure_bus_id_seq (holder_log h')) r s =
            dd2_lookup (route_stop_departure_bus_id_seq (holder_log h)) r s
            @ map (\<lambda>i. snd (snd (fst i)))
                (filter (\<lambda>i. hold_finished i \<and> fst (snd (fst i)) = r \<and> fst (fst i) = s) ?items)
          \<and> dd2_lookup (route_stop_departure_time_seq (holder_log h')) r s =
            dd2_lookup (route_stop_departure_time_seq (holder_log h)) r s
            @ map (\<lambda>i. of_int t)
                (filter (\<lambda>i. hold_finished i \<and> fst (snd (fst i)) = r \<and> fst (fst i) = s) ?items)"
    by simp
  have eps: "holder_has_schedule h \<longrightarrow> (\<forall>sid. list_all2
          (\<lambda>item b'. \<exists>b0 vt.
               map_of (identifier_bus h) (fst item) = Some b0
             \<and> map_of (virtual_bus_stop_departure_time (bus_log b0)) sid = Some vt
             \<and> map_of (stop_epsilon_departure (bus_log b')) sid =
                 Some (of_int t - (vt + schedule_headway (bus_log b0)
                   * of_nat (length (dd2_lookup (route_stop_departure_bus_id_seq (holder_log h))
                                       (fst (snd (fst item))) sid)
                             + length (finished_before (identifier_time h) (fst item)))))
             \<and> map_of (dd2_lookup (route_stop_bus_epsilon_departure (holder_log h'))
                         (fst (snd (fst item))) sid) (snd (snd (fst item))) =
                 map_of (stop_epsilon_departure (bus_log b')) sid)
          (filter (\<lambda>i. hold_finished i \<and> fst (fst i) = sid) (identifier_time h))
          (released_at released sid))"
    using operation_epsilon [OF assms(1,2)] by blast
  from times keys decided undecided rel log eps show ?thesis by (intro conjI)
qed

section \<open>At most one hold decision per registration\<close>

lemma set_hold_action_keeps_assigned:
  assumes "map_of (identifier_time h) k = Some (Some x)"
    and "fst (set_hold_action acts h) = None"
  shows "map_of (identifier_time (snd (set_hold_action acts h))) k = Some (Some x)"
  using assms
proof (induction acts arbitrary: h)
  case Nil
  then show ?case by simp
next
  case (Cons a acts)
  obtain k' v where a: "a = (k', v)" by (cases a)
  from Cons.prems(2) a have cur: "map_of (identifier_time h) k' = Some None"
    by (auto split: option.splits if_splits)
  with Cons.prems(1) have ne: "k \<noteq> k'" by auto
  let ?h = "h\<lparr>identifier_time := AList.update k' (Some v) (identifier_time h)\<rparr>"
  from ne Cons.prems(1) have "map_of (identifier_time ?h) k = Some (Some x)"
    by (simp add: AList.update_conv')
  moreover from Cons.prems(2) a cur have "fst (set_hold_action acts ?h) = None" by simp
  ultimately have "map_of (identifier_time (snd (set_hold_action acts ?h))) k = Some (Some x)"
    by (rule Cons.IH)
  with a cur show ?case by simp
qed

lemma set_hold_action_assigns:
  assumes "fst (set_hold_action acts h) = None" and "k \<in> fst ` set acts"
  shows "\<exists>x. map_of (identifier_time (snd (set_hold_action acts h))) k = Some (Some x)"
  using assms
proof (induction acts arbitrary: h)
  case Nil
  then show ?case by simp
next
  case (Cons a acts)
  obtain k' v where a: "a = (k', v)" by (cases a)
  from Cons.prems(1) a have cur: "map_of (identifier_time h) k' = Some None"
    by (auto split: option.splits if_splits)
  let ?h = "h\<lparr>identifier_time := AList.update k' (Some v) (identifier_time h)\<rparr>"
  from Cons.prems(1) a cur have ok: "fst (set_hold_action acts ?h) = None" by simp
  have eq: "set_hold_action (a # acts) h = set_hold_action acts ?h" using a cur by simp
  show ?case
  proof (cases "k = k'")
    case True
    have "map_of (identifier_time ?h) k = Some (Some v)"
      using True by (simp add: AList.update_conv')
    from set_hold_action_keeps_assigned [OF this ok] eq show ?thesis by auto
  next
    case False
    with Cons.prems(2) a have "k \<in> fst ` set acts" by auto
    from Cons.IH [OF ok this] eq show ?thesis by simp
  qed
qed

lemma operation_keeps_decided:
  assumes "operation t h = Inr (released, h')"
    and "distinct (map fst (identifier_time h))"
    and "map_of (identifier_time h) k \<noteq> Some None"
  shows "map_of (identifier_time h') k \<noteq> Some None \<and> distinct (map fst (identifier_time h'))"
proof -
  note times = operation_times [OF assms(1,2)]
  have keys: "map fst (identifier_time h')
      = map fst (filter (\<lambda>i. \<not> hold_finished i) (identifier_time h))"
    unfolding times by (induction "identifier_time h") (simp_all add: decremented_def)
  have d: "distinct (map fst (identifier_time h'))"
    unfolding keys using assms(2) by (rule distinct_map_filter)
  show ?thesis
  proof (cases "map_of (identifier_time h) k")
    case None
    then have "k \<notin> set (map fst (identifier_time h))" by (simp add: map_of_eq_None_iff)
    then have "k \<notin> set (map fst (identifier_time h'))" unfolding keys by auto
    then have "map_of (identifier_time h') k = None" by (simp add: map_of_eq_None_iff)
    with d show ?thesis by simp
  next
    case (Some v)
    with assms(3) obtain ht where v: "v = Some ht" by (cases v) auto
    from map_of_decremented_unfinished [OF assms(2) Some] v d show ?thesis
      unfolding times by (simp split: if_splits)
  qed
qed

lemma operations_keep_decided:
  assumes "operations ts h = Inr h2"
    and "distinct (map fst (identifier_time h))"
    and "map_of (identifier_time h) k \<noteq> Some None"
  shows "map_of (identifier_time h2) k \<noteq> Some None"
  using assms
proof (induction ts arbitrary: h)
  case Nil
  then show ?case by simp
next
  case (Cons t ts)
  from Cons.prems(1) obtain released h1 where op: "operation t h = Inr (released, h1)"
    and rest: "operations ts h1 = Inr h2"
    by (auto split: sum.splits)
  from operation_keeps_decided [OF op Cons.prems(2,3)] Cons.IH [OF rest] show ?case by simp
qed

text \<open>
  C1. \<open>Holder.add_bus\<close> registers the bus under (stop id, route id, bus id) with an
  undecided hold time, and the first hold time given for that key is accepted. Once a
  call of \<open>Holder.set_hold_action\<close> has returned having assigned a key, every later call
  whose map has that key raises, whether it follows at once or after any number of ticks
  of the holder (which leave the entry assigned or remove it); a later call for that key
  alone that follows at once fails the assertion and changes nothing.
\<close>

theorem set_hold_action_once:
  "(\<forall>h1. add_bus sid b t h = Inr h1 \<longrightarrow>
      map_of (identifier_time h1) (sid, route_id b, bus_id b) = Some None
      \<and> set_hold_action [((sid, route_id b, bus_id b), x)] h1 =
          (None, h1\<lparr>identifier_time :=
                     AList.update (sid, route_id b, bus_id b) (Some x) (identifier_time h1)\<rparr>))
   \<and> (fst (set_hold_action acts1 h) = None \<and> k \<in> fst ` set acts1 \<and> k \<in> fst ` set acts2 \<longrightarrow>
        fst (set_hold_action acts2 (snd (set_hold_action acts1 h))) \<noteq> None
        \<and> set_hold_action [(k, y)] (snd (set_hold_action acts1 h)) =
            (Some AssertionError, snd (set_hold_action acts1 h)))
   \<and> (fst (set_hold_action acts1 h) = None \<and> k \<in> fst ` set acts1 \<and> k \<in> fst ` set acts2
        \<and> distinct (map fst (identifier_time h))
        \<and> operations ts (snd (set_hold_action acts1 h)) = Inr h2 \<longrightarrow>
        fst (set_hold_action acts2 h2) \<noteq> None)"
proof (intro conjI allI impI)
  fix h1 assume "add_bus sid b t h = Inr h1"
  then show none: "map_of (identifier_time h1) (sid, route_id b, bus_id b) = Some None"
    by (auto simp: add_bus_def bind_err_def AList.update_conv' split: sum.splits)
  then show "set_hold_action [((sid, route_id b, bus_id b), x)] h1 =
          (None, h1\<lparr>identifier_time :=
                     AList.update (sid, route_id b, bus_id b) (Some x) (identifier_time h1)\<rparr>)"
    by simp
next
  assume a: "fst (set_hold_action acts1 h) = None \<and> k \<in> fst ` set acts1 \<and> k \<in> fst ` set acts2"
  then obtain x where x: "map_of (identifier_time (snd (set_hold_action acts1 h))) k = Some (Some x)"
    using set_hold_action_assigns by blast
  then have "map_of (identifier_time (snd (set_hold_action acts1 h))) k \<noteq> Some None" by simp
  with a show "fst (set_hold_action acts2 (snd (set_hold_action acts1 h))) \<noteq> None"
    by (intro set_hold_action_unassigned [of _ k]) simp_all
  from x show "set_hold_action [(k, y)] (snd (set_hold_action acts1 h)) =
            (Some AssertionError, snd (set_hold_action acts1 h))"
    by simp
next
  assume a: "fst (set_hold_action acts1 h) = None \<and> k \<in> fst ` set acts1 \<and> k \<in> fst ` set acts2
        \<and> distinct (map fst (identifier_time h))
        \<and> operations ts (snd (set_hold_action acts1 h)) = Inr h2"
  then obtain x where x: "map_of (identifier_time (snd (set_hold_action acts1 h))) k = Some (Some x)"
    using set_hold_action_assigns by blast
  then have n: "map_of (identifier_time (snd (set_hold_action acts1 h))) k \<noteq> Some None" by simp
  from a have d: "distinct (map fst (identifier_time (snd (set_hold_action acts1 h))))"
    by (simp add: set_hold_action_keys)
  from a have ops: "operations ts (snd (set_hold_action acts1 h)) = Inr h2" by simp
  from operations_keep_decided [OF ops d n] a
  show "fst (set_hold_action acts2 h2) \<noteq> None"
    by (intro set_hold_action_unassigned [of _ k]) simp_all
qed

section \<open>The holder scenario\<close>

lemmas holder_eval =
  operation_def hold_step_def bind_err_def getitem_def holder_release_def
  record_when_departure_def record_when_bus_departure_def update_location_def set_status_def
  demo_bus_def demo_node_distance_def new_bus_running_log_def Let_def
  dd2_getitem_def dd_getitem_def remove_bus_def pop_item_def

lemma demo_holder_wf:
  "distinct (map fst (identifier_time demo_holder))"
  "map fst (identifier_bus demo_holder) = map fst (identifier_time demo_holder)"
  by (simp_all add: demo_holder_def)

lemma demo_operation_returns: "\<exists>released h'. operation 100 demo_holder = Inr (released, h')"
  by (simp add: demo_holder_def holder_eval split: prod.splits)

lemma demo_operations_return:
  "\<exists>h2. operations [100, 101]
           (snd (set_hold_action [((''s1'', ''B21'', ''2''), 30)] demo_holder)) = Inr h2"
  by (simp add: demo_holder_def holder_eval split: prod.splits)

lemma demo_add_bus_returns: "\<exists>h1. add_bus ''s1'' (demo_bus ''4'') 7 demo_holder = Inr h1"
  by (simp add: add_bus_def holder_eval)

theorem set_hold_action_unregistered_witness:
  "fst (set_hold_action [((''s1'', ''B21'', ''2''), 30), ((''s9'', ''B21'', ''7''), 12)] demo_holder)
     = Some KeyError
   \<and> map fst (identifier_time (snd (set_hold_action
        [((''s1'', ''B21'', ''2''), 30), ((''s9'', ''B21'', ''7''), 12)] demo_holder)))
     = [(''s1'', ''B21'', ''1''), (''s1'', ''B21'', ''2''), (''s2'', ''B21'', ''3'')]
   \<and> set_hold_action [((''s9'', ''B21'', ''7''), 12)] demo_holder = (Some KeyError, demo_holder)"
proof -
  let ?k = "(''s9'', ''B21'', ''7'')"
  let ?acts = "[((''s1'', ''B21'', ''2''), 30), (?k, 12)]"
  have un: "map_of (identifier_time demo_holder) ?k = None"
    and kin: "?k \<in> fst ` set ?acts"
    and pre: "distinct (map fst ?acts)
      \<and> (\<forall>k' \<in> fst ` set ?acts. \<forall>x. map_of (identifier_time demo_holder) k' \<noteq> Some (Some x))"
    and keys: "map fst (identifier_time demo_holder)
      = [(''s1'', ''B21'', ''1''), (''s1'', ''B21'', ''2''), (''s2'', ''B21'', ''3'')]"
    by (simp_all add: demo_holder_def)
  note th = set_hold_action_unregistered [OF un kin, of 12]
  from th pre have "fst (set_hold_action ?acts demo_holder) = Some KeyError" by blast
  moreover from th keys have "map fst (identifier_time (snd (set_hold_action ?acts demo_holder)))
     = [(''s1'', ''B21'', ''1''), (''s1'', ''B21'', ''2''), (''s2'', ''B21'', ''3'')]" by simp
  moreover from th have "set_hold_action [(?k, 12)] demo_holder = (Some KeyError, demo_holder)"
    by blast
  ultimately show ?thesis by blast
qed

theorem set_hold_action_once_witness:
  "(\<exists>h1. add_bus ''s1'' (demo_bus ''4'') 7 demo_holder = Inr h1
        \<and> map_of (identifier_time h1) (''s1'', ''B21'', ''4'') = Some None
        \<and> fst (set_hold_action [((''s1'', ''B21'', ''4''), 30)] h1) = None)
   \<and> fst (set_hold_action [((''s1'', ''B21'', ''2''), 30)] demo_holder) = None
   \<and> set_hold_action [((''s1'', ''B21'', ''2''), 5)]
        (snd (set_hold_action [((''s1'', ''B21'', ''2''), 30)] demo_holder))
      = (Some AssertionError, snd (set_hold_action [((''s1'', ''B21'', ''2''), 30)] demo_holder))
   \<and> (\<exists>h2. operations [100, 101]
               (snd (set_hold_action [((''s1'', ''B21'', ''2''), 30)] demo_holder)) = Inr h2
          \<and> fst (set_hold_action [((''s1'', ''B21'', ''2''), 5)] h2) \<noteq> None)"
proof -
  let ?k = "(''s1'', ''B21'', ''2'')"
  let ?a1 = "[(?k, 30 :: real)]"
  let ?a2 = "[(?k, 5 :: real)]"
  note th = set_hold_action_once [of "''s1''" "demo_bus ''4''" 7 demo_holder 30 ?a1 ?k ?a2 5]
  obtain h1 where h1: "add_bus ''s1'' (demo_bus ''4'') 7 demo_holder = Inr h1"
    using demo_add_bus_returns by blast
  have bid: "route_id (demo_bus ''4'') = ''B21''" "bus_id (demo_bus ''4'') = ''4''"
    by (simp_all add: demo_bus_def)
  from th [THEN conjunct1, rule_format, OF h1] bid
  have p1: "map_of (identifier_time h1) (''s1'', ''B21'', ''4'') = Some None
        \<and> fst (set_hold_action [((''s1'', ''B21'', ''4''), 30)] h1) = None"
    by simp
  have ok: "fst (set_hold_action ?a1 demo_holder) = None"
    by (simp add: demo_holder_def)
  have pre: "fst (set_hold_action ?a1 demo_holder) = None \<and> ?k \<in> fst ` set ?a1 \<and> ?k \<in> fst ` set ?a2"
    using ok by simp
  from th [THEN conjunct2, THEN conjunct1, rule_format, OF pre]
  have p2: "set_hold_action ?a2 (snd (set_hold_action ?a1 demo_holder))
      = (Some AssertionError, snd (set_hold_action ?a1 demo_holder))" by blast
  obtain h2 where h2: "operations [100, 101] (snd (set_hold_action ?a1 demo_holder)) = Inr h2"
    using demo_operations_return by blast
  have pre3: "fst (set_hold_action ?a1 demo_holder) = None \<and> ?k \<in> fst ` set ?a1
      \<and> ?k \<in> fst ` set ?a2 \<and> distinct (map fst (identifier_time demo_holder))
      \<and> operations [100, 101] (snd (set_hold_action ?a1 demo_holder)) = Inr h2"
    using ok h2 demo_holder_wf(1) by simp
  from set_hold_action_once [of "''s1''" "demo_bus ''4''" 7 demo_holder 30 ?a1 ?k ?a2 5
         "[100, 101]" h2, THEN conjunct2, THEN conjunct2, rule_format, OF pre3]
  have p3: "fst (set_hold_action ?a2 h2) \<noteq> None" .
  from h1 p1 ok p2 h2 p3 show ?thesis by blast
qed

lemma demo_holder_log:
  "dd2_lookup (route_stop_departure_bus_id_seq (new_holder_log demo_virtual_bus True))
     ''B21'' ''s1'' = [''0'']"
  by (simp add: new_holder_log_def demo_virtual_bus_def seed_departure_def dd2_lookup_setitem)

theorem operation_spec_witness:
  "\<exists>released h'. operation 100 demo_holder = Inr (released, h')
     \<and> identifier_time h' = [((''s1'', ''B21'', ''2''), None), ((''s2'', ''B21'', ''3''), Some (3 / 2))]
     \<and> map fst (identifier_bus h') = [(''s1'', ''B21'', ''2''), (''s2'', ''B21'', ''3'')]
     \<and> map bus_id (released_at released ''s1'') = [''1'']
     \<and> released_at released ''s2'' = []
     \<and> map (\<lambda>b. map_of (stop_epsilon_departure (bus_log b)) ''s1'') (released_at released ''s1'')
         = [Some (- (941 / 5))]
     \<and> map_of (dd2_lookup (route_stop_bus_epsilon_departure (holder_log h')) ''B21'' ''s1'') ''1''
         = Some (- (941 / 5))"
proof -
  obtain released h' where op: "operation 100 demo_holder = Inr (released, h')"
    using demo_operation_returns by blast
  note th = operation_spec [OF op demo_holder_wf]
  have items: "identifier_time demo_holder =
        [((''s1'', ''B21'', ''1''), Some 1),
         ((''s1'', ''B21'', ''2''), None),
         ((''s2'', ''B21'', ''3''), Some (5 / 2))]"
    by (simp add: demo_holder_def)
  from th have "identifier_time h' =
      map decremented (filter (\<lambda>i. \<not> hold_finished i) (identifier_time demo_holder))" by blast
  then have t: "identifier_time h' =
      [((''s1'', ''B21'', ''2''), None), ((''s2'', ''B21'', ''3''), Some (3 / 2))]"
    by (simp add: items hold_finished_pair decremented_pair)
  from th have "map fst (identifier_bus h') = map fst (identifier_time h')" by blast
  with t have b: "map fst (identifier_bus h') = [(''s1'', ''B21'', ''2''), (''s2'', ''B21'', ''3'')]"
    by simp
  from th have rel: "list_all2
          (\<lambda>item b'. \<exists>b0. map_of (identifier_bus demo_holder) (fst item) = Some b0
              \<and> departed 100 sid b0 b')
          (filter (\<lambda>i. hold_finished i \<and> fst (fst i) = sid) (identifier_time demo_holder))
          (released_at released sid)" for sid
    by blast
  from rel [of "''s1''"] have r1: "map bus_id (released_at released ''s1'') = [''1'']"
    by (auto simp: items hold_finished_pair list_all2_Cons1 departed_def demo_holder_def
        set_status_def demo_bus_def)
  from rel [of "''s2''"] have r2: "released_at released ''s2'' = []"
    by (simp add: items hold_finished_pair)
  have sched: "holder_has_schedule demo_holder" by (simp add: demo_holder_def)
  have fb: "finished_before (identifier_time demo_holder) (''s1'', ''B21'', ''1'') = []"
    by (simp add: items finished_before_def)
  have b0: "map_of (identifier_bus demo_holder) (''s1'', ''B21'', ''1'') =
              Some (set_status holding (demo_bus ''1''))"
    by (simp add: demo_holder_def)
  have lg: "holder_log demo_holder = new_holder_log demo_virtual_bus True"
    by (simp add: demo_holder_def)
  note e = th [THEN conjunct2, THEN conjunct2, THEN conjunct2, THEN conjunct2, THEN conjunct2,
      THEN conjunct2, THEN mp, OF sched, THEN spec, of "''s1''"]
  from e obtain b' where rl: "released_at released ''s1'' = [b']"
    and e1: "map_of (stop_epsilon_departure (bus_log b')) ''s1'' = Some (- (941 / 5))"
    and e2: "map_of (dd2_lookup (route_stop_bus_epsilon_departure (holder_log h')) ''B21'' ''s1'')
               ''1'' = map_of (stop_epsilon_departure (bus_log b')) ''s1''"
    by (auto simp: items hold_finished_pair list_all2_Cons1 b0 fb [unfolded items] lg
        demo_holder_log
        set_status_def demo_bus_def new_bus_running_log_def)
  from op t b r1 r2 rl e1 e2 show ?thesis
    by (intro exI [of _ released] exI [of _ h']) simp
qed

section \<open>Link travel time\<close>

text \<open>
  C8. Whatever value is sampled for the travel time, \<open>DistributionLink.enter_bus\<close> uses
  the sample clamped to at least 10 seconds: a non-positive sample becomes 10, the time
  used is strictly positive, the division never fails, and the call returns for every
  sample when the link has its distribution and the bus knows the head node. The speed
  of the bus is the link length divided by that time, hence positive for a link of
  positive length.
\<close>

theorem enter_bus_travel_time:
  "0 < clamp_tt sample
   \<and> (sample \<le> 0 \<longrightarrow> clamp_tt sample = 10)
   \<and> enter_bus sample b t l \<noteq> Inl ZeroDivisionError
   \<and> (tt_type l = ''normal'' \<and> head_node l \<in> fst ` set (node_distance b) \<longrightarrow>
        (\<exists>b' l'. enter_bus sample b t l = Inr (b', l')))
   \<and> (\<forall>b' l'. enter_bus sample b t l = Inr (b', l') \<longrightarrow>
        speed b' = link_length l / clamp_tt sample
        \<and> (0 < link_length l \<longrightarrow> 0 < speed b')
        \<and> map_of (link_tt_deviation (bus_log b')) (link_id l) = Some (clamp_tt sample - tt_mean l)
        \<and> status b' = running_on_link
        \<and> link_buses l' = link_buses l @ [b'])"
proof (intro conjI impI allI)
  show pos: "0 < clamp_tt sample" by (simp add: clamp_tt_def)
  show "clamp_tt sample = 10" if "sample \<le> 0" using that by (simp add: clamp_tt_def)
  from pos have nz: "clamp_tt sample \<noteq> 0" by simp
  show "enter_bus sample b t l \<noteq> Inl ZeroDivisionError"
    using nz
    by (auto simp: enter_bus_def Let_def update_location_def bind_err_def getitem_def
        split: sum.splits option.splits)
  show "\<exists>b' l'. enter_bus sample b t l = Inr (b', l')"
    if "tt_type l = ''normal'' \<and> head_node l \<in> fst ` set (node_distance b)"
  proof -
    from that obtain d where "map_of (node_distance b) (head_node l) = Some d"
      using map_of_eq_None_iff [of "node_distance b" "head_node l"] by auto
    with that nz show ?thesis
      by (simp add: enter_bus_def Let_def update_location_def bind_err_def getitem_def)
  qed
  fix b' l' assume r: "enter_bus sample b t l = Inr (b', l')"
  with nz obtain d tr where
    b': "b' = b\<lparr>bus_log := record_when_enter_link (link_id l) (clamp_tt sample - tt_mean l) (bus_log b),
                 speed := link_length l / clamp_tt sample,
                 loc_relative_to_terminal := d, trajectory := tr, status := running_on_link\<rparr>"
    and l': "l' = l\<lparr>link_buses := link_buses l @ [b'],
                    bus_link_loc := AList.update (route_id b, bus_id b) 0 (bus_link_loc l)\<rparr>"
    by (auto simp: enter_bus_def Let_def update_location_def bind_err_def getitem_def
        set_status_def split: sum.splits option.splits if_splits)
  from b' show s: "speed b' = link_length l / clamp_tt sample" by simp
  show "0 < speed b'" if "0 < link_length l" using that pos s by simp
  from b' show "map_of (link_tt_deviation (bus_log b')) (link_id l)
      = Some (clamp_tt sample - tt_mean l)"
    by (simp add: record_when_enter_link_def AList.update_conv')
  from b' show "status b' = running_on_link" by simp
  from l' show "link_buses l' = link_buses l @ [b']" by simp
qed

theorem enter_bus_travel_time_witness:
  "clamp_tt (- 3) = 10
   \<and> (\<exists>b' l'. enter_bus (- 3) (demo_bus ''1'') 218 demo_link = Inr (b', l')
         \<and> speed b' = 100 \<and> 0 < speed b')"
proof -
  note th = enter_bus_travel_time [of "- 3" "demo_bus ''1''" 218 demo_link]
  have pre: "tt_type demo_link = ''normal''
      \<and> head_node demo_link \<in> fst ` set (node_distance (demo_bus ''1''))"
    by (simp add: demo_link_def demo_bus_def demo_node_distance_def)
  from th have c: "clamp_tt (- 3) = 10" by simp
  from th pre obtain b' l' where r: "enter_bus (- 3) (demo_bus ''1'') 218 demo_link = Inr (b', l')"
    by blast
  with th have "speed b' = link_length demo_link / clamp_tt (- 3)
      \<and> (0 < link_length demo_link \<longrightarrow> 0 < speed b')" by blast
  with c have "speed b' = 100 \<and> 0 < speed b'" by (simp add: demo_link_def)
  with c r show ?thesis by (intro conjI exI [of _ b'] exI [of _ l']) simp_all
qed

section \<open>Boarding truncation\<close>

lemma group_paxs_getitem: "fst (dd_getitem [] (route_group_paxs q) g) = group_paxs q g"
  by (simp add: fst_dd_getitem group_paxs_def)

lemma board_paxs_arrival:
  assumes "queue_board_truncation q = ''arrival''"
    and "map_of (stop_arrival_time (bus_log b)) (queue_stop_id q) = Some a"
  shows "board_paxs q b ps = Inr (filter (\<lambda>p. arrival_time p < a) ps)"
  using assms
  by (simp add: board_paxs_def filter_pax_arrival_after_bus_arrival_def bind_err_def getitem_def)

lemma board_paxs_rtd:
  assumes "queue_board_truncation q = ''rtd''"
  shows "board_paxs q b ps = Inr ps"
  using assms by (simp add: board_paxs_def)

lemma remaining_in_groups_sum:
  assumes "\<And>g. board_paxs q b (group_paxs q g) = Inr (f g)"
  shows "remaining_in_groups q b gs n = Inr (n + sum_list (map (\<lambda>g. length (f g)) gs))"
  by (induction gs arbitrary: n) (simp_all add: group_paxs_getitem assms)

text \<open>
  C7. Under \<open>'arrival'\<close> the passengers of a group that may board are exactly those whose
  arrival time is strictly less than the arrival time the bus recorded at this stop;
  under \<open>'rtd'\<close> they are the whole group. An idle bus that boards takes the first of
  them from the first group serving its route (with the boarding time stamped) and that
  passenger leaves the queue; with none of them nobody boards. The remaining obligations
  counted by \<open>check_remaining_pax_num\<close> are the numbers of these passengers over the
  served groups.
\<close>

theorem board_truncation_spec:
  "(queue_board_truncation q = ''arrival'' \<longrightarrow>
      (\<forall>e. board_paxs q b ps = Inr e \<longrightarrow>
         (ps = [] \<and> e = [])
         \<or> (\<exists>a. map_of (stop_arrival_time (bus_log b)) (queue_stop_id q) = Some a
               \<and> e = filter (\<lambda>p. arrival_time p < a) ps))
      \<and> (\<forall>a. map_of (stop_arrival_time (bus_log b)) (queue_stop_id q) = Some a \<longrightarrow>
           board_paxs q b ps = Inr (filter (\<lambda>p. arrival_time p < a) ps)
           \<and> check_remaining_pax_num q b =
               Inr (sum_list (map (\<lambda>g. length (filter (\<lambda>p. arrival_time p < a) (group_paxs q g)))
                      (get_served_groups q (route_id b))))))
   \<and> (queue_board_truncation q = ''rtd'' \<longrightarrow>
        board_paxs q b ps = Inr ps
        \<and> check_remaining_pax_num q b =
            Inr (sum_list (map (\<lambda>g. length (group_paxs q g)) (get_served_groups q (route_id b)))))
   \<and> (board_status b = idle \<longrightarrow>
        (\<forall>b' q'. board q b t = Inr (b', q') \<longrightarrow>
           (case get_served_groups q (route_id b) of
              [] \<Rightarrow> paxs b' = paxs b \<and> q' = q
            | g # gs \<Rightarrow>
                (case board_paxs q b (group_paxs q g) of
                   Inl e \<Rightarrow> False
                 | Inr [] \<Rightarrow> paxs b' = paxs b \<and> group_paxs q' g = group_paxs q g
                 | Inr (p # rest) \<Rightarrow>
                     paxs b' = paxs b @ [p\<lparr>board_time := Some t\<rparr>]
                     \<and> group_paxs q' g = remove1 p (group_paxs q g)))))"
proof (intro conjI impI allI)
  fix e assume arr: "queue_board_truncation q = ''arrival''" and e: "board_paxs q b ps = Inr e"
  show "(ps = [] \<and> e = [])
         \<or> (\<exists>a. map_of (stop_arrival_time (bus_log b)) (queue_stop_id q) = Some a
               \<and> e = filter (\<lambda>p. arrival_time p < a) ps)"
    using arr e
    by (auto simp: board_paxs_def filter_pax_arrival_after_bus_arrival_def bind_err_def
        getitem_def split: if_splits option.splits)
next
  fix a assume arr: "queue_board_truncation q = ''arrival''"
    and a: "map_of (stop_arrival_time (bus_log b)) (queue_stop_id q) = Some a"
  show "board_paxs q b ps = Inr (filter (\<lambda>p. arrival_time p < a) ps)"
    by (rule board_paxs_arrival [OF arr a])
  show "check_remaining_pax_num q b =
      Inr (sum_list (map (\<lambda>g. length (filter (\<lambda>p. arrival_time p < a) (group_paxs q g)))
             (get_served_groups q (route_id b))))"
    unfolding check_remaining_pax_num_def
    using remaining_in_groups_sum
      [of q b "\<lambda>g. filter (\<lambda>p. arrival_time p < a) (group_paxs q g)" _ 0]
    by (simp add: board_paxs_arrival [OF arr a])
next
  assume rtd: "queue_board_truncation q = ''rtd''"
  show "board_paxs q b ps = Inr ps" by (rule board_paxs_rtd [OF rtd])
  show "check_remaining_pax_num q b =
      Inr (sum_list (map (\<lambda>g. length (group_paxs q g)) (get_served_groups q (route_id b))))"
    unfolding check_remaining_pax_num_def
    using remaining_in_groups_sum [of q b "\<lambda>g. group_paxs q g" _ 0]
    by (simp add: board_paxs_rtd [OF rtd])
next
  fix b' q' assume idle: "board_status b = idle" and r: "board q b t = Inr (b', q')"
  show "case get_served_groups q (route_id b) of
              [] \<Rightarrow> paxs b' = paxs b \<and> q' = q
            | g # gs \<Rightarrow>
                (case board_paxs q b (group_paxs q g) of
                   Inl e \<Rightarrow> False
                 | Inr [] \<Rightarrow> paxs b' = paxs b \<and> group_paxs q' g = group_paxs q g
                 | Inr (p # rest) \<Rightarrow>
                     paxs b' = paxs b @ [p\<lparr>board_time := Some t\<rparr>]
                     \<and> group_paxs q' g = remove1 p (group_paxs q g))"
  proof (cases "get_served_groups q (route_id b)")
    case Nil
    with idle r show ?thesis by (simp add: board_def)
  next
    case (Cons g gs)
    obtain ps1 groups where dd: "dd_getitem [] (route_group_paxs q) g = (ps1, groups)"
      by (cases "dd_getitem [] (route_group_paxs q) g")
    with group_paxs_getitem [of q g] have ps1: "ps1 = group_paxs q g" by simp
    have groups: "map_of groups g' = (if g' = g \<and> map_of (route_group_paxs q) g = None
        then Some [] else map_of (route_group_paxs q) g')" for g'
      using map_of_dd_getitem [of "[]" "route_group_paxs q" g g'] dd by simp
    from idle r Cons dd have len: "length g = 1"
      by (auto simp: board_def split: if_splits)
    show ?thesis
    proof (cases "board_paxs q b (group_paxs q g)")
      case (Inl e)
      with idle r Cons dd ps1 len show ?thesis by (simp add: board_def bind_err_def)
    next
      case (Inr eligible)
      show ?thesis
      proof (cases eligible)
        case Nil
        with Inr idle r Cons dd ps1 len have "b' = b" "q' = q\<lparr>route_group_paxs := groups\<rparr>"
          by (simp_all add: board_def bind_err_def)
        with Cons Inr Nil show ?thesis
          by (simp add: group_paxs_def groups)
      next
        case (Cons p rest)
        with Inr idle r \<open>get_served_groups q (route_id b) = g # gs\<close> dd ps1 len
        obtain b2 where acc: "accumate_board_fraction (bus_board p t b) = Inr b2"
          and res: "b' = b2"
            "q' = q\<lparr>route_group_paxs := AList.update g (remove1 p (group_paxs q g)) groups\<rparr>"
          by (auto simp: board_def bind_err_def split: sum.splits)
        from acc have "paxs b2 = paxs (bus_board p t b)"
          by (auto simp: accumate_board_fraction_def Let_def split: if_splits option.splits)
        with res have "paxs b' = paxs b @ [p\<lparr>board_time := Some t\<rparr>]"
          by (simp add: bus_board_def)
        moreover from res have "group_paxs q' g = remove1 p (group_paxs q g)"
          by (simp add: group_paxs_def AList.update_conv')
        ultimately show ?thesis
          using \<open>get_served_groups q (route_id b) = g # gs\<close> Inr Cons by simp
      qed
    qed
  qed
qed

theorem board_truncation_spec_witness:
  "board_paxs (demo_queue ''arrival'') demo_arrived_bus
       (group_paxs (demo_queue ''arrival'') [''B21''])
     = Inr [demo_pax ''b'' 90, demo_pax ''c'' 95]
   \<and> check_remaining_pax_num (demo_queue ''arrival'') demo_arrived_bus = Inr 2
   \<and> check_remaining_pax_num (demo_queue ''rtd'') demo_arrived_bus = Inr 3
   \<and> (\<exists>b' q'. board (demo_queue ''arrival'') demo_arrived_bus 101 = Inr (b', q')
         \<and> paxs b' = [(demo_pax ''b'' 90)\<lparr>board_time := Some 101\<rparr>]
         \<and> group_paxs q' [''B21''] = [demo_pax ''a'' 100, demo_pax ''c'' 95])"
proof -
  let ?qa = "demo_queue ''arrival''" and ?qr = "demo_queue ''rtd''"
  let ?g = "[''B21'']"
  have tr: "queue_board_truncation ?qa = ''arrival''" "queue_board_truncation ?qr = ''rtd''"
    by (simp_all add: demo_queue_def)
  have a: "map_of (stop_arrival_time (bus_log demo_arrived_bus)) (queue_stop_id ?qa) = Some 100"
    by (simp add: demo_queue_def demo_arrived_bus_def)
  have served: "get_served_groups ?qa (route_id demo_arrived_bus) = [?g]"
    "get_served_groups ?qr (route_id demo_arrived_bus) = [?g]"
    by (simp_all add: get_served_groups_def demo_queue_def demo_arrived_bus_def demo_bus_def)
  have gp: "group_paxs ?qa ?g = [demo_pax ''a'' 100, demo_pax ''b'' 90, demo_pax ''c'' 95]"
    "group_paxs ?qr ?g = [demo_pax ''a'' 100, demo_pax ''b'' 90, demo_pax ''c'' 95]"
    by (simp_all add: group_paxs_def demo_queue_def)
  have at: "arrival_time (demo_pax pid x) = x" for pid x by (simp add: demo_pax_def)
  have idle: "board_status demo_arrived_bus = idle" "paxs demo_arrived_bus = []"
    by (simp_all add: demo_arrived_bus_def demo_bus_def)
  note th = board_truncation_spec [of ?qa demo_arrived_bus "group_paxs ?qa ?g" 101]
  from th [THEN conjunct1, rule_format, OF tr(1), THEN conjunct2, rule_format, OF a]
  have e: "board_paxs ?qa demo_arrived_bus (group_paxs ?qa ?g)
      = Inr [demo_pax ''b'' 90, demo_pax ''c'' 95]"
    and n: "check_remaining_pax_num ?qa demo_arrived_bus = Inr 2"
    by (simp_all add: gp at served)
  from board_truncation_spec [of ?qr demo_arrived_bus "[]" 101,
         THEN conjunct2, THEN conjunct1, rule_format, OF tr(2)]
  have n3: "check_remaining_pax_num ?qr demo_arrived_bus = Inr 3"
    by (simp add: gp served)
  have dd: "dd_getitem [] (route_group_paxs ?qa) ?g
      = ([demo_pax ''a'' 100, demo_pax ''b'' 90, demo_pax ''c'' 95], route_group_paxs ?qa)"
    by (simp add: dd_getitem_def demo_queue_def)
  have acc: "\<exists>b2. accumate_board_fraction (bus_board (demo_pax ''b'' 90) 101 demo_arrived_bus)
      = Inr b2"
    by (simp add: accumate_board_fraction_def bus_board_def demo_pax_def Let_def)
  have "\<exists>b' q'. board ?qa demo_arrived_bus 101 = Inr (b', q')"
    using acc by (auto simp: board_def served idle dd e [unfolded gp] bind_err_def)
  then obtain b' q' where r: "board ?qa demo_arrived_bus 101 = Inr (b', q')" by blast
  from th [THEN conjunct2, THEN conjunct2, rule_format, OF idle(1) r]
  have "paxs b' = paxs demo_arrived_bus @ [(demo_pax ''b'' 90)\<lparr>board_time := Some 101\<rparr>]
      \<and> group_paxs q' ?g = remove1 (demo_pax ''b'' 90) (group_paxs ?qa ?g)"
    by (simp only: served e list.case sum.case)
  then have "paxs b' = [(demo_pax ''b'' 90)\<lparr>board_time := Some 101\<rparr>]
      \<and> group_paxs q' ?g = [demo_pax ''a'' 100, demo_pax ''c'' 95]"
    by (simp add: idle gp demo_pax_def)
  with e n n3 r show ?thesis
    by (intro conjI exI [of _ b'] exI [of _ q']) simp_all
qed

section \<open>Schedule deviations\<close>

subsection \<open>Schedule deviations of the arrival, ready-to-depart and departure events\<close>

lemma record_when_arrival_props:
  assumes "record_when_arrival sid t cnt l = Inr (eps, l1)"
  shows "map_of (stop_arrival_time l1) sid = Some t"
    and "cnt = Some c \<Longrightarrow>
           \<exists>vt. map_of (virtual_bus_stop_arrival_time l) sid = Some vt
             \<and> eps = Some (of_int t - (vt + schedule_headway l * of_nat c))
             \<and> map_of (stop_epsilon_arrival l1) sid = eps"
  using assms
  by (auto simp: record_when_arrival_def bind_err_def getitem_def Let_def
      AList.update_conv' split: option.splits sum.splits)

lemma record_when_rtd_props:
  assumes "record_when_rtd sid t cnt l = Inr (eps, l1)"
  shows "map_of (stop_rtd_time l1) sid = Some t"
    and "cnt = Some c \<Longrightarrow>
           \<exists>vt. map_of (virtual_bus_stop_rtd_time l) sid = Some vt
             \<and> eps = Some (of_int t - (vt + schedule_headway l * of_nat c))
             \<and> map_of (stop_epsilon_rtd l1) sid = eps"
  using assms
  by (auto simp: record_when_rtd_def bind_err_def getitem_def Let_def
      AList.update_conv' split: option.splits sum.splits)

lemma getitem_Inr: "getitem d k = Inr v \<longleftrightarrow> map_of d k = Some v"
  by (simp add: getitem_def split: option.splits)

lemma dd_lookup_dd2_setitem:
  "dd_lookup (dd2_setitem d r s v) r' =
     (if r' = r then AList.update s v (dd_lookup d r) else dd_lookup d r')"
proof -
  obtain inner d1 where g1: "dd_getitem [] d r = (inner, d1)" by (cases "dd_getitem [] d r")
  have d1: "map_of d1 k = (if k = r \<and> map_of d r = None then Some [] else map_of d k)" for k
    using map_of_dd_getitem [of "[]" d r k] g1 by simp
  have inner: "inner = (case map_of d r of None \<Rightarrow> [] | Some x \<Rightarrow> x)"
    using fst_dd_getitem [of "[]" d r] g1 by simp
  have "dd2_setitem d r s v = AList.update r (AList.update s v inner) d1"
    by (simp add: dd2_setitem_def g1)
  then show ?thesis
    by (auto simp: dd_lookup_def AList.update_conv' d1 inner split: option.splits)
qed

lemma record_when_bus_arrival_props:
  assumes "record_when_bus_arrival r bid t (Some e) lg = Inr lg1"
    and "map_of (route_arrival_time_seq lg) r = Some seq"
  shows "map_of (route_arrival_time_seq lg1) r = Some (seq @ [of_int t])"
    and "map_of (dd_lookup (route_bus_epsilon_arrival lg1) r) bid = Some e"
  using assms
  by (auto simp: record_when_bus_arrival_def bind_err_def getitem_def AList.update_conv'
      dd_lookup_dd2_setitem split: option.splits)

lemma record_when_bus_rtd_props:
  assumes "record_when_bus_rtd r bid t (Some e) lg = Inr lg1"
    and "map_of (route_rtd_bus_id_seq lg) r = Some seq"
  shows "map_of (route_rtd_bus_id_seq lg1) r = Some (seq @ [bid])"
    and "map_of (dd_lookup (route_bus_epsilon_rtd lg1) r) bid = Some e"
  using assms
  by (auto simp: record_when_bus_rtd_def bind_err_def getitem_def AList.update_conv'
      dd_lookup_dd2_setitem split: option.splits)

lemma enter_stop_props:
  assumes "has_schedule s" and "enter_stop b t s = Inr s'"
  shows "\<exists>vt seq b'.
           map_of (virtual_bus_stop_arrival_time (bus_log b)) (stop_id s) = Some vt
         \<and> map_of (route_arrival_time_seq (stop_log s)) (route_id b) = Some seq
         \<and> entry_queue s' = entry_queue s @ [b']
         \<and> map_of (stop_epsilon_arrival (bus_log b')) (stop_id s) =
             Some (of_int t - (vt + schedule_headway (bus_log b) * of_nat (length seq)))
         \<and> map_of (dd_lookup (route_bus_epsilon_arrival (stop_log s')) (route_id b)) (bus_id b) =
             Some (of_int t - (vt + schedule_headway (bus_log b) * of_nat (length seq)))
         \<and> map_of (route_arrival_time_seq (stop_log s')) (route_id b) = Some (seq @ [of_int t])"
proof -
  from assms obtain seq eps l lg where
    seq: "getitem (route_arrival_time_seq (stop_log s)) (route_id b) = Inr seq"
    and rec: "record_when_arrival (stop_id s) t (Some (length seq)) (bus_log b) = Inr (eps, l)"
    and lg: "record_when_bus_arrival (route_id b) (bus_id b) t eps (stop_log s) = Inr lg"
    and s': "s' = s\<lparr>stop_log := lg,
                     entry_queue := entry_queue s @ [set_status queueing_at_stop (b\<lparr>bus_log := l\<rparr>)]\<rparr>"
    by (auto simp: enter_stop_def bind_err_def Let_def split: sum.splits prod.splits)
  from seq have sq: "map_of (route_arrival_time_seq (stop_log s)) (route_id b) = Some seq"
    by (simp add: getitem_Inr)
  from record_when_arrival_props(2) [OF rec refl] obtain vt where
    vt: "map_of (virtual_bus_stop_arrival_time (bus_log b)) (stop_id s) = Some vt"
    and eps: "eps = Some (of_int t - (vt + schedule_headway (bus_log b) * of_nat (length seq)))"
    and st: "map_of (stop_epsilon_arrival l) (stop_id s) = eps"
    by auto
  note q = record_when_bus_arrival_props [OF lg [unfolded eps] sq]
  show ?thesis
    by (intro exI [of _ vt] exI [of _ seq]
        exI [of _ "set_status queueing_at_stop (b\<lparr>bus_log := l\<rparr>)"])
      (simp add: vt sq s' set_status_def st eps q)
qed

lemma leave_bus_props:
  assumes "has_schedule s" and "leave_bus t b s = Inr (b', lg')"
  shows "\<exists>vt seq.
           map_of (virtual_bus_stop_rtd_time (bus_log b)) (stop_id s) = Some vt
         \<and> map_of (route_rtd_bus_id_seq (stop_log s)) (route_id b) = Some seq
         \<and> map_of (stop_epsilon_rtd (bus_log b')) (stop_id s) =
             Some (of_int t - (vt + schedule_headway (bus_log b) * of_nat (length seq)))
         \<and> map_of (dd_lookup (route_bus_epsilon_rtd lg') (route_id b)) (bus_id b) =
             Some (of_int t - (vt + schedule_headway (bus_log b) * of_nat (length seq)))
         \<and> map_of (route_rtd_bus_id_seq lg') (route_id b) = Some (seq @ [bus_id b])"
proof -
  from assms obtain seq eps l where
    seq: "getitem (route_rtd_bus_id_seq (stop_log s)) (route_id b) = Inr seq"
    and rec: "record_when_rtd (stop_id s) t (Some (length seq)) (bus_log b) = Inr (eps, l)"
    and lg: "record_when_bus_rtd (route_id b) (bus_id b) t eps (stop_log s) = Inr lg'"
    and b': "b' = b\<lparr>bus_log := l\<rparr>"
    by (auto simp: leave_bus_def bind_err_def Let_def split: sum.splits prod.splits)
  from seq have sq: "map_of (route_rtd_bus_id_seq (stop_log s)) (route_id b) = Some seq"
    by (simp add: getitem_Inr)
  from record_when_rtd_props(2) [OF rec refl] obtain vt where
    vt: "map_of (virtual_bus_stop_rtd_time (bus_log b)) (stop_id s) = Some vt"
    and eps: "eps = Some (of_int t - (vt + schedule_headway (bus_log b) * of_nat (length seq)))"
    and st: "map_of (stop_epsilon_rtd l) (stop_id s) = eps"
    by auto
  note q = record_when_bus_rtd_props [OF lg [unfolded eps] sq]
  show ?thesis
    by (intro exI [of _ vt] exI [of _ seq]) (simp add: vt sq b' st eps q)
qed

text \<open>The sequences of a new stop log.\<close>

lemma seed_arrival_step:
  "map_of (route_arrival_time_seq (seed_arrival sid sched (r0, ts) lg)) r =
     (if r = r0 then (case map_of ts sid of
                        None \<Rightarrow> map_of (route_arrival_time_seq lg) r
                      | Some a \<Rightarrow> Some [a])
      else map_of (route_arrival_time_seq lg) r)"
  "map_of (route_arrival_bus_id_seq (seed_arrival sid sched (r0, ts) lg)) r =
     (if r = r0 then (case map_of ts sid of
                        None \<Rightarrow> map_of (route_arrival_bus_id_seq lg) r
                      | Some a \<Rightarrow> Some [''0''])
      else map_of (route_arrival_bus_id_seq lg) r)"
  "sched \<Longrightarrow> dd_lookup (route_bus_epsilon_arrival (seed_arrival sid sched (r0, ts) lg)) r =
     (if r = r0 then (case map_of ts sid of
                        None \<Rightarrow> dd_lookup (route_bus_epsilon_arrival lg) r
                      | Some a \<Rightarrow> AList.update ''0'' 0 (dd_lookup (route_bus_epsilon_arrival lg) r))
      else dd_lookup (route_bus_epsilon_arrival lg) r)"
  "route_rtd_time_seq (seed_arrival sid sched (r0, ts) lg) = route_rtd_time_seq lg"
  "route_rtd_bus_id_seq (seed_arrival sid sched (r0, ts) lg) = route_rtd_bus_id_seq lg"
  "route_bus_epsilon_rtd (seed_arrival sid sched (r0, ts) lg) = route_bus_epsilon_rtd lg"
  by (auto simp: seed_arrival_def AList.update_conv' dd_lookup_dd2_setitem split: option.splits)

lemma fold_seed_arrival:
  assumes "distinct (map fst rs)"
  shows "map_of (route_arrival_time_seq (fold (seed_arrival sid sched) rs lg)) r =
           (case map_of rs r of
              None \<Rightarrow> map_of (route_arrival_time_seq lg) r
            | Some tms \<Rightarrow> (case map_of tms sid of
                               None \<Rightarrow> map_of (route_arrival_time_seq lg) r
                             | Some a \<Rightarrow> Some [a]))
       \<and> map_of (route_arrival_bus_id_seq (fold (seed_arrival sid sched) rs lg)) r =
           (case map_of rs r of
              None \<Rightarrow> map_of (route_arrival_bus_id_seq lg) r
            | Some tms \<Rightarrow> (case map_of tms sid of
                               None \<Rightarrow> map_of (route_arrival_bus_id_seq lg) r
                             | Some a \<Rightarrow> Some [''0'']))
       \<and> (sched \<longrightarrow>
            dd_lookup (route_bus_epsilon_arrival (fold (seed_arrival sid sched) rs lg)) r =
           (case map_of rs r of
              None \<Rightarrow> dd_lookup (route_bus_epsilon_arrival lg) r
            | Some tms \<Rightarrow> (case map_of tms sid of
                               None \<Rightarrow> dd_lookup (route_bus_epsilon_arrival lg) r
                             | Some a \<Rightarrow> AList.update ''0'' 0
                                           (dd_lookup (route_bus_epsilon_arrival lg) r))))
       \<and> route_rtd_time_seq (fold (seed_arrival sid sched) rs lg) = route_rtd_time_seq lg
       \<and> route_rtd_bus_id_seq (fold (seed_arrival sid sched) rs lg) = route_rtd_bus_id_seq lg
       \<and> route_bus_epsilon_rtd (fold (seed_arrival sid sched) rs lg) = route_bus_epsilon_rtd lg"
  using assms
proof (induction rs arbitrary: lg)
  case Nil
  show ?case by simp
next
  case (Cons rt rs)
  obtain r0 ts where rt: "rt = (r0, ts)" by (cases rt)
  from Cons.prems have d: "distinct (map fst rs)" and n: "map_of rs r0 = None"
    using map_of_eq_None_iff [of rs r0] by (auto simp: rt)
  note ih = Cons.IH [OF d, of "seed_arrival sid sched (r0, ts) lg"]
  have f: "fold (seed_arrival sid sched) (rt # rs) lg =
           fold (seed_arrival sid sched) rs (seed_arrival sid sched (r0, ts) lg)"
    by (simp add: rt)
  show ?case
    unfolding f
  proof (intro conjI impI)
    show "map_of (route_arrival_time_seq
            (fold (seed_arrival sid sched) rs (seed_arrival sid sched (r0, ts) lg))) r =
           (case map_of (rt # rs) r of
              None \<Rightarrow> map_of (route_arrival_time_seq lg) r
            | Some tms \<Rightarrow> (case map_of tms sid of
                               None \<Rightarrow> map_of (route_arrival_time_seq lg) r
                             | Some a \<Rightarrow> Some [a]))"
      using ih [THEN conjunct1] n
      by (auto simp: rt seed_arrival_step split: option.splits)
    show "map_of (route_arrival_bus_id_seq
            (fold (seed_arrival sid sched) rs (seed_arrival sid sched (r0, ts) lg))) r =
           (case map_of (rt # rs) r of
              None \<Rightarrow> map_of (route_arrival_bus_id_seq lg) r
            | Some tms \<Rightarrow> (case map_of tms sid of
                               None \<Rightarrow> map_of (route_arrival_bus_id_seq lg) r
                             | Some a \<Rightarrow> Some [''0'']))"
      using ih [THEN conjunct2, THEN conjunct1] n
      by (auto simp: rt seed_arrival_step split: option.splits)
    show "dd_lookup (route_bus_epsilon_arrival
            (fold (seed_arrival sid sched) rs (seed_arrival sid sched (r0, ts) lg))) r =
           (case map_of (rt # rs) r of
              None \<Rightarrow> dd_lookup (route_bus_epsilon_arrival lg) r
            | Some tms \<Rightarrow> (case map_of tms sid of
                               None \<Rightarrow> dd_lookup (route_bus_epsilon_arrival lg) r
                             | Some a \<Rightarrow> AList.update ''0'' 0
                                           (dd_lookup (route_bus_epsilon_arrival lg) r)))"
      if sched
      using ih [THEN conjunct2, THEN conjunct2, THEN conjunct1, THEN mp, OF that] n that
      by (auto simp: rt seed_arrival_step split: option.splits)
    show "route_rtd_time_seq
            (fold (seed_arrival sid sched) rs (seed_arrival sid sched (r0, ts) lg)) =
          route_rtd_time_seq lg"
      using ih by (simp add: seed_arrival_step)
    show "route_rtd_bus_id_seq
            (fold (seed_arrival sid sched) rs (seed_arrival sid sched (r0, ts) lg)) =
          route_rtd_bus_id_seq lg"
      using ih by (simp add: seed_arrival_step)
    show "route_bus_epsilon_rtd
            (fold (seed_arrival sid sched) rs (seed_arrival sid sched (r0, ts) lg)) =
          route_bus_epsilon_rtd lg"
      using ih by (simp add: seed_arrival_step)
  qed
qed
lemma seed_rtd_step:
  "map_of (route_rtd_time_seq (seed_rtd sid sched (r0, ts) lg)) r =
     (if r = r0 then (case map_of ts sid of
                        None \<Rightarrow> map_of (route_rtd_time_seq lg) r
                      | Some a \<Rightarrow> Some [a])
      else map_of (route_rtd_time_seq lg) r)"
  "map_of (route_rtd_bus_id_seq (seed_rtd sid sched (r0, ts) lg)) r =
     (if r = r0 then (case map_of ts sid of
                        None \<Rightarrow> map_of (route_rtd_bus_id_seq lg) r
                      | Some a \<Rightarrow> Some [''0''])
      else map_of (route_rtd_bus_id_seq lg) r)"
  "sched \<Longrightarrow> dd_lookup (route_bus_epsilon_rtd (seed_rtd sid sched (r0, ts) lg)) r =
     (if r = r0 then (case map_of ts sid of
                        None \<Rightarrow> dd_lookup (route_bus_epsilon_rtd lg) r
                      | Some a \<Rightarrow> AList.update ''0'' 0 (dd_lookup (route_bus_epsilon_rtd lg) r))
      else dd_lookup (route_bus_epsilon_rtd lg) r)"
  "route_arrival_time_seq (seed_rtd sid sched (r0, ts) lg) = route_arrival_time_seq lg"
  "route_arrival_bus_id_seq (seed_rtd sid sched (r0, ts) lg) = route_arrival_bus_id_seq lg"
  "route_bus_epsilon_arrival (seed_rtd sid sched (r0, ts) lg) = route_bus_epsilon_arrival lg"
  by (auto simp: seed_rtd_def AList.update_conv' dd_lookup_dd2_setitem split: option.splits)

lemma fold_seed_rtd:
  assumes "distinct (map fst rs)"
  shows "map_of (route_rtd_time_seq (fold (seed_rtd sid sched) rs lg)) r =
           (case map_of rs r of
              None \<Rightarrow> map_of (route_rtd_time_seq lg) r
            | Some tms \<Rightarrow> (case map_of tms sid of
                               None \<Rightarrow> map_of (route_rtd_time_seq lg) r
                             | Some a \<Rightarrow> Some [a]))
       \<and> map_of (route_rtd_bus_id_seq (fold (seed_rtd sid sched) rs lg)) r =
           (case map_of rs r of
              None \<Rightarrow> map_of (route_rtd_bus_id_seq lg) r
            | Some tms \<Rightarrow> (case map_of tms sid of
                               None \<Rightarrow> map_of (route_rtd_bus_id_seq lg) r
                             | Some a \<Rightarrow> Some [''0'']))
       \<and> (sched \<longrightarrow>
            dd_lookup (route_bus_epsilon_rtd (fold (seed_rtd sid sched) rs lg)) r =
           (case map_of rs r of
              None \<Rightarrow> dd_lookup (route_bus_epsilon_rtd lg) r
            | Some tms \<Rightarrow> (case map_of tms sid of
                               None \<Rightarrow> dd_lookup (route_bus_epsilon_rtd lg) r
                             | Some a \<Rightarrow> AList.update ''0'' 0
                                           (dd_lookup (route_bus_epsilon_rtd lg) r))))
       \<and> route_arrival_time_seq (fold (seed_rtd sid sched) rs lg) = route_arrival_time_seq lg
       \<and> route_arrival_bus_id_seq (fold (seed_rtd sid sched) rs lg) = route_arrival_bus_id_seq lg
       \<and> route_bus_epsilon_arrival (fold (seed_rtd sid sched) rs lg) = route_bus_epsilon_arrival lg"
  using assms
proof (induction rs arbitrary: lg)
  case Nil
  show ?case by simp
next
  case (Cons rt rs)
  obtain r0 ts where rt: "rt = (r0, ts)" by (cases rt)
  from Cons.prems have d: "distinct (map fst rs)" and n: "map_of rs r0 = None"
    using map_of_eq_None_iff [of rs r0] by (auto simp: rt)
  note ih = Cons.IH [OF d, of "seed_rtd sid sched (r0, ts) lg"]
  have f: "fold (seed_rtd sid sched) (rt # rs) lg =
           fold (seed_rtd sid sched) rs (seed_rtd sid sched (r0, ts) lg)"
    by (simp add: rt)
  show ?case
    unfolding f
  proof (intro conjI impI)
    show "map_of (route_rtd_time_seq
            (fold (seed_rtd sid sched) rs (seed_rtd sid sched (r0, ts) lg))) r =
           (case map_of (rt # rs) r of
              None \<Rightarrow> map_of (route_rtd_time_seq lg) r
            | Some tms \<Rightarrow> (case map_of tms sid of
                               None \<Rightarrow> map_of (route_rtd_time_seq lg) r
                             | Some a \<Rightarrow> Some [a]))"
      using ih [THEN conjunct1] n
      by (auto simp: rt seed_rtd_step split: option.splits)
    show "map_of (route_rtd_bus_id_seq
            (fold (seed_rtd sid sched) rs (seed_rtd sid sched (r0, ts) lg))) r =
           (case map_of (rt # rs) r of
              None \<Rightarrow> map_of (route_rtd_bus_id_seq lg) r
            | Some tms \<Rightarrow> (case map_of tms sid of
                               None \<Rightarrow> map_of (route_rtd_bus_id_seq lg) r
                             | Some a \<Rightarrow> Some [''0'']))"
      using ih [THEN conjunct2, THEN conjunct1] n
      by (auto simp: rt seed_rtd_step split: option.splits)
    show "dd_lookup (route_bus_epsilon_rtd
            (fold (seed_rtd sid sched) rs (seed_rtd sid sched (r0, ts) lg))) r =
           (case map_of (rt # rs) r of
              None \<Rightarrow> dd_lookup (route_bus_epsilon_rtd lg) r
            | Some tms \<Rightarrow> (case map_of tms sid of
                               None \<Rightarrow> dd_lookup (route_bus_epsilon_rtd lg) r
                             | Some a \<Rightarrow> AList.update ''0'' 0
                                           (dd_lookup (route_bus_epsilon_rtd lg) r)))"
      if sched
      using ih [THEN conjunct2, THEN conjunct2, THEN conjunct1, THEN mp, OF that] n that
      by (auto simp: rt seed_rtd_step split: option.splits)
    show "route_arrival_time_seq
            (fold (seed_rtd sid sched) rs (seed_rtd sid sched (r0, ts) lg)) =
          route_arrival_time_seq lg"
      using ih by (simp add: seed_rtd_step)
    show "route_arrival_bus_id_seq
            (fold (seed_rtd sid sched) rs (seed_rtd sid sched (r0, ts) lg)) =
          route_arrival_bus_id_seq lg"
      using ih by (simp add: seed_rtd_step)
    show "route_bus_epsilon_arrival
            (fold (seed_rtd sid sched) rs (seed_rtd sid sched (r0, ts) lg)) =
          route_bus_epsilon_arrival lg"
      using ih by (simp add: seed_rtd_step)
  qed
qed

text \<open>The sequences of a new holder log.\<close>

lemma seed_departure_step:
  "dd2_lookup (route_stop_departure_time_seq (seed_departure sched r (s0, d) lg)) r' s' =
     (if r' = r \<and> s' = s0 then [d] else dd2_lookup (route_stop_departure_time_seq lg) r' s')"
  "dd2_lookup (route_stop_departure_bus_id_seq (seed_departure sched r (s0, d) lg)) r' s' =
     (if r' = r \<and> s' = s0 then [''0'']
      else dd2_lookup (route_stop_departure_bus_id_seq lg) r' s')"
  "sched \<Longrightarrow>
   dd2_lookup (route_stop_bus_epsilon_departure (seed_departure sched r (s0, d) lg)) r' s' =
     (if r' = r \<and> s' = s0
      then AList.update ''0'' 0 (dd2_lookup (route_stop_bus_epsilon_departure lg) r s0)
      else dd2_lookup (route_stop_bus_epsilon_departure lg) r' s')"
  by (simp_all add: seed_departure_def dd2_lookup_setitem dd2_lookup_dd3_setitem)

lemma fold_seed_departure:
  assumes "distinct (map fst sts)"
  shows "dd2_lookup (route_stop_departure_time_seq (fold (seed_departure sched r) sts lg)) r' s' =
           (case (if r' = r then map_of sts s' else None) of
              None \<Rightarrow> dd2_lookup (route_stop_departure_time_seq lg) r' s'
            | Some d \<Rightarrow> [d])
       \<and> dd2_lookup (route_stop_departure_bus_id_seq (fold (seed_departure sched r) sts lg)) r' s' =
           (case (if r' = r then map_of sts s' else None) of
              None \<Rightarrow> dd2_lookup (route_stop_departure_bus_id_seq lg) r' s'
            | Some d \<Rightarrow> [''0''])
       \<and> (sched \<longrightarrow>
            dd2_lookup (route_stop_bus_epsilon_departure (fold (seed_departure sched r) sts lg)) r' s' =
           (case (if r' = r then map_of sts s' else None) of
              None \<Rightarrow> dd2_lookup (route_stop_bus_epsilon_departure lg) r' s'
            | Some d \<Rightarrow> AList.update ''0'' 0
                          (dd2_lookup (route_stop_bus_epsilon_departure lg) r' s')))"
  using assms
proof (induction sts arbitrary: lg)
  case Nil
  show ?case by simp
next
  case (Cons st sts)
  obtain s0 d where st: "st = (s0, d)" by (cases st)
  from Cons.prems have dd: "distinct (map fst sts)" and n: "map_of sts s0 = None"
    using map_of_eq_None_iff [of sts s0] by (auto simp: st)
  note ih = Cons.IH [OF dd, of "seed_departure sched r (s0, d) lg"]
  have f: "fold (seed_departure sched r) (st # sts) lg =
           fold (seed_departure sched r) sts (seed_departure sched r (s0, d) lg)"
    by (simp add: st)
  show ?case
    unfolding f
  proof (intro conjI impI)
    show "dd2_lookup (route_stop_departure_time_seq
            (fold (seed_departure sched r) sts (seed_departure sched r (s0, d) lg))) r' s' =
           (case (if r' = r then map_of (st # sts) s' else None) of
              None \<Rightarrow> dd2_lookup (route_stop_departure_time_seq lg) r' s'
            | Some d \<Rightarrow> [d])"
      using ih [THEN conjunct1] n
      by (auto simp: st seed_departure_step split: option.splits)
    show "dd2_lookup (route_stop_departure_bus_id_seq
            (fold (seed_departure sched r) sts (seed_departure sched r (s0, d) lg))) r' s' =
           (case (if r' = r then map_of (st # sts) s' else None) of
              None \<Rightarrow> dd2_lookup (route_stop_departure_bus_id_seq lg) r' s'
            | Some d \<Rightarrow> [''0''])"
      using ih [THEN conjunct2, THEN conjunct1] n
      by (auto simp: st seed_departure_step split: option.splits)
    show "dd2_lookup (route_stop_bus_epsilon_departure
            (fold (seed_departure sched r) sts (seed_departure sched r (s0, d) lg))) r' s' =
           (case (if r' = r then map_of (st # sts) s' else None) of
              None \<Rightarrow> dd2_lookup (route_stop_bus_epsilon_departure lg) r' s'
            | Some d \<Rightarrow> AList.update ''0'' 0
                          (dd2_lookup (route_stop_bus_epsilon_departure lg) r' s'))"
      if sched
      using ih [THEN conjunct2, THEN conjunct2, THEN mp, OF that] n that
      by (auto simp: st seed_departure_step split: option.splits)
  qed
qed

lemma fold_seed_routes:
  assumes "distinct (map fst rs)" and "map_of rs r = Some sts" and "distinct (map fst sts)"
    and "map_of sts s = Some d"
  shows "dd2_lookup (route_stop_departure_time_seq
           (fold (\<lambda>rt lg. fold (seed_departure sched (fst rt)) (snd rt) lg) rs lg)) r s = [d]
       \<and> dd2_lookup (route_stop_departure_bus_id_seq
           (fold (\<lambda>rt lg. fold (seed_departure sched (fst rt)) (snd rt) lg) rs lg)) r s = [''0'']
       \<and> (sched \<longrightarrow>
            map_of (dd2_lookup (route_stop_bus_epsilon_departure
              (fold (\<lambda>rt lg. fold (seed_departure sched (fst rt)) (snd rt) lg) rs lg)) r s) ''0''
            = Some 0)"
proof -
  let ?f = "\<lambda>rt lg. fold (seed_departure sched (fst rt)) (snd rt) lg"
  have later: "distinct (map fst rs) \<Longrightarrow> map_of rs r = None \<Longrightarrow>
      dd2_lookup (route_stop_departure_time_seq (fold ?f rs lg)) r s =
        dd2_lookup (route_stop_departure_time_seq lg) r s
    \<and> dd2_lookup (route_stop_departure_bus_id_seq (fold ?f rs lg)) r s =
        dd2_lookup (route_stop_departure_bus_id_seq lg) r s
    \<and> (sched \<longrightarrow> dd2_lookup (route_stop_bus_epsilon_departure (fold ?f rs lg)) r s =
        dd2_lookup (route_stop_bus_epsilon_departure lg) r s)" for rs lg
  proof (induction rs arbitrary: lg)
    case Nil
    show ?case by simp
  next
    case (Cons rt rs)
    from Cons.prems have ne: "fst rt \<noteq> r" and n: "map_of rs r = None"
      and dd: "distinct (map fst rs)"
      by (auto split: if_splits)
    note ih = Cons.IH [OF dd n, of "fold (seed_departure sched (fst rt)) (snd rt) lg"]
    have step: "dd2_lookup (route_stop_departure_time_seq
                  (fold (seed_departure sched r0) xs lg0)) r s =
                dd2_lookup (route_stop_departure_time_seq lg0) r s
              \<and> dd2_lookup (route_stop_departure_bus_id_seq
                  (fold (seed_departure sched r0) xs lg0)) r s =
                dd2_lookup (route_stop_departure_bus_id_seq lg0) r s
              \<and> (sched \<longrightarrow> dd2_lookup (route_stop_bus_epsilon_departure
                  (fold (seed_departure sched r0) xs lg0)) r s =
                dd2_lookup (route_stop_bus_epsilon_departure lg0) r s)"
      if "r0 \<noteq> r" for r0 xs lg0
      using that
    proof (induction xs arbitrary: lg0)
      case Nil
      show ?case by simp
    next
      case (Cons x xs)
      obtain s0 d0 where x: "x = (s0, d0)" by (cases x)
      from Cons.IH [OF Cons.prems, of "seed_departure sched r0 (s0, d0) lg0"] Cons.prems
      show ?case by (auto simp: x seed_departure_step)
    qed
    from ih step [OF ne, of "snd rt" lg] show ?case by simp
  qed
  from assms(1,2) show ?thesis
  proof (induction rs arbitrary: lg)
    case Nil
    then show ?case by simp
  next
    case (Cons rt rs)
    from Cons.prems have dd: "distinct (map fst rs)" by simp
    show ?case
    proof (cases "fst rt = r")
      case True
      with Cons.prems have sts: "snd rt = sts" and n: "map_of rs r = None"
        using map_of_eq_None_iff [of rs r] by (auto split: if_splits)
      note a = later [OF dd n, of "fold (seed_departure sched r) sts lg"]
      note b = fold_seed_departure [OF assms(3), of sched r lg r s]
      from a b assms(4) True sts show ?thesis
        by (auto simp: AList.update_conv')
    next
      case False
      with Cons.prems have m: "map_of rs r = Some sts" by (auto split: if_splits)
      from Cons.IH [OF dd m, of "fold (seed_departure sched (fst rt)) (snd rt) lg"]
      show ?thesis by simp
    qed
  qed
qed

lemma new_stop_log_seeds:
  assumes "distinct (map fst (route_stop_arrival_time vb))"
    and "distinct (map fst (route_stop_rtd_time vb))"
  shows "map_of (route_stop_arrival_time vb) r = Some tms \<and> map_of tms sid = Some a \<longrightarrow>
           map_of (route_arrival_time_seq (new_stop_log sid vb sched)) r = Some [a]
         \<and> map_of (route_arrival_bus_id_seq (new_stop_log sid vb sched)) r = Some [''0'']
         \<and> (sched \<longrightarrow>
              map_of (dd_lookup (route_bus_epsilon_arrival (new_stop_log sid vb sched)) r) ''0''
              = Some 0)"
    and "map_of (route_stop_rtd_time vb) r = Some tms \<and> map_of tms sid = Some a \<longrightarrow>
           map_of (route_rtd_time_seq (new_stop_log sid vb sched)) r = Some [a]
         \<and> map_of (route_rtd_bus_id_seq (new_stop_log sid vb sched)) r = Some [''0'']
         \<and> (sched \<longrightarrow>
              map_of (dd_lookup (route_bus_epsilon_rtd (new_stop_log sid vb sched)) r) ''0''
              = Some 0)"
proof -
  let ?e = "\<lparr>route_arrival_time_seq = [], route_arrival_bus_id_seq = [],
           route_rtd_time_seq = [], route_rtd_bus_id_seq = [],
           route_bus_epsilon_arrival = [], route_bus_epsilon_rtd = []\<rparr>"
  let ?a = "fold (seed_arrival sid sched) (route_stop_arrival_time vb) ?e"
  note fa = fold_seed_arrival [OF assms(1), of sid sched ?e r]
  note fr = fold_seed_rtd [OF assms(2), of sid sched ?a r]
  have n: "new_stop_log sid vb sched = fold (seed_rtd sid sched) (route_stop_rtd_time vb) ?a"
    by (simp add: new_stop_log_def)
  show "map_of (route_stop_arrival_time vb) r = Some tms \<and> map_of tms sid = Some a \<longrightarrow>
           map_of (route_arrival_time_seq (new_stop_log sid vb sched)) r = Some [a]
         \<and> map_of (route_arrival_bus_id_seq (new_stop_log sid vb sched)) r = Some [''0'']
         \<and> (sched \<longrightarrow>
              map_of (dd_lookup (route_bus_epsilon_arrival (new_stop_log sid vb sched)) r) ''0''
              = Some 0)"
    unfolding n using fa fr by (auto simp: AList.update_conv')
  show "map_of (route_stop_rtd_time vb) r = Some tms \<and> map_of tms sid = Some a \<longrightarrow>
           map_of (route_rtd_time_seq (new_stop_log sid vb sched)) r = Some [a]
         \<and> map_of (route_rtd_bus_id_seq (new_stop_log sid vb sched)) r = Some [''0'']
         \<and> (sched \<longrightarrow>
              map_of (dd_lookup (route_bus_epsilon_rtd (new_stop_log sid vb sched)) r) ''0''
              = Some 0)"
    unfolding n using fr by (auto simp: AList.update_conv')
qed
text \<open>The loop of \<open>Stop_Board._leave\<close>.\<close>

lemma leave_bus_frame:
  assumes "leave_bus t b s = Inr (b', lg')"
  shows "route_id b' = route_id b" and "bus_id b' = bus_id b"
    and "r \<noteq> route_id b \<Longrightarrow>
           map_of (route_rtd_bus_id_seq lg') r = map_of (route_rtd_bus_id_seq (stop_log s)) r"
    and "(r, bid) \<noteq> (route_id b, bus_id b) \<Longrightarrow>
           map_of (dd_lookup (route_bus_epsilon_rtd lg') r) bid =
           map_of (dd_lookup (route_bus_epsilon_rtd (stop_log s)) r) bid"
proof -
  from assms obtain eps l where
    lg: "record_when_bus_rtd (route_id b) (bus_id b) t eps (stop_log s) = Inr lg'"
    and b': "b' = b\<lparr>bus_log := l\<rparr>"
    by (auto simp: leave_bus_def bind_err_def Let_def split: sum.splits prod.splits if_splits)
  from b' show "route_id b' = route_id b" "bus_id b' = bus_id b" by simp_all
  from lg show "map_of (route_rtd_bus_id_seq lg') r = map_of (route_rtd_bus_id_seq (stop_log s)) r"
    if "r \<noteq> route_id b"
    using that
    by (auto simp: record_when_bus_rtd_def bind_err_def getitem_def AList.update_conv'
        split: option.splits)
  from lg show "map_of (dd_lookup (route_bus_epsilon_rtd lg') r) bid =
           map_of (dd_lookup (route_bus_epsilon_rtd (stop_log s)) r) bid"
    if "(r, bid) \<noteq> (route_id b, bus_id b)"
    using that
    by (auto simp: record_when_bus_rtd_def bind_err_def getitem_def AList.update_conv'
        dd_lookup_dd2_setitem split: option.splits)
qed

lemma remove1_ident:
  assumes "distinct (map f q)" and "x \<in> set q"
  shows "f x \<notin> f ` set (remove1 x q)" and "distinct (map f (remove1 x q))"
proof -
  from assms(1) have dq: "distinct q" by (rule distinct_map [THEN iffD1, THEN conjunct1])
  from assms(1) have inj: "inj_on f (set q)" by (simp add: distinct_map)
  show "f x \<notin> f ` set (remove1 x q)"
  proof
    assume "f x \<in> f ` set (remove1 x q)"
    then obtain y where y: "y \<in> set (remove1 x q)" "f y = f x" by auto
    with dq have "y \<in> set q" "y \<noteq> x" by auto
    with inj assms(2) y(2) show False by (auto dest: inj_onD)
  qed
  from dq have "set (remove1 x q) \<subseteq> set q" by auto
  with inj have "inj_on f (set (remove1 x q))" by (rule inj_on_subset)
  with dq show "distinct (map f (remove1 x q))" by (simp add: distinct_map)
qed

lemma leave_loop_spec:
  assumes "leave_loop t i s acc = Inr (leaving, s')"
    and "has_schedule s" and "distinct (map bus_ident (leave_queue s))"
  shows "\<exists>new. leaving = acc @ new
    \<and> (\<forall>r. map_of (route_rtd_bus_id_seq (stop_log s')) r =
            map_option (\<lambda>seq. seq @ map bus_id (filter (\<lambda>b. route_id b = r) new))
              (map_of (route_rtd_bus_id_seq (stop_log s)) r))
    \<and> (\<forall>r bid. (r, bid) \<notin> bus_ident ` set (leave_queue s) \<longrightarrow>
            map_of (dd_lookup (route_bus_epsilon_rtd (stop_log s')) r) bid =
            map_of (dd_lookup (route_bus_epsilon_rtd (stop_log s)) r) bid)
    \<and> (\<forall>j<length new. \<exists>b0 vt seq.
            b0 \<in> set (leave_queue s)
          \<and> route_id (new ! j) = route_id b0 \<and> bus_id (new ! j) = bus_id b0
          \<and> map_of (virtual_bus_stop_rtd_time (bus_log b0)) (stop_id s) = Some vt
          \<and> map_of (route_rtd_bus_id_seq (stop_log s)) (route_id b0) = Some seq
          \<and> map_of (stop_epsilon_rtd (bus_log (new ! j))) (stop_id s) =
              Some (of_int t - (vt + schedule_headway (bus_log b0)
                * of_nat (length seq
                          + length (filter (\<lambda>x. route_id x = route_id b0) (take j new)))))
          \<and> map_of (dd_lookup (route_bus_epsilon_rtd (stop_log s')) (route_id b0)) (bus_id b0) =
              Some (of_int t - (vt + schedule_headway (bus_log b0)
                * of_nat (length seq
                          + length (filter (\<lambda>x. route_id x = route_id b0) (take j new))))))"
  using assms
proof (induction t i s acc arbitrary: leaving s' rule: leave_loop.induct)
  case (1 t i s acc)
  let ?q = "leave_queue s"
  show ?case
  proof (cases "i < length ?q")
    case False
    with "1.prems"(1) have "leaving = acc" "s' = s"
      by (simp_all add: leave_loop.simps [of t i s acc])
    then show ?thesis by (intro exI [of _ "[]"]) (simp add: option.map_ident)
  next
    case True
    let ?x = "?q ! i"
    from True have xin: "?x \<in> set ?q" by simp
    from "1.prems"(1) True obtain b1 lg where
      lb: "leave_bus t ?x s = Inr (b1, lg)"
      and rec: "leave_loop t (Suc i) (s\<lparr>stop_log := lg, leave_queue := remove1 ?x ?q\<rparr>)
                  (acc @ [b1]) = Inr (leaving, s')"
      by (auto simp: leave_loop.simps [of t i s acc] split: sum.splits prod.splits)
    let ?s1 = "s\<lparr>stop_log := lg, leave_queue := remove1 ?x ?q\<rparr>"
    have hs1: "has_schedule ?s1" using "1.prems"(2) by simp
    note rm = remove1_ident [OF "1.prems"(3) xin]
    have d1: "distinct (map bus_ident (leave_queue ?s1))" using rm(2) by simp
    from "1.IH" [OF True lb refl rec hs1 d1] obtain new where
      n1: "leaving = (acc @ [b1]) @ new"
      and n2: "\<And>r. map_of (route_rtd_bus_id_seq (stop_log s')) r =
            map_option (\<lambda>seq. seq @ map bus_id (filter (\<lambda>b. route_id b = r) new))
              (map_of (route_rtd_bus_id_seq lg) r)"
      and n3: "\<And>r bid. (r, bid) \<notin> bus_ident ` set (remove1 ?x ?q) \<Longrightarrow>
            map_of (dd_lookup (route_bus_epsilon_rtd (stop_log s')) r) bid =
            map_of (dd_lookup (route_bus_epsilon_rtd lg) r) bid"
      and n4: "\<And>j. j < length new \<Longrightarrow> \<exists>b0 vt seq.
            b0 \<in> set (remove1 ?x ?q)
          \<and> route_id (new ! j) = route_id b0 \<and> bus_id (new ! j) = bus_id b0
          \<and> map_of (virtual_bus_stop_rtd_time (bus_log b0)) (stop_id s) = Some vt
          \<and> map_of (route_rtd_bus_id_seq lg) (route_id b0) = Some seq
          \<and> map_of (stop_epsilon_rtd (bus_log (new ! j))) (stop_id s) =
              Some (of_int t - (vt + schedule_headway (bus_log b0)
                * of_nat (length seq
                          + length (filter (\<lambda>x. route_id x = route_id b0) (take j new)))))
          \<and> map_of (dd_lookup (route_bus_epsilon_rtd (stop_log s')) (route_id b0)) (bus_id b0) =
              Some (of_int t - (vt + schedule_headway (bus_log b0)
                * of_nat (length seq
                          + length (filter (\<lambda>x. route_id x = route_id b0) (take j new)))))"
      by auto
    from leave_bus_props [OF "1.prems"(2) lb] obtain vt0 seq0 where
      vt0: "map_of (virtual_bus_stop_rtd_time (bus_log ?x)) (stop_id s) = Some vt0"
      and seq0: "map_of (route_rtd_bus_id_seq (stop_log s)) (route_id ?x) = Some seq0"
      and e0: "map_of (stop_epsilon_rtd (bus_log b1)) (stop_id s) =
             Some (of_int t - (vt0 + schedule_headway (bus_log ?x) * of_nat (length seq0)))"
      and l0: "map_of (dd_lookup (route_bus_epsilon_rtd lg) (route_id ?x)) (bus_id ?x) =
             Some (of_int t - (vt0 + schedule_headway (bus_log ?x) * of_nat (length seq0)))"
      and s0: "map_of (route_rtd_bus_id_seq lg) (route_id ?x) = Some (seq0 @ [bus_id ?x])"
      by blast
    note fr = leave_bus_frame [OF lb]
    have ids: "map_of (route_rtd_bus_id_seq lg) r =
        map_option (\<lambda>seq. seq @ (if r = route_id ?x then [bus_id ?x] else []))
          (map_of (route_rtd_bus_id_seq (stop_log s)) r)" for r
      using fr(3) [of r] s0 seq0 by (auto simp: option.map_ident)
    have c1: "leaving = acc @ (b1 # new)" using n1 by simp
    have c2: "map_of (route_rtd_bus_id_seq (stop_log s')) r =
            map_option (\<lambda>seq. seq @ map bus_id (filter (\<lambda>b. route_id b = r) (b1 # new)))
              (map_of (route_rtd_bus_id_seq (stop_log s)) r)" for r
      unfolding n2 [of r] ids [of r] using fr(1,2)
      by (cases "map_of (route_rtd_bus_id_seq (stop_log s)) r") auto
    have c3: "map_of (dd_lookup (route_bus_epsilon_rtd (stop_log s')) r) bid =
            map_of (dd_lookup (route_bus_epsilon_rtd (stop_log s)) r) bid"
      if "(r, bid) \<notin> bus_ident ` set ?q" for r bid
    proof -
      from that have a: "(r, bid) \<notin> bus_ident ` set (remove1 ?x ?q)"
        using set_remove1_subset [of ?x ?q] by auto
      from that xin have b: "(r, bid) \<noteq> (route_id ?x, bus_id ?x)"
        by (auto simp: bus_ident_def)
      from n3 [OF a] fr(4) [OF b] show ?thesis by simp
    qed
    have c4: "\<exists>b0 vt seq.
            b0 \<in> set ?q
          \<and> route_id ((b1 # new) ! j) = route_id b0 \<and> bus_id ((b1 # new) ! j) = bus_id b0
          \<and> map_of (virtual_bus_stop_rtd_time (bus_log b0)) (stop_id s) = Some vt
          \<and> map_of (route_rtd_bus_id_seq (stop_log s)) (route_id b0) = Some seq
          \<and> map_of (stop_epsilon_rtd (bus_log ((b1 # new) ! j))) (stop_id s) =
              Some (of_int t - (vt + schedule_headway (bus_log b0)
                * of_nat (length seq
                          + length (filter (\<lambda>x. route_id x = route_id b0) (take j (b1 # new))))))
          \<and> map_of (dd_lookup (route_bus_epsilon_rtd (stop_log s')) (route_id b0)) (bus_id b0) =
              Some (of_int t - (vt + schedule_headway (bus_log b0)
                * of_nat (length seq
                          + length (filter (\<lambda>x. route_id x = route_id b0) (take j (b1 # new))))))"
      if j: "j < length (b1 # new)" for j
    proof (cases j)
      case 0
      from rm(1) have "(route_id ?x, bus_id ?x) \<notin> bus_ident ` set (remove1 ?x ?q)"
        by (simp add: bus_ident_def)
      from n3 [OF this] l0
      have l1: "map_of (dd_lookup (route_bus_epsilon_rtd (stop_log s')) (route_id ?x)) (bus_id ?x) =
             Some (of_int t - (vt0 + schedule_headway (bus_log ?x) * of_nat (length seq0)))"
        by simp
      show ?thesis
        by (intro exI [of _ ?x] exI [of _ vt0] exI [of _ seq0])
           (simp add: 0 xin fr(1,2) vt0 seq0 e0 l1)
    next
      case (Suc j')
      with j have j': "j' < length new" by simp
      from n4 [OF j'] obtain b0 vt seq where
        b0: "b0 \<in> set (remove1 ?x ?q)"
        and id: "route_id (new ! j') = route_id b0" "bus_id (new ! j') = bus_id b0"
        and vt: "map_of (virtual_bus_stop_rtd_time (bus_log b0)) (stop_id s) = Some vt"
        and sq: "map_of (route_rtd_bus_id_seq lg) (route_id b0) = Some seq"
        and e1: "map_of (stop_epsilon_rtd (bus_log (new ! j'))) (stop_id s) =
              Some (of_int t - (vt + schedule_headway (bus_log b0)
                * of_nat (length seq
                          + length (filter (\<lambda>x. route_id x = route_id b0) (take j' new)))))"
        and e2: "map_of (dd_lookup (route_bus_epsilon_rtd (stop_log s')) (route_id b0)) (bus_id b0) =
              Some (of_int t - (vt + schedule_headway (bus_log b0)
                * of_nat (length seq
                          + length (filter (\<lambda>x. route_id x = route_id b0) (take j' new)))))"
        by blast
      from b0 have b0in: "b0 \<in> set ?q" using set_remove1_subset [of ?x ?q] by auto
      from sq ids [of "route_id b0"] obtain seq' where
        sq': "map_of (route_rtd_bus_id_seq (stop_log s)) (route_id b0) = Some seq'"
        and sq'': "seq = seq' @ (if route_id b0 = route_id ?x then [bus_id ?x] else [])"
        by (cases "map_of (route_rtd_bus_id_seq (stop_log s)) (route_id b0)") auto
      have cnt: "length seq + length (filter (\<lambda>x. route_id x = route_id b0) (take j' new))
           = length seq' + length (filter (\<lambda>x. route_id x = route_id b0) (take j (b1 # new)))"
        using sq'' fr(1) by (auto simp: Suc)
      show ?thesis
        by (intro exI [of _ b0] exI [of _ vt] exI [of _ seq'])
           (simp only: Suc nth_Cons_Suc b0in id vt sq' e1 e2 cnt simp_thms)
    qed
    show ?thesis
      by (intro exI [of _ "b1 # new"] conjI allI impI)
         (rule c1, rule c2, erule c3, erule c4)
  qed
qed
text \<open>The departure from the terminal.\<close>

lemma transfer_terminal_bus_log:
  assumes "transfer_terminal_bus spot t (sample, b) m = Inr m1"
  shows "holder_log (med_holder m1) =
           record_when_bus_departure spot (route_id b) (bus_id b) t
             (if holder_has_schedule (med_holder m) then Some 0 else None)
             (holder_log (med_holder m))"
    and "holder_has_schedule (med_holder m1) = holder_has_schedule (med_holder m)"
  using assms
  by (auto simp: transfer_terminal_bus_def bind_err_def split: sum.splits prod.splits)

lemma record_departure_zero:
  "map_of (dd2_lookup (route_stop_bus_epsilon_departure
             (record_when_bus_departure spot r bid t (Some 0) lg)) r' spot) bid' =
     (if r' = r \<and> bid' = bid then Some 0
      else map_of (dd2_lookup (route_stop_bus_epsilon_departure lg) r' spot) bid')"
  by (simp add: record_when_bus_departure_def dd2_lookup_dd3_setitem AList.update_conv')

lemma record_departure_ids:
  "dd2_lookup (route_stop_departure_bus_id_seq
      (record_when_bus_departure spot r bid t eps lg)) r' spot =
     dd2_lookup (route_stop_departure_bus_id_seq lg) r' spot @ (if r' = r then [bid] else [])"
  by (simp add: record_when_bus_departure_def dd2_lookup_append)

lemma transfer_terminal_zero_kept:
  assumes "fold_err (transfer_terminal_bus spot t) sbs m = Inr m'"
    and "holder_has_schedule (med_holder m)"
    and "map_of (dd2_lookup (route_stop_bus_epsilon_departure (holder_log (med_holder m)))
           r spot) bid = Some 0"
  shows "map_of (dd2_lookup (route_stop_bus_epsilon_departure (holder_log (med_holder m')))
           r spot) bid = Some 0"
  using assms
proof (induction sbs arbitrary: m)
  case Nil
  then show ?case by simp
next
  case (Cons sb sbs)
  obtain sample b where sb: "sb = (sample, b)" by (cases sb)
  from Cons.prems(1) sb obtain m1 where
    step: "transfer_terminal_bus spot t (sample, b) m = Inr m1"
    and f: "fold_err (transfer_terminal_bus spot t) sbs m1 = Inr m'"
    by (auto split: sum.splits)
  note l = transfer_terminal_bus_log [OF step]
  from l(2) Cons.prems(2) have s1: "holder_has_schedule (med_holder m1)" by simp
  from l(1) Cons.prems(2,3)
  have "map_of (dd2_lookup (route_stop_bus_epsilon_departure (holder_log (med_holder m1)))
           r spot) bid = Some 0"
    by (simp add: record_departure_zero)
  from Cons.IH [OF f s1 this] show ?case .
qed

lemma transfer_terminal_spec:
  assumes "transfer_terminal sbs spot t m = Inr m'"
    and "holder_has_schedule (med_holder m)"
  shows "(\<forall>sb \<in> set sbs.
            map_of (dd2_lookup (route_stop_bus_epsilon_departure (holder_log (med_holder m')))
              (route_id (snd sb)) spot) (bus_id (snd sb)) = Some 0)
       \<and> (\<forall>r. dd2_lookup (route_stop_departure_bus_id_seq (holder_log (med_holder m'))) r spot =
               dd2_lookup (route_stop_departure_bus_id_seq (holder_log (med_holder m))) r spot
               @ map bus_id (filter (\<lambda>b. route_id b = r) (map snd sbs)))"
proof -
  from assms(1) have "fold_err (transfer_terminal_bus spot t) sbs m = Inr m'"
    by (simp add: transfer_terminal_def)
  then show ?thesis using assms(2)
  proof (induction sbs arbitrary: m)
    case Nil
    then show ?case by simp
  next
    case (Cons sb sbs)
    obtain sample b where sb: "sb = (sample, b)" by (cases sb)
    from Cons.prems(1) sb obtain m1 where
      step: "transfer_terminal_bus spot t (sample, b) m = Inr m1"
      and f: "fold_err (transfer_terminal_bus spot t) sbs m1 = Inr m'"
      by (auto split: sum.splits)
    note l = transfer_terminal_bus_log [OF step]
    from l(2) Cons.prems(2) have s1: "holder_has_schedule (med_holder m1)" by simp
    note ih = Cons.IH [OF f s1]
    from l(1) Cons.prems(2)
    have z1: "map_of (dd2_lookup (route_stop_bus_epsilon_departure (holder_log (med_holder m1)))
           (route_id b) spot) (bus_id b) = Some 0"
      by (simp add: record_departure_zero)
    from transfer_terminal_zero_kept [OF f s1 z1]
    have z: "map_of (dd2_lookup (route_stop_bus_epsilon_departure (holder_log (med_holder m')))
           (route_id b) spot) (bus_id b) = Some 0" .
    have ids: "dd2_lookup (route_stop_departure_bus_id_seq (holder_log (med_holder m1))) r spot =
               dd2_lookup (route_stop_departure_bus_id_seq (holder_log (med_holder m))) r spot
               @ (if r = route_id b then [bus_id b] else [])" for r
      unfolding l(1) by (rule record_departure_ids)
    show ?case
    proof (intro conjI ballI allI)
      fix x assume "x \<in> set (sb # sbs)"
      then consider "x = sb" | "x \<in> set sbs" by auto
      then show "map_of (dd2_lookup (route_stop_bus_epsilon_departure (holder_log (med_holder m')))
              (route_id (snd x)) spot) (bus_id (snd x)) = Some 0"
      proof cases
        case 1
        with z sb show ?thesis by simp
      next
        case 2
        with ih show ?thesis by blast
      qed
    next
      fix r
      from ih have "dd2_lookup (route_stop_departure_bus_id_seq (holder_log (med_holder m'))) r spot =
               dd2_lookup (route_stop_departure_bus_id_seq (holder_log (med_holder m1))) r spot
               @ map bus_id (filter (\<lambda>b. route_id b = r) (map snd sbs))"
        by blast
      with ids [of r] sb
      show "dd2_lookup (route_stop_departure_bus_id_seq (holder_log (med_holder m'))) r spot =
               dd2_lookup (route_stop_departure_bus_id_seq (holder_log (med_holder m))) r spot
               @ map bus_id (filter (\<lambda>b. route_id b = r) (map snd (sb # sbs)))"
        by auto
    qed
  qed
qed

text \<open>
  Claim C6. With a schedule, every arrival (\<open>Stop.enter_stop\<close>), every ready-to-depart
  event (\<open>Stop_Board._leave\<close>) and every departure of a held bus (\<open>Holder.operation\<close>)
  that is recorded at a stop stores, in the running log of the bus and in the log of
  the node, the deviation \<open>t - (virtual time at the node + schedule_headway * count)\<close>,
  where the count is the length of the node's sequence for the route of the bus before
  the event is appended to it: the events logged before the call and the events of the
  same route that the same call logs earlier. The departure of a dispatched bus from
  its terminal (\<open>Mediator.transfer\<close>) is different: it is appended to the departure
  sequence of the terminal, and the deviation stored for it in the holder log is the
  constant 0, whatever the time. A new stop log and a new holder log start every
  sequence of every route and node of the virtual bus with the virtual bus: its time,
  the bus id \<open>'0'\<close>, and the deviation 0.
\<close>

theorem epsilon_spec:
  "(has_schedule s \<and> enter_stop b t s = Inr s' \<longrightarrow>
      (\<exists>vt seq b'.
           map_of (virtual_bus_stop_arrival_time (bus_log b)) (stop_id s) = Some vt
         \<and> map_of (route_arrival_time_seq (stop_log s)) (route_id b) = Some seq
         \<and> entry_queue s' = entry_queue s @ [b']
         \<and> map_of (stop_epsilon_arrival (bus_log b')) (stop_id s) =
             Some (of_int t - (vt + schedule_headway (bus_log b) * of_nat (length seq)))
         \<and> map_of (dd_lookup (route_bus_epsilon_arrival (stop_log s')) (route_id b)) (bus_id b) =
             Some (of_int t - (vt + schedule_headway (bus_log b) * of_nat (length seq)))
         \<and> map_of (route_arrival_time_seq (stop_log s')) (route_id b) = Some (seq @ [of_int t])))
 \<and> (has_schedule s \<and> distinct (map bus_ident (leave_queue s))
      \<and> leave t s = Inr (leaving, s2) \<longrightarrow>
      (\<forall>r. map_of (route_rtd_bus_id_seq (stop_log s2)) r =
            map_option (\<lambda>seq. seq @ map bus_id (filter (\<lambda>b. route_id b = r) leaving))
              (map_of (route_rtd_bus_id_seq (stop_log s)) r))
    \<and> (\<forall>j<length leaving. \<exists>b0 vt seq.
            b0 \<in> set (leave_queue s)
          \<and> route_id (leaving ! j) = route_id b0 \<and> bus_id (leaving ! j) = bus_id b0
          \<and> map_of (virtual_bus_stop_rtd_time (bus_log b0)) (stop_id s) = Some vt
          \<and> map_of (route_rtd_bus_id_seq (stop_log s)) (route_id b0) = Some seq
          \<and> map_of (stop_epsilon_rtd (bus_log (leaving ! j))) (stop_id s) =
              Some (of_int t - (vt + schedule_headway (bus_log b0)
                * of_nat (length seq
                          + length (filter (\<lambda>x. route_id x = route_id b0) (take j leaving)))))
          \<and> map_of (dd_lookup (route_bus_epsilon_rtd (stop_log s2)) (route_id b0)) (bus_id b0) =
              Some (of_int t - (vt + schedule_headway (bus_log b0)
                * of_nat (length seq
                          + length (filter (\<lambda>x. route_id x = route_id b0) (take j leaving)))))))
 \<and> (holder_has_schedule h \<and> distinct (map fst (identifier_time h))
      \<and> operation t h = Inr (released, h') \<longrightarrow>
      (\<forall>sid. list_all2
          (\<lambda>item b'. \<exists>b0 vt.
               map_of (identifier_bus h) (fst item) = Some b0
             \<and> map_of (virtual_bus_stop_departure_time (bus_log b0)) sid = Some vt
             \<and> map_of (stop_epsilon_departure (bus_log b')) sid =
                 Some (of_int t - (vt + schedule_headway (bus_log b0)
                   * of_nat (length (dd2_lookup (route_stop_departure_bus_id_seq (holder_log h))
                                       (fst (snd (fst item))) sid)
                             + length (finished_before (identifier_time h) (fst item)))))
             \<and> map_of (dd2_lookup (route_stop_bus_epsilon_departure (holder_log h'))
                         (fst (snd (fst item))) sid) (snd (snd (fst item))) =
                 map_of (stop_epsilon_departure (bus_log b')) sid)
          (filter (\<lambda>i. hold_finished i \<and> fst (fst i) = sid) (identifier_time h))
          (released_at released sid)))
 \<and> (holder_has_schedule (med_holder m) \<and> transfer_terminal sbs spot t m = Inr m' \<longrightarrow>
      (\<forall>sb \<in> set sbs.
            map_of (dd2_lookup (route_stop_bus_epsilon_departure (holder_log (med_holder m')))
              (route_id (snd sb)) spot) (bus_id (snd sb)) = Some 0)
    \<and> (\<forall>r. dd2_lookup (route_stop_departure_bus_id_seq (holder_log (med_holder m'))) r spot =
               dd2_lookup (route_stop_departure_bus_id_seq (holder_log (med_holder m))) r spot
               @ map bus_id (filter (\<lambda>b. route_id b = r) (map snd sbs))))
 \<and> (distinct (map fst (route_stop_arrival_time vb)) \<and> distinct (map fst (route_stop_rtd_time vb))
      \<longrightarrow>
      (map_of (route_stop_arrival_time vb) r = Some tms \<and> map_of tms sid = Some a \<longrightarrow>
           map_of (route_arrival_time_seq (new_stop_log sid vb sched)) r = Some [a]
         \<and> map_of (route_arrival_bus_id_seq (new_stop_log sid vb sched)) r = Some [''0'']
         \<and> (sched \<longrightarrow>
              map_of (dd_lookup (route_bus_epsilon_arrival (new_stop_log sid vb sched)) r) ''0''
              = Some 0))
    \<and> (map_of (route_stop_rtd_time vb) r = Some tms \<and> map_of tms sid = Some a \<longrightarrow>
           map_of (route_rtd_time_seq (new_stop_log sid vb sched)) r = Some [a]
         \<and> map_of (route_rtd_bus_id_seq (new_stop_log sid vb sched)) r = Some [''0'']
         \<and> (sched \<longrightarrow>
              map_of (dd_lookup (route_bus_epsilon_rtd (new_stop_log sid vb sched)) r) ''0''
              = Some 0)))
 \<and> (distinct (map fst (route_stop_departure_time vb))
      \<and> map_of (route_stop_departure_time vb) r = Some sts \<and> distinct (map fst sts)
      \<and> map_of sts sid = Some d \<longrightarrow>
        dd2_lookup (route_stop_departure_time_seq (new_holder_log vb sched)) r sid = [d]
      \<and> dd2_lookup (route_stop_departure_bus_id_seq (new_holder_log vb sched)) r sid = [''0'']
      \<and> (sched \<longrightarrow>
           map_of (dd2_lookup (route_stop_bus_epsilon_departure (new_holder_log vb sched)) r sid)
             ''0'' = Some 0))"
proof -
  have arrival: "has_schedule s \<and> enter_stop b t s = Inr s' \<longrightarrow>
      (\<exists>vt seq b'.
           map_of (virtual_bus_stop_arrival_time (bus_log b)) (stop_id s) = Some vt
         \<and> map_of (route_arrival_time_seq (stop_log s)) (route_id b) = Some seq
         \<and> entry_queue s' = entry_queue s @ [b']
         \<and> map_of (stop_epsilon_arrival (bus_log b')) (stop_id s) =
             Some (of_int t - (vt + schedule_headway (bus_log b) * of_nat (length seq)))
         \<and> map_of (dd_lookup (route_bus_epsilon_arrival (stop_log s')) (route_id b)) (bus_id b) =
             Some (of_int t - (vt + schedule_headway (bus_log b) * of_nat (length seq)))
         \<and> map_of (route_arrival_time_seq (stop_log s')) (route_id b) = Some (seq @ [of_int t]))"
    using enter_stop_props [of s b t s'] by simp
  have rtd: "has_schedule s \<and> distinct (map bus_ident (leave_queue s))
      \<and> leave t s = Inr (leaving, s2) \<longrightarrow>
      (\<forall>r. map_of (route_rtd_bus_id_seq (stop_log s2)) r =
            map_option (\<lambda>seq. seq @ map bus_id (filter (\<lambda>b. route_id b = r) leaving))
              (map_of (route_rtd_bus_id_seq (stop_log s)) r))
    \<and> (\<forall>j<length leaving. \<exists>b0 vt seq.
            b0 \<in> set (leave_queue s)
          \<and> route_id (leaving ! j) = route_id b0 \<and> bus_id (leaving ! j) = bus_id b0
          \<and> map_of (virtual_bus_stop_rtd_time (bus_log b0)) (stop_id s) = Some vt
          \<and> map_of (route_rtd_bus_id_seq (stop_log s)) (route_id b0) = Some seq
          \<and> map_of (stop_epsilon_rtd (bus_log (leaving ! j))) (stop_id s) =
              Some (of_int t - (vt + schedule_headway (bus_log b0)
                * of_nat (length seq
                          + length (filter (\<lambda>x. route_id x = route_id b0) (take j leaving)))))
          \<and> map_of (dd_lookup (route_bus_epsilon_rtd (stop_log s2)) (route_id b0)) (bus_id b0) =
              Some (of_int t - (vt + schedule_headway (bus_log b0)
                * of_nat (length seq
                          + length (filter (\<lambda>x. route_id x = route_id b0) (take j leaving))))))"
  proof (intro impI)
    assume a: "has_schedule s \<and> distinct (map bus_ident (leave_queue s))
      \<and> leave t s = Inr (leaving, s2)"
    then have l: "leave_loop t 0 s [] = Inr (leaving, s2)" by (simp add: leave_def)
    from leave_loop_spec [OF l] a show "(\<forall>r. map_of (route_rtd_bus_id_seq (stop_log s2)) r =
            map_option (\<lambda>seq. seq @ map bus_id (filter (\<lambda>b. route_id b = r) leaving))
              (map_of (route_rtd_bus_id_seq (stop_log s)) r))
    \<and> (\<forall>j<length leaving. \<exists>b0 vt seq.
            b0 \<in> set (leave_queue s)
          \<and> route_id (leaving ! j) = route_id b0 \<and> bus_id (leaving ! j) = bus_id b0
          \<and> map_of (virtual_bus_stop_rtd_time (bus_log b0)) (stop_id s) = Some vt
          \<and> map_of (route_rtd_bus_id_seq (stop_log s)) (route_id b0) = Some seq
          \<and> map_of (stop_epsilon_rtd (bus_log (leaving ! j))) (stop_id s) =
              Some (of_int t - (vt + schedule_headway (bus_log b0)
                * of_nat (length seq
                          + length (filter (\<lambda>x. route_id x = route_id b0) (take j leaving)))))
          \<and> map_of (dd_lookup (route_bus_epsilon_rtd (stop_log s2)) (route_id b0)) (bus_id b0) =
              Some (of_int t - (vt + schedule_headway (bus_log b0)
                * of_nat (length seq
                          + length (filter (\<lambda>x. route_id x = route_id b0) (take j leaving))))))"
      by auto
  qed
  have departure: "holder_has_schedule h \<and> distinct (map fst (identifier_time h))
      \<and> operation t h = Inr (released, h') \<longrightarrow>
      (\<forall>sid. list_all2
          (\<lambda>item b'. \<exists>b0 vt.
               map_of (identifier_bus h) (fst item) = Some b0
             \<and> map_of (virtual_bus_stop_departure_time (bus_log b0)) sid = Some vt
             \<and> map_of (stop_epsilon_departure (bus_log b')) sid =
                 Some (of_int t - (vt + schedule_headway (bus_log b0)
                   * of_nat (length (dd2_lookup (route_stop_departure_bus_id_seq (holder_log h))
                                       (fst (snd (fst item))) sid)
                             + length (finished_before (identifier_time h) (fst item)))))
             \<and> map_of (dd2_lookup (route_stop_bus_epsilon_departure (holder_log h'))
                         (fst (snd (fst item))) sid) (snd (snd (fst item))) =
                 map_of (stop_epsilon_departure (bus_log b')) sid)
          (filter (\<lambda>i. hold_finished i \<and> fst (fst i) = sid) (identifier_time h))
          (released_at released sid))"
    using operation_epsilon [of t h released h'] by blast
  have terminal: "holder_has_schedule (med_holder m) \<and> transfer_terminal sbs spot t m = Inr m' \<longrightarrow>
      (\<forall>sb \<in> set sbs.
            map_of (dd2_lookup (route_stop_bus_epsilon_departure (holder_log (med_holder m')))
              (route_id (snd sb)) spot) (bus_id (snd sb)) = Some 0)
    \<and> (\<forall>r. dd2_lookup (route_stop_departure_bus_id_seq (holder_log (med_holder m'))) r spot =
               dd2_lookup (route_stop_departure_bus_id_seq (holder_log (med_holder m))) r spot
               @ map bus_id (filter (\<lambda>b. route_id b = r) (map snd sbs)))"
    using transfer_terminal_spec [of sbs spot t m m'] by blast
  have stop_seeds: "distinct (map fst (route_stop_arrival_time vb))
      \<and> distinct (map fst (route_stop_rtd_time vb)) \<longrightarrow>
      (map_of (route_stop_arrival_time vb) r = Some tms \<and> map_of tms sid = Some a \<longrightarrow>
           map_of (route_arrival_time_seq (new_stop_log sid vb sched)) r = Some [a]
         \<and> map_of (route_arrival_bus_id_seq (new_stop_log sid vb sched)) r = Some [''0'']
         \<and> (sched \<longrightarrow>
              map_of (dd_lookup (route_bus_epsilon_arrival (new_stop_log sid vb sched)) r) ''0''
              = Some 0))
    \<and> (map_of (route_stop_rtd_time vb) r = Some tms \<and> map_of tms sid = Some a \<longrightarrow>
           map_of (route_rtd_time_seq (new_stop_log sid vb sched)) r = Some [a]
         \<and> map_of (route_rtd_bus_id_seq (new_stop_log sid vb sched)) r = Some [''0'']
         \<and> (sched \<longrightarrow>
              map_of (dd_lookup (route_bus_epsilon_rtd (new_stop_log sid vb sched)) r) ''0''
              = Some 0))"
    using new_stop_log_seeds [of vb r tms sid a sched] by blast
  have holder_seeds: "distinct (map fst (route_stop_departure_time vb))
      \<and> map_of (route_stop_departure_time vb) r = Some sts \<and> distinct (map fst sts)
      \<and> map_of sts sid = Some d \<longrightarrow>
        dd2_lookup (route_stop_departure_time_seq (new_holder_log vb sched)) r sid = [d]
      \<and> dd2_lookup (route_stop_departure_bus_id_seq (new_holder_log vb sched)) r sid = [''0'']
      \<and> (sched \<longrightarrow>
           map_of (dd2_lookup (route_stop_bus_epsilon_departure (new_holder_log vb sched)) r sid)
             ''0'' = Some 0)"
  proof (intro impI)
    assume a: "distinct (map fst (route_stop_departure_time vb))
      \<and> map_of (route_stop_departure_time vb) r = Some sts \<and> distinct (map fst sts)
      \<and> map_of sts sid = Some d"
    then have a1: "distinct (map fst (route_stop_departure_time vb))"
      and a2: "map_of (route_stop_departure_time vb) r = Some sts"
      and a3: "distinct (map fst sts)" and a4: "map_of sts sid = Some d"
      by simp_all
    from fold_seed_routes [OF a1 a2 a3 a4, of sched
      "\<lparr>route_stop_departure_time_seq = [], route_stop_departure_bus_id_seq = [],
        route_stop_bus_epsilon_departure = []\<rparr>", folded new_holder_log_def]
    show "dd2_lookup (route_stop_departure_time_seq (new_holder_log vb sched)) r sid = [d]
      \<and> dd2_lookup (route_stop_departure_bus_id_seq (new_holder_log vb sched)) r sid = [''0'']
      \<and> (sched \<longrightarrow>
           map_of (dd2_lookup (route_stop_bus_epsilon_departure (new_holder_log vb sched)) r sid)
             ''0'' = Some 0)" .
  qed
  from arrival rtd departure terminal stop_seeds holder_seeds show ?thesis
    by (intro conjI)
qed

lemmas stop_eval =
  demo_stop_def new_stop_board_def new_stop_log_def seed_arrival_def seed_rtd_def
  demo_virtual_bus_def dd2_setitem_def dd_getitem_def demo_bus_def new_bus_running_log_def
  bind_err_def getitem_def Let_def set_status_def

lemma demo_stop_log:
  "has_schedule (demo_stop rule berths)"
  "map_of (route_arrival_time_seq (stop_log (demo_stop rule berths))) ''B21'' = Some [50]"
  "map_of (route_rtd_bus_id_seq (stop_log (demo_stop rule berths))) ''B21'' = Some [''0'']"
  by (simp_all add: stop_eval)

lemma demo_bus_log:
  "route_id (demo_bus bid) = ''B21''"
  "bus_id (demo_bus bid) = bid"
  "schedule_headway (bus_log (demo_bus bid)) = 1091 / 5"
  "map_of (virtual_bus_stop_arrival_time (bus_log (demo_bus bid))) ''s1'' = Some 50"
  "map_of (virtual_bus_stop_rtd_time (bus_log (demo_bus bid))) ''s1'' = Some 60"
  "map_of (virtual_bus_stop_departure_time (bus_log (demo_bus bid))) ''s1'' = Some 70"
  "map_of (virtual_bus_stop_departure_time (bus_log (demo_bus bid))) ''T0'' = Some 0"
  by (simp_all add: demo_bus_def new_bus_running_log_def)

lemma demo_enter_stop_returns:
  "\<exists>s'. enter_stop (demo_bus ''1'') 300 (demo_stop ''FIFO'' [None]) = Inr s'"
  by (simp add: enter_stop_def record_when_arrival_def record_when_bus_arrival_def stop_eval)

lemma demo_leave_returns:
  "\<exists>leaving s2.
     leave 320 ((demo_stop ''FIFO'' [None])
                 \<lparr>leave_queue := [demo_bus ''1'', demo_bus ''2'', demo_bus ''3'']\<rparr>)
       = Inr (leaving, s2)
   \<and> map bus_id leaving = [''1'', ''3'']"
  by (simp add: leave_def leave_loop.simps leave_bus_def record_when_rtd_def
      record_when_bus_rtd_def stop_eval)

lemma demo_transfer_returns:
  "\<exists>m'. transfer_terminal [(45, demo_bus ''1'')] ''T0'' 218 demo_mediator = Inr m'"
  by (simp add: transfer_terminal_def transfer_terminal_bus_def get_next_link_id_def
      demo_mediator_def demo_link_def enter_bus_def clamp_tt_def update_location_def
      record_when_enter_link_def demo_bus_def demo_node_distance_def new_bus_running_log_def
      bind_err_def getitem_def Let_def set_status_def)

lemma demo_mediator_log:
  "holder_has_schedule (med_holder demo_mediator)"
  "holder_log (med_holder demo_mediator) = new_holder_log demo_virtual_bus True"
  "dd2_lookup (route_stop_departure_bus_id_seq (new_holder_log demo_virtual_bus True))
     ''B21'' ''T0'' = [''0'']"
  by (simp_all add: demo_mediator_def new_holder_def new_holder_log_def demo_virtual_bus_def
      seed_departure_def dd2_lookup_setitem)

theorem epsilon_spec_witness:
  "\<exists>s' leaving s2 released h' m'.
      enter_stop (demo_bus ''1'') 300 (demo_stop ''FIFO'' [None]) = Inr s'
    \<and> map_of (dd_lookup (route_bus_epsilon_arrival (stop_log s')) ''B21'') ''1'' = Some (159 / 5)
    \<and> leave 320 ((demo_stop ''FIFO'' [None])
                   \<lparr>leave_queue := [demo_bus ''1'', demo_bus ''2'', demo_bus ''3'']\<rparr>)
        = Inr (leaving, s2)
    \<and> map bus_id leaving = [''1'', ''3'']
    \<and> map (\<lambda>b. map_of (stop_epsilon_rtd (bus_log b)) ''s1'') leaving
        = [Some (209 / 5), Some (- (882 / 5))]
    \<and> operation 100 demo_holder = Inr (released, h')
    \<and> map (\<lambda>b. map_of (stop_epsilon_departure (bus_log b)) ''s1'') (released_at released ''s1'')
        = [Some (- (941 / 5))]
    \<and> transfer_terminal [(45, demo_bus ''1'')] ''T0'' 218 demo_mediator = Inr m'
    \<and> map_of (dd2_lookup (route_stop_bus_epsilon_departure (holder_log (med_holder m')))
         ''B21'' ''T0'') ''1'' = Some 0
    \<and> map_of (dd_lookup (route_bus_epsilon_arrival (new_stop_log ''s1'' demo_virtual_bus True))
         ''B21'') ''0'' = Some 0
    \<and> map_of (dd_lookup (route_bus_epsilon_rtd (new_stop_log ''s2'' demo_virtual_bus True))
         ''B21'') ''0'' = Some 0
    \<and> map_of (dd2_lookup (route_stop_bus_epsilon_departure (new_holder_log demo_virtual_bus True))
         ''B21'' ''s2'') ''0'' = Some 0"
proof -
  let ?s = "demo_stop ''FIFO'' [None]"
  let ?q = "[demo_bus ''1'', demo_bus ''2'', demo_bus ''3'']"
  let ?sl = "?s\<lparr>leave_queue := ?q\<rparr>"
  let ?b = "demo_bus ''1''"
  obtain s' where en: "enter_stop ?b 300 ?s = Inr s'"
    using demo_enter_stop_returns by blast
  from demo_leave_returns obtain leaving s2 where lv: "leave 320 ?sl = Inr (leaving, s2)"
    and ids: "map bus_id leaving = [''1'', ''3'']"
    by (elim exE conjE)
  obtain released h' where op: "operation 100 demo_holder = Inr (released, h')"
    using demo_operation_returns by blast
  obtain m' where tr: "transfer_terminal [(45, ?b)] ''T0'' 218 demo_mediator = Inr m'"
    using demo_transfer_returns by blast
  have hs: "has_schedule ?s" by (rule demo_stop_log)
  from epsilon_spec [where s = ?s and b = ?b and t = 300 and s' = s',
      THEN conjunct1, THEN mp, OF conjI [OF hs en]]
  have p1: "map_of (dd_lookup (route_bus_epsilon_arrival (stop_log s')) ''B21'') ''1'' =
              Some (159 / 5)"
    by (auto simp: demo_stop_log demo_bus_log demo_stop_simps)
  have hsl: "has_schedule ?sl \<and> distinct (map bus_ident (leave_queue ?sl))
             \<and> leave 320 ?sl = Inr (leaving, s2)"
    using hs lv by (simp add: bus_ident_def demo_bus_log)
  note l = epsilon_spec [where s = ?sl and t = 320 and leaving = leaving and ?s2.0 = s2,
      THEN conjunct2, THEN conjunct1, THEN mp, OF hsl, THEN conjunct2]
  from ids obtain x y where xy: "leaving = [x, y]" and bx: "bus_id x = ''1''"
    and iy: "bus_id y = ''3''"
    by (auto simp: map_eq_Cons_conv)
  from l [rule_format, of 0] xy bx
  have x: "route_id x = ''B21'' \<and> map_of (stop_epsilon_rtd (bus_log x)) ''s1'' = Some (209 / 5)"
    by (auto simp: demo_stop_log demo_bus_log demo_stop_simps)
  from l [rule_format, of 1] xy iy x
  have y: "map_of (stop_epsilon_rtd (bus_log y)) ''s1'' = Some (- (882 / 5))"
    by (auto simp: demo_stop_log demo_bus_log demo_stop_simps)
  from xy x y have p2: "map (\<lambda>b. map_of (stop_epsilon_rtd (bus_log b)) ''s1'') leaving
        = [Some (209 / 5), Some (- (882 / 5))]"
    by simp
  have items: "identifier_time demo_holder =
        [((''s1'', ''B21'', ''1''), Some 1),
         ((''s1'', ''B21'', ''2''), None),
         ((''s2'', ''B21'', ''3''), Some (5 / 2))]"
    by (simp add: demo_holder_def)
  have hh: "holder_has_schedule demo_holder \<and> distinct (map fst (identifier_time demo_holder))
            \<and> operation 100 demo_holder = Inr (released, h')"
    using op by (simp add: demo_holder_def)
  have fb: "finished_before (identifier_time demo_holder) (''s1'', ''B21'', ''1'') = []"
    by (simp add: items finished_before_def)
  have b0: "map_of (identifier_bus demo_holder) (''s1'', ''B21'', ''1'') =
              Some (set_status holding (demo_bus ''1''))"
    by (simp add: demo_holder_def)
  have lg: "holder_log demo_holder = new_holder_log demo_virtual_bus True"
    by (simp add: demo_holder_def)
  from epsilon_spec [where h = demo_holder and t = 100 and released = released and h' = h',
      THEN conjunct2, THEN conjunct2, THEN conjunct1, THEN mp, OF hh, THEN spec, of "''s1''"]
  have p3: "map (\<lambda>b. map_of (stop_epsilon_departure (bus_log b)) ''s1'')
              (released_at released ''s1'') = [Some (- (941 / 5))]"
    by (auto simp: items hold_finished_pair list_all2_Cons1 b0 fb [unfolded items] lg
        demo_holder_log set_status_def demo_bus_def new_bus_running_log_def)
  have hm: "holder_has_schedule (med_holder demo_mediator)
            \<and> transfer_terminal [(45, ?b)] ''T0'' 218 demo_mediator = Inr m'"
    using tr by (simp add: demo_mediator_log)
  from epsilon_spec [where m = demo_mediator and sbs = "[(45, ?b)]" and spot = "''T0''"
      and t = 218 and m' = m',
      THEN conjunct2, THEN conjunct2, THEN conjunct2, THEN conjunct1, THEN mp, OF hm,
      THEN conjunct1]
  have p4: "map_of (dd2_lookup (route_stop_bus_epsilon_departure (holder_log (med_holder m')))
         ''B21'' ''T0'') ''1'' = Some 0"
    by (simp add: demo_bus_log)
  have d: "distinct (map fst (route_stop_arrival_time demo_virtual_bus))
           \<and> distinct (map fst (route_stop_rtd_time demo_virtual_bus))"
    by (simp add: demo_virtual_bus_def)
  have m1: "map_of (route_stop_arrival_time demo_virtual_bus) ''B21'' =
              Some [(''T0'', 0), (''s1'', 50), (''s2'', 120)]
            \<and> map_of [(''T0'', 0), (''s1'', 50), (''s2'', 120 :: real)] ''s1'' = Some 50"
    by (simp add: demo_virtual_bus_def)
  have m2: "map_of (route_stop_rtd_time demo_virtual_bus) ''B21'' =
              Some [(''T0'', 0), (''s1'', 60), (''s2'', 130)]
            \<and> map_of [(''T0'', 0), (''s1'', 60), (''s2'', 130 :: real)] ''s2'' = Some 130"
    by (simp add: demo_virtual_bus_def)
  have m3: "distinct (map fst (route_stop_departure_time demo_virtual_bus))
      \<and> map_of (route_stop_departure_time demo_virtual_bus) ''B21'' =
          Some [(''T0'', 0), (''s1'', 70), (''s2'', 140)]
      \<and> distinct (map fst [(''T0'', 0), (''s1'', 70), (''s2'', 140 :: real)])
      \<and> map_of [(''T0'', 0), (''s1'', 70), (''s2'', 140 :: real)] ''s2'' = Some 140"
    by (simp add: demo_virtual_bus_def)
  from epsilon_spec [where vb = demo_virtual_bus and r = "''B21''" and sid = "''s1''"
      and sched = True,
      THEN conjunct2, THEN conjunct2, THEN conjunct2, THEN conjunct2, THEN conjunct1,
      THEN mp, OF d, THEN conjunct1, THEN mp, OF m1]
  have p5: "map_of (dd_lookup (route_bus_epsilon_arrival
              (new_stop_log ''s1'' demo_virtual_bus True)) ''B21'') ''0'' = Some 0"
    by simp
  from epsilon_spec [where vb = demo_virtual_bus and r = "''B21''" and sid = "''s2''"
      and sched = True,
      THEN conjunct2, THEN conjunct2, THEN conjunct2, THEN conjunct2, THEN conjunct1,
      THEN mp, OF d, THEN conjunct2, THEN mp, OF m2]
  have p6: "map_of (dd_lookup (route_bus_epsilon_rtd
              (new_stop_log ''s2'' demo_virtual_bus True)) ''B21'') ''0'' = Some 0"
    by simp
  from epsilon_spec [where vb = demo_virtual_bus and r = "''B21''" and sid = "''s2''"
      and sched = True,
      THEN conjunct2, THEN conjunct2, THEN conjunct2, THEN conjunct2, THEN conjunct2,
      THEN mp, OF m3]
  have p7: "map_of (dd2_lookup (route_stop_bus_epsilon_departure
              (new_holder_log demo_virtual_bus True)) ''B21'' ''s2'') ''0'' = Some 0"
    by simp
  from en p1 lv ids p2 op p3 tr p4 p5 p6 p7 show ?thesis
    by (intro exI [of _ s'] exI [of _ leaving] exI [of _ s2] exI [of _ released]
        exI [of _ h'] exI [of _ m']) simp
qed

text \<open>
  The first bus of route \<open>B21\<close>, whose headway is 218.2, leaves the terminal at 218.
  The virtual bus leaves the terminal at 0 and is the one departure logged there, so
  the deviation of the specification is \<open>218 - (0 + 218.2 * 1) = -0.2\<close>; the holder log
  stores 0.
\<close>

theorem epsilon_terminal_counterexample:
  "map_option
     (\<lambda>lg. map_of (dd2_lookup (route_stop_bus_epsilon_departure lg) ''B21'' ''T0'') ''1'')
     (holder_log_after (transfer_terminal [(45, demo_bus ''1'')] ''T0'' 218 demo_mediator))
     = Some (Some 0)
   \<and> map_of (virtual_bus_stop_departure_time (bus_log (demo_bus ''1''))) ''T0'' = Some 0
   \<and> schedule_headway (bus_log (demo_bus ''1'')) = 1091 / 5
   \<and> length (dd2_lookup (route_stop_departure_bus_id_seq (holder_log (med_holder demo_mediator)))
        ''B21'' ''T0'') = 1
   \<and> spec_epsilon 218 0 (1091 / 5) 1 = - (1 / 5)
   \<and> spec_epsilon 218 0 (1091 / 5) 1 \<noteq> 0"
proof -
  obtain m' where tr: "transfer_terminal [(45, demo_bus ''1'')] ''T0'' 218 demo_mediator = Inr m'"
    using demo_transfer_returns by blast
  from transfer_terminal_spec [OF tr demo_mediator_log(1)]
  have "map_of (dd2_lookup (route_stop_bus_epsilon_departure (holder_log (med_holder m')))
         ''B21'' ''T0'') ''1'' = Some 0"
    by (simp add: demo_bus_log)
  with tr show ?thesis
    by (simp add: holder_log_after_def demo_bus_log demo_mediator_log spec_epsilon_def)
qed

section \<open>Dispatching\<close>















end
